(* ===== verification/Go_Prelude.thy ===== *)
theory Go_Prelude
  imports Main "HOL-Library.Word" "HOL-Library.List_Lexorder" "HOL-Library.Char_ord"
    "HOL-Library.Sublist"
begin

text \<open>
  What every component shares: the fragment of Go's types and standard library the
  sources use (signed 64-bit wrap-around, decimal and hexadecimal printing, byte strings
  ordered bytewise), and generic lemmas on lists and strings.

  A Go string is a list of bytes, here \<^typ>\<open>string\<close> (a \<^typ>\<open>char\<close> is one byte). The order
  on strings is the lexicographic order of the byte values, which is both Go's string
  order (\<open>sort.Strings\<close>) and SQLite's BINARY collation.
\<close>

section \<open>Machine integers\<close>

definition int64 :: "int \<Rightarrow> int" where
  "int64 x = (x + 2 ^ 63) mod 2 ^ 64 - 2 ^ 63"

definition in_int64 :: "int \<Rightarrow> bool" where
  "in_int64 x \<longleftrightarrow> - (2 ^ 63) \<le> x \<and> x < 2 ^ 63"

section \<open>Decimal and hexadecimal text\<close>

definition digit_char :: "nat \<Rightarrow> char" where
  "digit_char d = (if d < 10 then char_of (48 + d) else char_of (87 + d))"

function itoa :: "int \<Rightarrow> string" where
  "itoa n = (if n < 10 then [digit_char (nat n)] else itoa (n div 10) @ [digit_char (nat (n mod 10))])"
  by pat_completeness auto
termination
  by (relation "measure nat") auto

declare itoa.simps [simp del]

definition Itoa :: "int \<Rightarrow> string" where
  "Itoa i = (if i < 0 then ''-'' @ itoa (- i) else itoa i)"

definition hex_byte :: "8 word \<Rightarrow> string" where
  "hex_byte b = [digit_char (unat b div 16), digit_char (unat b mod 16)]"

definition EncodeToString :: "8 word list \<Rightarrow> string" where
  "EncodeToString bs = concat (map hex_byte bs)"

definition isDigit :: "char \<Rightarrow> bool" where
  "isDigit c \<longleftrightarrow> CHR ''0'' \<le> c \<and> c \<le> CHR ''9''"

definition digit_val :: "char \<Rightarrow> nat" where
  "digit_val c = of_char c - 48"

text \<open>
  \<open>crypto/rand\<close>: the i-th \<open>rand.Read\<close> of a call either fails with an error text or fills
  the whole buffer it is given; the bytes are arbitrary.
\<close>

type_synonym entropy = "nat \<Rightarrow> string + (nat \<Rightarrow> 8 word)"

definition rand_bytes :: "(nat \<Rightarrow> 8 word) \<Rightarrow> nat \<Rightarrow> 8 word list" where
  "rand_bytes f n = map f [0..<n]"

text \<open>
  The verb \<open>%q\<close> of \<open>fmt\<close>, which appears in error texts only: the text between double
  quotes. The escaping of unprintable characters is left out.
\<close>

definition fmt_q :: "string \<Rightarrow> string" where
  "fmt_q x = [CHR 0x22] @ x @ [CHR 0x22]"

section \<open>Lemmas on machine integers\<close>

lemma int64_id [simp]: "in_int64 x \<Longrightarrow> int64 x = x"
  by (simp add: int64_def in_int64_def)

lemma int64_range: "in_int64 (int64 x)"
proof -
  have "0 \<le> (x + 2 ^ 63) mod 2 ^ 64" and "(x + 2 ^ 63) mod 2 ^ 64 < 2 ^ 64"
    by simp_all
  then show ?thesis by (simp add: int64_def in_int64_def)
qed

section \<open>Lemmas on digits\<close>

lemma of_char_digit_char: "d < 16 \<Longrightarrow> of_char (digit_char d) = (if d < 10 then 48 + d else 87 + d)"
  by (simp add: digit_char_def of_char_of)

lemma digit_val_digit_char [simp]: "d < 10 \<Longrightarrow> digit_val (digit_char d) = d"
  by (simp add: digit_val_def of_char_digit_char)

lemma isDigit_digit_char [simp]: "d < 16 \<Longrightarrow> isDigit (digit_char d) \<longleftrightarrow> d < 10"
  by (simp add: isDigit_def less_eq_char_def of_char_digit_char)

lemma digit_char_less: "d < 10 \<Longrightarrow> e < 10 \<Longrightarrow> digit_char d < digit_char e \<longleftrightarrow> d < e"
  by (simp add: less_char_def of_char_digit_char)

lemma digit_char_eq: "d < 16 \<Longrightarrow> e < 16 \<Longrightarrow> digit_char d = digit_char e \<longleftrightarrow> d = e"
proof
  assume "d < 16" "e < 16" "digit_char d = digit_char e"
  then have "(if d < 10 then 48 + d else 87 + d) = (if e < 10 then 48 + e else 87 + e)"
    using of_char_digit_char [of d] of_char_digit_char [of e] by simp
  then show "d = e" by (auto split: if_splits)
qed simp

lemma itoa_digits: "c \<in> set (itoa n) \<Longrightarrow> isDigit c"
proof (induction n rule: itoa.induct)
  case (1 n)
  show ?case
  proof (cases "n < 10")
    case True
    with "1.prems" show ?thesis by (simp add: itoa.simps [of n] nat_less_iff)
  next
    case False
    with "1.prems" have "c \<in> set (itoa (n div 10)) \<or> c = digit_char (nat (n mod 10))"
      by (auto simp: itoa.simps [of n])
    then show ?thesis using "1.IH" [OF False] by (auto simp: nat_less_iff)
  qed
qed

lemma itoa_ne [simp]: "itoa n \<noteq> []"
  by (simp add: itoa.simps [of n])

lemma length_EncodeToString [simp]: "length (EncodeToString bs) = 2 * length bs"
  by (induction bs) (simp_all add: EncodeToString_def hex_byte_def)

lemma hex_byte_chars: "c \<in> set (hex_byte b) \<Longrightarrow> \<exists>d < 16. c = digit_char d"
proof -
  assume "c \<in> set (hex_byte b)"
  moreover have "unat b div 16 < 16" using unsigned_less [of b, where ?'a = nat] by (simp add: less_mult_imp_div_less)
  moreover have "unat b mod 16 < 16" by simp
  ultimately show ?thesis unfolding hex_byte_def
    by (metis empty_iff empty_set set_ConsD)
qed

lemma EncodeToString_chars: "c \<in> set (EncodeToString bs) \<Longrightarrow> \<exists>d < 16. c = digit_char d"
  by (auto simp: EncodeToString_def dest: hex_byte_chars)

lemma EncodeToString_inject:
  "length bs = length cs \<Longrightarrow> EncodeToString bs = EncodeToString cs \<Longrightarrow> bs = cs"
proof (induction bs cs rule: list_induct2)
  case Nil
  then show ?case by simp
next
  case (Cons b bs c cs)
  have lt: "unat x div 16 < 16" for x :: "8 word"
    using unsigned_less [of x, where ?'a = nat] by (simp add: less_mult_imp_div_less)
  from Cons.prems have "unat b div 16 = unat c div 16" "unat b mod 16 = unat c mod 16"
    and tl: "EncodeToString bs = EncodeToString cs"
    by (auto simp: EncodeToString_def hex_byte_def digit_char_eq lt)
  then have "unat b = unat c" by (metis div_mult_mod_eq)
  then have "b = c" by (simp add: unsigned_word_eqI)
  with tl Cons.IH show ?case by simp
qed

section \<open>Lexicographic order on blocks of equal width\<close>

lemma append_less_iff:
  fixes a b x y :: "'a::linorder list"
  shows "length a = length b \<Longrightarrow> a @ x < b @ y \<longleftrightarrow> a < b \<or> a = b \<and> x < y"
proof (induction a b rule: list_induct2)
  case Nil
  then show ?case by simp
next
  case (Cons c a d b)
  then show ?case by auto
qed

section \<open>Lists\<close>

lemma find_append: "find P (xs @ ys) = (case find P xs of None \<Rightarrow> find P ys | Some x \<Rightarrow> Some x)"
  by (induction xs) simp_all

lemma find_ex: "x \<in> set xs \<Longrightarrow> P x \<Longrightarrow> \<exists>y. find P xs = Some y \<and> y \<in> set xs \<and> P y"
  by (induction xs) auto

lemma length_filter_le1:
  "distinct (map k xs) \<Longrightarrow> (\<And>x. P x \<Longrightarrow> k x = v) \<Longrightarrow> length (filter P xs) \<le> 1"
proof (induction xs)
  case Nil
  then show ?case by simp
next
  case (Cons x xs)
  show ?case
  proof (cases "P x")
    case True
    then have "k x = v" by (rule Cons.prems(2))
    with Cons.prems have "\<And>y. y \<in> set xs \<Longrightarrow> \<not> P y" by (force simp: image_iff)
    then show ?thesis by simp
  next
    case False
    with Cons show ?thesis by simp
  qed
qed

lemma hd_sort_key_min:
  "xs \<noteq> [] \<Longrightarrow> hd (sort_key f xs) \<in> set xs \<and> (\<forall>x \<in> set xs. f (hd (sort_key f xs)) \<le> f x)"
proof -
  assume "xs \<noteq> []"
  then have ne: "sort_key f xs \<noteq> []" by (metis length_0_conv length_sort)
  then have hd: "hd (sort_key f xs) \<in> set xs" by (metis hd_in_set set_sort)
  have "\<forall>x \<in> set (sort_key f xs). f (hd (sort_key f xs)) \<le> f x"
    using ne sorted_sort_key [of f xs] by (cases "sort_key f xs") auto
  with hd show ?thesis by simp
qed

end
