(* ===== verification/Timestamps.thy ===== *)
theory Timestamps
  imports Go_Prelude "HOL-Library.Monad_Syntax"
begin

text \<open>
  The text form of every timestamp column (pkg/work/sqlite/store.go, \<open>timestampLayout\<close>
  and \<open>formatTS\<close>), with the part of Go's \<open>time\<close> package it relies on: the proleptic
  Gregorian calendar, \<open>Time.Format\<close> for that layout and \<open>time.Parse\<close> for
  \<open>time.RFC3339Nano\<close>.

  An instant is a number of nanoseconds since the Unix epoch. The theorems show that the
  text order of the column (SQLite compares bytes) is the time order, for every instant
  of the years 0 to 9999, and that parsing inverts formatting.
\<close>

type_synonym time = int
type_synonym duration = int

abbreviation second :: duration where "second \<equiv> 1000000000"
abbreviation minute :: duration where "minute \<equiv> 60 * second"

section \<open>The calendar\<close>

definition leap_year :: "int \<Rightarrow> bool" where
  "leap_year y \<longleftrightarrow> y mod 4 = 0 \<and> (y mod 100 \<noteq> 0 \<or> y mod 400 = 0)"

definition days_before_year :: "int \<Rightarrow> int" where
  "days_before_year y = 365 * y + (y + 3) div 4 - (y + 99) div 100 + (y + 399) div 400"

definition year_of :: "int \<Rightarrow> int" where
  "year_of d =
     (let y = (400 * d) div 146097
      in if days_before_year (y + 1) \<le> d then y + 1
         else if d < days_before_year y then y - 1 else y)"

definition leap_day :: "int \<Rightarrow> int" where
  "leap_day y = (if leap_year y then 1 else 0)"

fun days_before_month :: "int \<Rightarrow> int \<Rightarrow> int" where
  "days_before_month l m =
     (if m \<le> 1 then 0 else if m = 2 then 31 else
      l + (if m = 3 then 59 else if m = 4 then 90 else if m = 5 then 120 else
           if m = 6 then 151 else if m = 7 then 181 else if m = 8 then 212 else
           if m = 9 then 243 else if m = 10 then 273 else if m = 11 then 304 else
           if m = 12 then 334 else 365))"

declare days_before_month.simps [simp del]

definition month_of :: "int \<Rightarrow> int \<Rightarrow> int" where
  "month_of l n =
     (if n < 31 then 1 else if n < 59 + l then 2 else if n < 90 + l then 3 else
      if n < 120 + l then 4 else if n < 151 + l then 5 else if n < 181 + l then 6 else
      if n < 212 + l then 7 else if n < 243 + l then 8 else if n < 273 + l then 9 else
      if n < 304 + l then 10 else if n < 334 + l then 11 else 12)"

definition days_in_month :: "int \<Rightarrow> int \<Rightarrow> int" where
  "days_in_month y m = days_before_month (leap_day y) (m + 1) - days_before_month (leap_day y) m"

text \<open>Days are counted from 1 January of year 0; the Unix epoch is day 719528.\<close>

definition date_days :: "int \<Rightarrow> int \<Rightarrow> int \<Rightarrow> int" where
  "date_days y m d = days_before_year y + days_before_month (leap_day y) m + d - 1"

abbreviation epoch_days :: int where "epoch_days \<equiv> 719528"

section \<open>Formatting\<close>

text \<open>Go's \<open>appendInt\<close>: a minus sign, then the digits padded with zeros to a width.\<close>

definition appendInt :: "int \<Rightarrow> nat \<Rightarrow> string" where
  "appendInt x width =
     (let s = itoa \<bar>x\<bar>
      in (if x < 0 then ''-'' else '''') @ replicate (width - length s) (CHR ''0'') @ s)"

definition formatTS :: "time \<Rightarrow> string" where
  "formatTS t =
     (let secs = t div second; ns = t mod second;
          day = secs div 86400 + epoch_days; sod = secs mod 86400;
          y = year_of day; yday = day - days_before_year y; m = month_of (leap_day y) yday;
          d = yday - days_before_month (leap_day y) m + 1
      in appendInt y 4 @ ''-'' @ appendInt m 2 @ ''-'' @ appendInt d 2 @ ''T'' @
         appendInt (sod div 3600) 2 @ '':'' @ appendInt (sod div 60 mod 60) 2 @ '':'' @
         appendInt (sod mod 60) 2 @ ''.'' @ appendInt ns 9 @ ''Z'')"

section \<open>Parsing\<close>

fun all_digits_val :: "string \<Rightarrow> int \<Rightarrow> int option" where
  "all_digits_val [] acc = Some acc"
| "all_digits_val (c # cs) acc =
     (if isDigit c then all_digits_val cs (acc * 10 + int (digit_val c)) else None)"

text \<open>Exactly n digits (the zero-padded fields of the layout).\<close>

definition getnum :: "nat \<Rightarrow> string \<Rightarrow> (int \<times> string) option" where
  "getnum n s =
     (if length s < n then None
      else case all_digits_val (take n s) 0 of
        None \<Rightarrow> None
      | Some v \<Rightarrow> Some (v, drop n s))"

text \<open>The hour field \<open>15\<close> also accepts a single digit.\<close>

definition getnum_hour :: "string \<Rightarrow> (int \<times> string) option" where
  "getnum_hour s =
     (if 2 \<le> length s \<and> isDigit (s ! 1) then getnum 2 s else getnum 1 s)"

definition skip_char :: "char \<Rightarrow> string \<Rightarrow> string option" where
  "skip_char c s = (case s of x # r \<Rightarrow> if x = c then Some r else None | [] \<Rightarrow> None)"

text \<open>
  An optional fraction: a period or comma and at least one digit; digits after the ninth
  are dropped.
\<close>

definition parse_fraction :: "string \<Rightarrow> int \<times> string" where
  "parse_fraction s =
     (case s of
        p # d # r \<Rightarrow>
          if (p = CHR ''.'' \<or> p = CHR '','') \<and> isDigit d
          then let ds = take 9 (takeWhile isDigit (d # r))
               in (case all_digits_val ds 0 of
                     Some v \<Rightarrow> (v * 10 ^ (9 - length ds), dropWhile isDigit (d # r))
                   | None \<Rightarrow> (0, s))
          else (0, s)
      | _ \<Rightarrow> (0, s))"

text \<open>The zone: \<open>Z\<close> or a signed offset; the value is the offset in seconds.\<close>

definition parse_zone :: "string \<Rightarrow> (int \<times> string) option" where
  "parse_zone s =
     (case s of
        [] \<Rightarrow> None
      | z # r \<Rightarrow>
          if z = CHR ''Z'' then Some (0, r)
          else if z = CHR ''+'' \<or> z = CHR ''-'' then
            do { (hr, r1) \<leftarrow> getnum 2 r;
                 r2 \<leftarrow> skip_char (CHR '':'') r1;
                 (mm, r3) \<leftarrow> getnum 2 r2;
                 if hr > 24 \<or> mm > 60 then None
                 else Some ((if z = CHR ''-'' then -1 else 1) * (hr * 60 + mm) * 60, r3) }
          else None)"

definition parseRFC3339Nano :: "string \<Rightarrow> time option" where
  "parseRFC3339Nano s =
     do { (y, s1) \<leftarrow> getnum 4 s;
          s2 \<leftarrow> skip_char (CHR ''-'') s1;
          (m, s3) \<leftarrow> getnum 2 s2;
          s4 \<leftarrow> skip_char (CHR ''-'') s3;
          (d, s5) \<leftarrow> getnum 2 s4;
          s6 \<leftarrow> skip_char (CHR ''T'') s5;
          (h, s7) \<leftarrow> getnum_hour s6;
          s8 \<leftarrow> skip_char (CHR '':'') s7;
          (mi, s9) \<leftarrow> getnum 2 s8;
          s10 \<leftarrow> skip_char (CHR '':'') s9;
          (se, s11) \<leftarrow> getnum 2 s10;
          (ns, s12) \<leftarrow> Some (parse_fraction s11);
          (off, s13) \<leftarrow> parse_zone s12;
          if m < 1 \<or> 12 < m \<or> 24 \<le> h \<or> 60 \<le> mi \<or> 60 \<le> se \<or> s13 \<noteq> []
             \<or> d < 1 \<or> days_in_month y m < d
          then None
          else Some (((date_days y m d - epoch_days) * 86400 + h * 3600 + mi * 60 + se - off)
                       * second + ns) }"

section \<open>The instants of the years 0 to 9999\<close>

definition ts_ok :: "time \<Rightarrow> bool" where
  "ts_ok t \<longleftrightarrow> - 62167219200 * second \<le> t \<and> t < 253402300800 * second"

section \<open>The calendar is a bijection\<close>

lemma div_bounds:
  fixes x k :: int
  assumes "0 < k"
  shows "k * (x div k) \<le> x" "x < k * (x div k) + k"
  using assms mult_div_mod_eq [of k x] pos_mod_bound [of k x] pos_mod_sign [of k x] by linarith+

lemma div_unique_bounds:
  fixes x k q :: int
  assumes "0 < k" and "k * q \<le> x" and "x < k * q + k"
  shows "x div k = q"
  using assms by (intro int_div_pos_eq [of x k q "x - k * q"]) auto

lemma div_ceiling_step:
  fixes y k :: int
  assumes "0 < k"
  shows "(y + k) div k = (y + (k - 1)) div k + (if y mod k = 0 then 1 else 0)"
proof -
  define a r where "a = y div k" and "r = y mod k"
  have y: "y = k * a + r" "0 \<le> r" "r < k"
    using assms by (simp_all add: a_def r_def)
  have 1: "(y + k) div k = a + 1"
    by (rule div_unique_bounds) (use assms y in \<open>auto simp: algebra_simps\<close>)
  have 2: "(y + (k - 1)) div k = (if r = 0 then a else a + 1)"
    by (rule div_unique_bounds) (use assms y in \<open>auto simp: algebra_simps\<close>)
  show ?thesis unfolding 1 2 by (simp add: r_def)
qed

lemma numeral_100_dvd_400: "(100::int) dvd 400" and numeral_4_dvd_100: "(4::int) dvd 100"
  by simp_all

lemma days_before_year_Suc: "days_before_year (y + 1) = days_before_year y + 365 + leap_day y"
proof -
  have a: "(y + 4) div 4 = (y + 3) div 4 + (if y mod 4 = 0 then 1 else 0)"
    using div_ceiling_step [of 4 y] by simp
  have b: "(y + 100) div 100 = (y + 99) div 100 + (if y mod 100 = 0 then 1 else 0)"
    using div_ceiling_step [of 100 y] by simp
  have c: "(y + 400) div 400 = (y + 399) div 400 + (if y mod 400 = 0 then 1 else 0)"
    using div_ceiling_step [of 400 y] by simp
  have d: "y mod 400 = 0 \<Longrightarrow> y mod 100 = 0" "y mod 100 = 0 \<Longrightarrow> y mod 4 = 0"
    using numeral_100_dvd_400 numeral_4_dvd_100
    by (meson dvd_imp_mod_0 dvd_trans mod_0_imp_dvd)+
  show ?thesis
  proof -
    have "days_before_year (y + 1) = 365 * y + 365 + (y + 4) div 4 - (y + 100) div 100 + (y + 400) div 400"
      unfolding days_before_year_def by (simp add: add.commute add.left_commute)
    moreover have "leap_day y = (if y mod 4 = 0 then 1 else 0) - (if y mod 100 = 0 then 1 else 0)
        + (if y mod 400 = 0 then 1 else 0)"
      unfolding leap_day_def leap_year_def using d by (cases "y mod 100 = 0") auto
    ultimately show ?thesis unfolding a b c days_before_year_def by linarith
  qed
qed

lemma leap_day_01: "leap_day y = 0 \<or> leap_day y = 1"
  by (simp add: leap_day_def)

lemma days_before_year_mono: "y \<le> z \<Longrightarrow> days_before_year y \<le> days_before_year z"
proof (induction z rule: int_ge_induct)
  case base
  then show ?case by simp
next
  case (step z)
  then show ?case using days_before_year_Suc [of z] leap_day_01 [of z] by linarith
qed

lemma days_before_year_bounds:
  "146097 * y - 146097 \<le> 400 * days_before_year y"
  "400 * days_before_year y \<le> 146097 * y + 146097"
proof -
  define a b c where "a = (y + 3) div 4" and "b = (y + 99) div 100" and "c = (y + 399) div 400"
  have "4 * a \<le> y + 3" "y + 3 < 4 * a + 4" "100 * b \<le> y + 99" "y + 99 < 100 * b + 100"
    "400 * c \<le> y + 399" "y + 399 < 400 * c + 400"
    unfolding a_def b_def c_def by (intro div_bounds; simp)+
  moreover have "days_before_year y = 365 * y + a - b + c"
    by (simp add: days_before_year_def a_def b_def c_def)
  ultimately show "146097 * y - 146097 \<le> 400 * days_before_year y"
    and "400 * days_before_year y \<le> 146097 * y + 146097"
    by linarith+
qed

lemma year_of_bounds:
  "days_before_year (year_of d) \<le> d" "d < days_before_year (year_of d + 1)"
proof -
  define y where "y = (400 * d) div 146097"
  have y: "146097 * y \<le> 400 * d" "400 * d < 146097 * y + 146097"
    unfolding y_def by linarith+
  have lo: "days_before_year (y - 1) \<le> d"
    using days_before_year_bounds(2) [of "y - 1"] y by (simp add: algebra_simps)
  have hi: "d < days_before_year (y + 2)"
    using days_before_year_bounds(1) [of "y + 2"] y by (simp add: algebra_simps)
  have yo: "year_of d = (if days_before_year (y + 1) \<le> d then y + 1
      else if d < days_before_year y then y - 1 else y)"
    by (simp add: year_of_def y_def Let_def)
  show "days_before_year (year_of d) \<le> d" using lo by (simp add: yo)
  show "d < days_before_year (year_of d + 1)" using hi by (auto simp: yo add.commute)
qed

lemma days_before_month_Suc: "l = 0 \<or> l = 1 \<Longrightarrow> days_before_month l m \<le> days_before_month l (m + 1)"
  by (auto simp: days_before_month.simps)

lemma days_before_month_mono:
  assumes "l = 0 \<or> l = 1"
  shows "m \<le> n \<Longrightarrow> days_before_month l m \<le> days_before_month l n"
proof (induction n rule: int_ge_induct)
  case base
  then show ?case by simp
next
  case (step n)
  then show ?case using days_before_month_Suc [OF assms, of n] by linarith
qed

lemma month_of_bounds:
  assumes "l = 0 \<or> l = 1" and "0 \<le> n" and "n < 365 + l"
  shows "1 \<le> month_of l n" "month_of l n \<le> 12"
    "days_before_month l (month_of l n) \<le> n" "n < days_before_month l (month_of l n + 1)"
  using assms by (auto simp: month_of_def days_before_month.simps)

lemma days_in_month_le: "1 \<le> m \<Longrightarrow> m \<le> 12 \<Longrightarrow> days_in_month y m \<le> 31"
  using leap_day_01 [of y] unfolding days_in_month_def
  by (auto simp: days_before_month.simps)

section \<open>Zero-padded numbers\<close>

fun pad :: "nat \<Rightarrow> int \<Rightarrow> string" where
  "pad 0 x = []"
| "pad (Suc w) x = pad w (x div 10) @ [digit_char (nat (x mod 10))]"

lemma length_pad [simp]: "length (pad w x) = w"
  by (induction w arbitrary: x) simp_all

lemma pad_zero: "pad w 0 = replicate w (CHR ''0'')"
proof (induction w)
  case (Suc w)
  have "digit_char 0 = CHR ''0''" by code_simp
  with Suc show ?case by (simp add: replicate_append_same)
qed simp

lemma itoa_pad:
  "0 \<le> x \<Longrightarrow> x < 10 ^ Suc w \<Longrightarrow>
     length (itoa x) \<le> Suc w \<and> replicate (Suc w - length (itoa x)) (CHR ''0'') @ itoa x = pad (Suc w) x"
proof (induction w arbitrary: x)
  case 0
  then show ?case by (simp add: itoa.simps [of x])
next
  case (Suc w)
  show ?case
  proof (cases "x < 10")
    case True
    with Suc.prems show ?thesis
      by (simp add: itoa.simps [of x] pad_zero del: pad.simps(2)) (simp add: pad_zero)
  next
    case False
    have "0 \<le> x div 10" "x div 10 < 10 ^ Suc w" using Suc.prems by auto
    from Suc.IH [OF this] show ?thesis using False
      by (simp add: itoa.simps [of x] del: pad.simps(2)) simp
  qed
qed

lemma appendInt_pad: "0 \<le> x \<Longrightarrow> x < 10 ^ Suc w \<Longrightarrow> appendInt x (Suc w) = pad (Suc w) x"
  using itoa_pad [of x w] by (simp add: appendInt_def del: pad.simps)

lemma pad_less: "0 \<le> x \<Longrightarrow> 0 \<le> y \<Longrightarrow> x < 10 ^ w \<Longrightarrow> y < 10 ^ w \<Longrightarrow> x < y \<Longrightarrow> pad w x < pad w y"
proof (induction w arbitrary: x y)
  case 0
  then show ?case by simp
next
  case (Suc w)
  show ?case
  proof (cases "x div 10 < y div 10")
    case True
    have "pad w (x div 10) < pad w (y div 10)"
      using Suc.prems True by (intro Suc.IH) auto
    then show ?thesis by (simp add: append_less_iff)
  next
    case False
    have "x div 10 \<le> y div 10" using \<open>x < y\<close> by (simp add: zdiv_mono1)
    with False have eq: "x div 10 = y div 10" by simp
    then have "x mod 10 < y mod 10"
      using \<open>x < y\<close> div_mult_mod_eq [of x 10] div_mult_mod_eq [of y 10] by linarith
    then have "nat (x mod 10) < nat (y mod 10)" by auto
    with eq show ?thesis by (simp add: append_less_iff digit_char_less nat_less_iff)
  qed
qed

lemma all_digits_val_append:
  "all_digits_val (xs @ ys) acc = Option.bind (all_digits_val xs acc) (all_digits_val ys)"
  by (induction xs arbitrary: acc) simp_all

lemma all_digits_val_pad:
  "0 \<le> x \<Longrightarrow> x < 10 ^ w \<Longrightarrow> all_digits_val (pad w x) acc = Some (acc * 10 ^ w + x)"
proof (induction w arbitrary: x)
  case 0
  then show ?case by simp
next
  case (Suc w)
  have "all_digits_val (pad w (x div 10)) acc = Some (acc * 10 ^ w + x div 10)"
    using Suc.prems by (intro Suc.IH) auto
  then show ?case by (simp add: all_digits_val_append nat_less_iff algebra_simps)
qed

lemma getnum_pad: "0 \<le> x \<Longrightarrow> x < 10 ^ w \<Longrightarrow> getnum w (pad w x @ r) = Some (x, r)"
  by (simp add: getnum_def all_digits_val_pad)

lemma pad_digits: "c \<in> set (pad w x) \<Longrightarrow> isDigit c"
  by (induction w arbitrary: x) (auto simp: nat_less_iff)

section \<open>The fields of an instant\<close>

text \<open>The seven numbers \<open>formatTS\<close> prints, and the instant they stand for.\<close>

definition day_of :: "time \<Rightarrow> int" where
  "day_of t = t div second div 86400 + epoch_days"

definition sod_of :: "time \<Rightarrow> int" where
  "sod_of t = t div second mod 86400"

definition year_month_day :: "int \<Rightarrow> int \<times> int \<times> int" where
  "year_month_day day =
     (let y = year_of day; yday = day - days_before_year y; m = month_of (leap_day y) yday
      in (y, m, yday - days_before_month (leap_day y) m + 1))"

lemma time_split: "t = ((day_of t - epoch_days) * 86400 + sod_of t) * second + t mod second"
  using div_mult_mod_eq [of t second] div_mult_mod_eq [of "t div second" 86400]
  by (simp add: day_of_def sod_of_def)

lemma sod_of_bounds: "0 \<le> sod_of t" "sod_of t < 86400"
  by (simp_all add: sod_of_def)

lemma sod_split: "sod_of t = sod_of t div 3600 * 3600 + sod_of t div 60 mod 60 * 60 + sod_of t mod 60"
proof -
  have "sod_of t div 60 div 60 = sod_of t div 3600" by (simp add: zdiv_zmult2_eq [symmetric])
  then show ?thesis
    using div_mult_mod_eq [of "sod_of t" 60] div_mult_mod_eq [of "sod_of t div 60" 60] by linarith
qed

lemma year_month_day_valid:
  assumes "year_month_day day = (y, m, d)"
  shows "date_days y m d = day" "1 \<le> m" "m \<le> 12" "1 \<le> d" "d \<le> days_in_month y m" "y = year_of day"
proof -
  let ?l = "leap_day y" and ?n = "day - days_before_year y"
  have y: "y = year_of day" and m: "m = month_of ?l ?n" and d: "d = ?n - days_before_month ?l m + 1"
    using assms by (auto simp: year_month_day_def Let_def)
  have n: "0 \<le> ?n" "?n < 365 + ?l"
    using year_of_bounds [of day] days_before_year_Suc [of y] unfolding y by simp_all
  note mb = month_of_bounds [OF leap_day_01 n, folded m]
  from mb d show "date_days y m d = day" "1 \<le> m" "m \<le> 12" "1 \<le> d" "d \<le> days_in_month y m"
    by (simp_all add: date_days_def days_in_month_def)
  show "y = year_of day" by (rule y)
qed

lemma formatTS_fields:
  assumes "year_month_day (day_of t) = (y, m, d)"
  shows "formatTS t = appendInt y 4 @ ''-'' @ appendInt m 2 @ ''-'' @ appendInt d 2 @ ''T'' @
    appendInt (sod_of t div 3600) 2 @ '':'' @ appendInt (sod_of t div 60 mod 60) 2 @ '':'' @
    appendInt (sod_of t mod 60) 2 @ ''.'' @ appendInt (t mod second) 9 @ ''Z''"
  using assms by (auto simp: formatTS_def year_month_day_def day_of_def sod_of_def Let_def)

lemma ts_ok_year:
  assumes "ts_ok t" and "year_month_day (day_of t) = (y, m, d)"
  shows "0 \<le> y" "y < 10000"
proof -
  have "0 \<le> day_of t" "day_of t < days_before_year 10000"
    using assms(1) unfolding ts_ok_def day_of_def by (simp_all add: days_before_year_def) linarith+
  moreover have y: "y = year_of (day_of t)" using year_month_day_valid(6) [OF assms(2)] .
  moreover have "days_before_year 0 = 0" by (simp add: days_before_year_def)
  ultimately show "0 \<le> y" "y < 10000"
    using year_of_bounds [of "day_of t"] days_before_year_mono [of "y + 1" 0]
      days_before_year_mono [of 10000 y] by fastforce+
qed

lemma formatTS_pad:
  assumes "ts_ok t" and ymd: "year_month_day (day_of t) = (y, m, d)"
  shows "formatTS t = pad 4 y @ ''-'' @ pad 2 m @ ''-'' @ pad 2 d @ ''T'' @
    pad 2 (sod_of t div 3600) @ '':'' @ pad 2 (sod_of t div 60 mod 60) @ '':'' @
    pad 2 (sod_of t mod 60) @ ''.'' @ pad 9 (t mod second) @ ''Z''"
proof -
  have a: "appendInt x 4 = pad 4 x" if "0 \<le> x" "x < 10000" for x
    using appendInt_pad [of x 3] that by (simp add: numeral_eq_Suc del: pad.simps)
  have b: "appendInt x 2 = pad 2 x" if "0 \<le> x" "x < 100" for x
    using appendInt_pad [of x 1] that by (simp add: numeral_eq_Suc del: pad.simps)
  have c: "appendInt x 9 = pad 9 x" if "0 \<le> x" "x < second" for x
    using appendInt_pad [of x 8] that by (simp add: numeral_eq_Suc del: pad.simps)
  note v = year_month_day_valid [OF ymd]
  have "d < 100" using v(2,3,5) days_in_month_le [of m y] by simp
  moreover have "0 \<le> sod_of t div 3600" "sod_of t div 3600 < 100"
    using sod_of_bounds [of t] by simp_all
  ultimately show ?thesis unfolding formatTS_fields [OF ymd]
    using v ts_ok_year [OF assms] by (simp add: a b c del: pad.simps)
qed

section \<open>Text order is time order\<close>

lemma pad_append_less:
  assumes "0 \<le> x" "x < 10 ^ w" "0 \<le> y" "y < 10 ^ w"
  shows "pad w x @ r < pad w y @ r' \<longleftrightarrow> x < y \<or> x = y \<and> r < r'"
proof -
  have "pad w x < pad w y \<longleftrightarrow> x < y"
    using pad_less [of x y w] pad_less [of y x w] assms by (metis less_asym not_less_iff_gr_or_eq)
  moreover have "pad w x = pad w y \<longleftrightarrow> x = y"
    using pad_less [of x y w] pad_less [of y x w] assms by (metis less_irrefl not_less_iff_gr_or_eq)
  ultimately show ?thesis by (simp add: append_less_iff)
qed

lemma year_month_day_less:
  assumes "day < day'" and "year_month_day day = (y, m, d)" and "year_month_day day' = (y', m', d')"
  shows "y < y' \<or> y = y' \<and> (m < m' \<or> m = m' \<and> d < d')"
proof -
  note v = year_month_day_valid [OF assms(2)] and v' = year_month_day_valid [OF assms(3)]
  have "\<not> y' < y"
  proof
    assume "y' < y"
    then have "days_before_year (y' + 1) \<le> days_before_year y" by (intro days_before_year_mono) simp
    then show False using year_of_bounds [of day] year_of_bounds [of day'] v(6) v'(6) assms(1) by simp
  qed
  moreover have "m < m' \<or> m = m' \<and> d < d'" if "y = y'"
  proof -
    have "\<not> m' < m"
    proof
      assume "m' < m"
      then have "days_before_month (leap_day y) (m' + 1) \<le> days_before_month (leap_day y) m"
        by (intro days_before_month_mono leap_day_01) simp
      then show False using v(1,4) v'(1,5) assms(1) that
        by (simp add: date_days_def days_in_month_def)
    qed
    moreover have "d < d'" if "m = m'"
      using that \<open>y = y'\<close> v(1) v'(1) assms(1) by (simp add: date_days_def)
    ultimately show ?thesis by force
  qed
  ultimately show ?thesis by force
qed

lemma sod_less:
  assumes "sod_of t < sod_of u"
  shows "sod_of t div 3600 < sod_of u div 3600 \<or> sod_of t div 3600 = sod_of u div 3600 \<and>
    (sod_of t div 60 mod 60 < sod_of u div 60 mod 60 \<or>
     sod_of t div 60 mod 60 = sod_of u div 60 mod 60 \<and> sod_of t mod 60 < sod_of u mod 60)"
proof -
  have "sod_of t div 3600 \<le> sod_of u div 3600" using assms by (simp add: zdiv_mono1)
  moreover have "x mod 60 < 60" "0 \<le> x mod 60" for x :: int by simp_all
  ultimately show ?thesis using assms sod_split [of t] sod_split [of u] by (smt (verit))
qed

lemma text_less:
  assumes "y < y' \<or> y = y' \<and> (m < m' \<or> m = m' \<and> (d < d' \<or> d = d' \<and> (h < h' \<or> h = h' \<and>
      (mi < mi' \<or> mi = mi' \<and> (se < se' \<or> se = se' \<and> ns < ns')))))"
    and "0 \<le> y" "y < 10 ^ 4" "0 \<le> m" "m < 10 ^ 2" "0 \<le> d" "d < 10 ^ 2" "0 \<le> h" "h < 10 ^ 2"
    and "0 \<le> mi" "mi < 10 ^ 2" "0 \<le> se" "se < 10 ^ 2" "0 \<le> ns" "ns < 10 ^ 9"
    and "0 \<le> y'" "y' < 10 ^ 4" "0 \<le> m'" "m' < 10 ^ 2" "0 \<le> d'" "d' < 10 ^ 2" "0 \<le> h'" "h' < 10 ^ 2"
    and "0 \<le> mi'" "mi' < 10 ^ 2" "0 \<le> se'" "se' < 10 ^ 2" "0 \<le> ns'" "ns' < 10 ^ 9"
  shows "pad 4 y @ ''-'' @ pad 2 m @ ''-'' @ pad 2 d @ ''T'' @
      pad 2 h @ '':'' @ pad 2 mi @ '':'' @ pad 2 se @ ''.'' @ pad 9 ns @ ''Z''
    < pad 4 y' @ ''-'' @ pad 2 m' @ ''-'' @ pad 2 d' @ ''T'' @
      pad 2 h' @ '':'' @ pad 2 mi' @ '':'' @ pad 2 se' @ ''.'' @ pad 9 ns' @ ''Z''"
  using assms(1)
  by (simp only: assms(2-) pad_append_less append_less_iff refl length_append simp_thms
      less_list_code order.irrefl)

lemma formatTS_less:
  assumes t: "ts_ok t" and u: "ts_ok u" and less: "t < u"
  shows "formatTS t < formatTS u"
proof -
  obtain y m d where ymd: "year_month_day (day_of t) = (y, m, d)" by (metis prod_cases3)
  obtain y' m' d' where ymd': "year_month_day (day_of u) = (y', m', d')" by (metis prod_cases3)
  note v = year_month_day_valid [OF ymd] and v' = year_month_day_valid [OF ymd']
  have b: "d < 100" "d' < 100" "m < 100" "m' < 100"
    using v v' days_in_month_le [of m y] days_in_month_le [of m' y'] by simp_all
  have h: "0 \<le> sod_of x div 3600" "sod_of x div 3600 < 100" for x
    using sod_of_bounds [of x] by simp_all
  have m60: "x mod 60 < 100" "x mod second < 10 ^ 9" "0 \<le> x mod second" for x :: int
    by simp_all
  have dd: "day_of t \<le> day_of u"
    using less unfolding day_of_def by (simp add: zdiv_mono1)
  have key: "day_of t < day_of u \<or> day_of t = day_of u \<and>
      (sod_of t < sod_of u \<or> sod_of t = sod_of u \<and> t mod second < u mod second)"
    using dd less time_split [of t] time_split [of u] m60(2,3) [of t] m60(2,3) [of u]
    by (cases "day_of t = day_of u") (auto simp: not_less_iff_gr_or_eq)
  have "y < y' \<or> y = y' \<and> (m < m' \<or> m = m' \<and> (d < d' \<or> d = d' \<and>
      (sod_of t < sod_of u \<or> sod_of t = sod_of u \<and> t mod second < u mod second)))"
    using key year_month_day_less [OF _ ymd ymd'] ymd ymd' by auto
  then have lex: "y < y' \<or> y = y' \<and> (m < m' \<or> m = m' \<and> (d < d' \<or> d = d' \<and>
      (sod_of t div 3600 < sod_of u div 3600 \<or> sod_of t div 3600 = sod_of u div 3600 \<and>
       (sod_of t div 60 mod 60 < sod_of u div 60 mod 60 \<or>
        sod_of t div 60 mod 60 = sod_of u div 60 mod 60 \<and>
        (sod_of t mod 60 < sod_of u mod 60 \<or>
         sod_of t mod 60 = sod_of u mod 60 \<and> t mod second < u mod second)))))"
    using sod_less [of t u] by metis
  show ?thesis
    unfolding formatTS_pad [OF t ymd] formatTS_pad [OF u ymd']
    by (rule text_less [OF lex])
      (use ts_ok_year [OF t ymd] ts_ok_year [OF u ymd'] v v' b h m60 in simp_all)
qed

lemma formatTS_less_iff: "ts_ok t \<Longrightarrow> ts_ok u \<Longrightarrow> formatTS t < formatTS u \<longleftrightarrow> t < u"
  using formatTS_less [of t u] formatTS_less [of u t] by (metis less_asym not_less_iff_gr_or_eq)

lemma formatTS_le_iff: "ts_ok t \<Longrightarrow> ts_ok u \<Longrightarrow> formatTS t \<le> formatTS u \<longleftrightarrow> t \<le> u"
  using formatTS_less_iff [of u t] by (simp add: not_less [symmetric])

lemma formatTS_inject: "ts_ok t \<Longrightarrow> ts_ok u \<Longrightarrow> formatTS t = formatTS u \<longleftrightarrow> t = u"
  using formatTS_less [of t u] formatTS_less [of u t] by (metis less_irrefl not_less_iff_gr_or_eq)

lemmas formatTS_order = formatTS_less_iff formatTS_le_iff formatTS_inject

section \<open>Parsing inverts formatting\<close>

lemma pad2_expand: "pad 2 x = [digit_char (nat (x div 10 mod 10)), digit_char (nat (x mod 10))]"
  by (simp add: numeral_2_eq_2)

lemma getnum_hour_pad: "0 \<le> x \<Longrightarrow> x < 100 \<Longrightarrow> getnum_hour (pad 2 x @ r) = Some (x, r)"
  using getnum_pad [of x 2 r] by (simp add: getnum_hour_def pad2_expand nat_less_iff)

lemma takeWhile_pad:
  "\<not> isDigit c \<Longrightarrow> takeWhile isDigit (pad w x @ c # r) = pad w x"
  "\<not> isDigit c \<Longrightarrow> dropWhile isDigit (pad w x @ c # r) = c # r"
  using pad_digits [of _ w x] by (simp_all add: takeWhile_append dropWhile_append)

lemma parse_fraction_pad:
  assumes "0 \<le> x" "x < 10 ^ 9"
  shows "parse_fraction (CHR ''.'' # pad 9 x @ ''Z'') = (x, ''Z'')"
proof -
  have z: "\<not> isDigit (CHR ''Z'')" by code_simp
  have "pad 9 x \<noteq> []" using length_pad [of 9 x] by (metis list.size(3) zero_neq_numeral)
  then obtain d r where p: "pad 9 x = d # r" by (cases "pad 9 x") auto
  then have d: "isDigit d" using pad_digits [of d 9 x] by simp
  have v: "all_digits_val (pad 9 x) 0 = Some x"
    using all_digits_val_pad [OF assms, of 0] by (simp del: pad.simps)
  show ?thesis
    using takeWhile_pad [OF z, of 9 x "[]"] d v length_pad [of 9 x] unfolding p
    by (simp add: parse_fraction_def)
qed

lemma parse_text:
  assumes "0 \<le> y" "y < 10000" "1 \<le> m" "m \<le> 12" "1 \<le> d" "d \<le> days_in_month y m"
    and "0 \<le> h" "h < 24" "0 \<le> mi" "mi < 60" "0 \<le> se" "se < 60" "0 \<le> ns" "ns < 10 ^ 9"
  shows "parseRFC3339Nano (pad 4 y @ ''-'' @ pad 2 m @ ''-'' @ pad 2 d @ ''T'' @
    pad 2 h @ '':'' @ pad 2 mi @ '':'' @ pad 2 se @ ''.'' @ pad 9 ns @ ''Z'') =
    Some (((date_days y m d - epoch_days) * 86400 + h * 3600 + mi * 60 + se) * second + ns)"
proof -
  have g4: "getnum 4 (pad 4 y @ r) = Some (y, r)" for r
    using getnum_pad [of y 4 r] assms by (simp del: pad.simps)
  have g2: "getnum 2 (pad 2 x @ r) = Some (x, r)" if "0 \<le> x" "x < 100" for x r
    using getnum_pad [of x 2 r] that by (simp del: pad.simps)
  have b: "d < 100" "0 \<le> d" "m < 100" "0 \<le> m" "h < 100" "mi < 100" "se < 100"
    using assms days_in_month_le [of m y] by simp_all
  have fr: "parse_fraction (CHR ''.'' # pad 9 ns @ ''Z'') = (ns, ''Z'')"
    by (rule parse_fraction_pad) (use assms in simp_all)
  have ok: "\<not> (m < 1 \<or> 12 < m \<or> 24 \<le> h \<or> 60 \<le> mi \<or> 60 \<le> se \<or> ([] :: string) \<noteq> []
      \<or> d < 1 \<or> days_in_month y m < d)"
    using assms by simp
  note g = g4 g2 [OF b(4,3)] g2 [OF b(2,1)] getnum_hour_pad [OF assms(7) b(5)]
    g2 [OF assms(9) b(6)] g2 [OF assms(11) b(7)]
  show ?thesis unfolding parseRFC3339Nano_def using ok
    by (simp only: g fr skip_char_def parse_zone_def append.simps list.case bind.bind_lunit
        prod.case refl if_True if_False if_not_P simp_thms diff_0_right)
qed

lemma parse_formatTS:
  assumes "ts_ok t"
  shows "parseRFC3339Nano (formatTS t) = Some t"
proof -
  obtain y m d where ymd: "year_month_day (day_of t) = (y, m, d)" by (metis prod_cases3)
  have h: "0 \<le> sod_of t div 3600" "sod_of t div 3600 < 24" using sod_of_bounds [of t] by simp_all
  have "((date_days y m d - epoch_days) * 86400 + sod_of t div 3600 * 3600
      + sod_of t div 60 mod 60 * 60 + sod_of t mod 60) * second + t mod second
      = ((day_of t - epoch_days) * 86400 + sod_of t) * second + t mod second"
    unfolding year_month_day_valid(1) [OF ymd] by (subst (4) sod_split) (simp only: add.assoc)
  also have "\<dots> = t" by (rule time_split [symmetric])
  finally have e: "((date_days y m d - epoch_days) * 86400 + sod_of t div 3600 * 3600
      + sod_of t div 60 mod 60 * 60 + sod_of t mod 60) * second + t mod second = t" .
  show ?thesis unfolding formatTS_pad [OF assms ymd]
    by (subst parse_text [OF ts_ok_year [OF assms ymd] year_month_day_valid(2,3,4,5) [OF ymd] h])
      (simp_all only: e pos_mod_bound pos_mod_sign zero_less_numeral, simp_all)
qed

lemma formatTS_ne [simp]: "formatTS t \<noteq> ''''"
  using formatTS_fields [of t] by (cases "year_month_day (day_of t)") simp

text \<open>
  C37: stored timestamps are faithful. For instants of the years 0 to 9999 the text
  \<open>formatTS\<close> writes is read back by \<open>time.Parse\<close> as the same instant, to the nanosecond,
  and the order of the texts, by which the SQL statements compare lease expiries, due times
  and creation times, is the order of the instants.
\<close>

theorem timestamps_faithful:
  assumes "ts_ok t" and "ts_ok u"
  shows "parseRFC3339Nano (formatTS t) = Some t \<and> (formatTS t < formatTS u \<longleftrightarrow> t < u) \<and>
    (formatTS t = formatTS u \<longleftrightarrow> t = u)"
  using assms by (simp add: parse_formatTS formatTS_order)

theorem timestamps_faithful_witness:
  "parseRFC3339Nano (formatTS 1) = Some 1 \<and> formatTS 1 < formatTS 1000000000"
  using timestamps_faithful [of 1 1000000000] by (simp add: ts_ok_def)

end
