(* ===== verification/Work_Types.thy ===== *)
theory Work_Types
  imports Timestamps
begin

text \<open>
  pkg/work: the job model shared by the ingress, the store and the worker (store.go), and
  the retry delay (retry.go).

  \<open>Action\<close> stays a string, as in the source: a job may carry an action the worker does
  not know, and rejecting it is part of the behaviour (see \<open>planStages\<close>). \<open>Status\<close> and
  \<open>DeliveryStatus\<close> are written by this program only, so they are datatypes. A Go \<open>int\<close>
  counter is an \<^typ>\<open>int\<close>; a \<open>*time.Time\<close> is a \<^typ>\<open>time option\<close>.
\<close>

section \<open>Errors\<close>

text \<open>
  \<open>ErrOther\<close> is every wrapped error that is none of the sentinel errors: its argument is
  the text \<open>Error()\<close> returns.
\<close>

datatype store_error =
    ErrNotFound
  | ErrNoAvailableJob
  | ErrValidationRequestConflict
  | ErrExecutionSuperseded string
  | ErrDeliveryFenced
  | ErrOther string

fun store_error_text :: "store_error \<Rightarrow> string" where
  "store_error_text ErrNotFound = ''workstore: job not found''"
| "store_error_text ErrNoAvailableJob = ''workstore: no available job''"
| "store_error_text ErrValidationRequestConflict =
     ''workstore: validation_request_id already used with a different request''"
| "store_error_text (ErrExecutionSuperseded detail) =
     ''workstore: execution identity superseded: '' @ detail"
| "store_error_text ErrDeliveryFenced =
     ''workstore: delivery write fenced: caller does not own this delivery''"
| "store_error_text (ErrOther t) = t"

section \<open>Jobs\<close>

datatype Status = StatusQueued | StatusLeased | StatusRunning | StatusSucceeded | StatusFailed

fun Status_string :: "Status \<Rightarrow> string" where
  "Status_string StatusQueued = ''queued''"
| "Status_string StatusLeased = ''leased''"
| "Status_string StatusRunning = ''running''"
| "Status_string StatusSucceeded = ''succeeded''"
| "Status_string StatusFailed = ''failed''"

type_synonym Action = string

definition ActionSmokeRun :: Action where "ActionSmokeRun = ''smoke_run''"
definition ActionProfile :: Action where "ActionProfile = ''profile''"
definition ActionSecurityScan :: Action where "ActionSecurityScan = ''security_scan''"

datatype DeliveryStatus =
    DeliveryNotApplicable
  | DeliveryPending
  | DeliveryDelivering
  | DeliveryAcknowledged
  | DeliveryDeadLetter

record JobRequest =
  req_JobID :: string
  req_ArtifactKind :: string
  req_ImageRepository :: string
  req_ImageDigest :: string
  req_StableRef :: string
  req_ToolName :: string
  req_Version :: string
  req_CasHash :: string
  req_RequestedActions :: "Action list"
  req_RequestedFixtureSet :: string
  req_ValidationRequestID :: string

record Job =
  JobID :: string
  ArtifactKind :: string
  ImageRepository :: string
  ImageDigest :: string
  StableRef :: string
  ToolName :: string
  Version :: string
  CasHash :: string
  RequestedActions :: "Action list"
  RequestedFixtureSet :: string
  ValidationRequestID :: string
  JobStatus :: Status
  Attempt :: int
  LeaseOwner :: string
  LeaseUntil :: "time option"
  LastError :: string
  ResultSummary :: string
  CreatedAt :: time
  UpdatedAt :: time
  ResultDeliveryStatus :: DeliveryStatus
  ResultDeliveryPayload :: string
  ResultDeliveryAttempts :: int
  ResultDeliveryLastError :: string
  NextAttemptAt :: "time option"
  ResultDeliveryClaimToken :: string
  TerminalSubmitted :: bool
  ExecutionID :: string
  ExecutionTerminal :: bool
  RetryNotBefore :: "time option"

text \<open>The edges of the delivery ledger, as the doc comment of \<open>DeliveryStatus\<close> lists them.\<close>

inductive delivery_edge :: "DeliveryStatus \<Rightarrow> DeliveryStatus \<Rightarrow> bool" where
  "delivery_edge DeliveryNotApplicable DeliveryPending"
| "delivery_edge DeliveryNotApplicable DeliveryDeadLetter"
| "delivery_edge DeliveryPending DeliveryDelivering"
| "delivery_edge DeliveryDelivering DeliveryAcknowledged"
| "delivery_edge DeliveryDelivering DeliveryPending"
| "delivery_edge DeliveryDelivering DeliveryDeadLetter"
| "delivery_edge DeliveryDelivering DeliveryDelivering"

code_pred delivery_edge .

inductive_simps delivery_edge_from [simp]:
  "delivery_edge DeliveryNotApplicable d"
  "delivery_edge DeliveryPending d"
  "delivery_edge DeliveryDelivering d"
  "delivery_edge DeliveryAcknowledged d"
  "delivery_edge DeliveryDeadLetter d"

section \<open>Retry pacing (retry.go)\<close>

definition RetryBaseDelay :: duration where "RetryBaseDelay = second"
definition RetryMaxDelay :: duration where "RetryMaxDelay = 30 * second"

text \<open>The doubling loop, with \<open>time.Duration\<close> (int64) multiplication.\<close>

function retry_cap_loop :: "int \<Rightarrow> int \<Rightarrow> duration \<Rightarrow> duration" where
  "retry_cap_loop i attempt capDelay =
     (if i < attempt \<and> capDelay < RetryMaxDelay
      then retry_cap_loop (i + 1) attempt (int64 (capDelay * 2)) else capDelay)"
  by pat_completeness auto
termination
  by (relation "measure (\<lambda>(i, attempt, _). nat (attempt - i))") auto

declare retry_cap_loop.simps [simp del]

definition retry_cap :: "int \<Rightarrow> duration" where
  "retry_cap attempt =
     (let capDelay = retry_cap_loop 1 attempt RetryBaseDelay
      in if capDelay > RetryMaxDelay then RetryMaxDelay else capDelay)"

definition RetryDelay :: "int \<Rightarrow> (int \<Rightarrow> int) \<Rightarrow> duration" where
  "RetryDelay attempt randInt63n =
     (let capDelay = retry_cap attempt; half = capDelay div 2
      in int64 (half + randInt63n (int64 (capDelay - half + 1))))"

text \<open>\<open>math/rand.Int63n\<close>: uniform in \<open>[0, n)\<close>.\<close>

definition int63n_ok :: "(int \<Rightarrow> int) \<Rightarrow> bool" where
  "int63n_ok r \<longleftrightarrow> (\<forall>n > 0. 0 \<le> r n \<and> r n < n)"

section \<open>The retry delay\<close>

text \<open>The reference: base times a power of two, bounded.\<close>

definition retry_cap_spec :: "int \<Rightarrow> duration" where
  "retry_cap_spec attempt = min RetryMaxDelay (RetryBaseDelay * 2 ^ nat (attempt - 1))"

lemma retry_cap_loop_spec:
  "1 \<le> i \<Longrightarrow> 0 < c \<Longrightarrow> c \<le> 2 * RetryMaxDelay \<Longrightarrow>
     min RetryMaxDelay (retry_cap_loop i attempt c) = min RetryMaxDelay (c * 2 ^ nat (attempt - i))
     \<and> 0 < retry_cap_loop i attempt c"
proof (induction i attempt c rule: retry_cap_loop.induct)
  case (1 i attempt c)
  show ?case
  proof (cases "i < attempt \<and> c < RetryMaxDelay")
    case True
    have w: "int64 (c * 2) = c * 2"
      using True "1.prems" by (simp add: in_int64_def RetryMaxDelay_def)
    have p: "c * 2 ^ nat (attempt - i) = (c * 2) * 2 ^ nat (attempt - (i + 1))"
    proof -
      have "nat (attempt - i) = Suc (nat (attempt - (i + 1)))" using True by linarith
      then show ?thesis by simp
    qed
    have "min RetryMaxDelay (retry_cap_loop (i + 1) attempt (int64 (c * 2)))
        = min RetryMaxDelay (int64 (c * 2) * 2 ^ nat (attempt - (i + 1)))
        \<and> 0 < retry_cap_loop (i + 1) attempt (int64 (c * 2))"
      by (rule "1.IH" [OF True]) (use True "1.prems" w in auto)
    then show ?thesis using True unfolding p w by (simp add: retry_cap_loop.simps [of i attempt c] w)
  next
    case False
    then have loop: "retry_cap_loop i attempt c = c" by (auto simp: retry_cap_loop.simps [of i attempt c])
    show ?thesis
    proof (cases "i < attempt")
      case True
      with False have "RetryMaxDelay \<le> c" by simp
      moreover have "c \<le> c * 2 ^ nat (attempt - i)"
        using "1.prems" mult_left_mono [of 1 "2 ^ nat (attempt - i)" c] by simp
      ultimately have "RetryMaxDelay \<le> c * 2 ^ nat (attempt - i)" by linarith
      then show ?thesis using loop "1.prems" \<open>RetryMaxDelay \<le> c\<close> by simp
    next
      case False
      then show ?thesis using loop "1.prems" by simp
    qed
  qed
qed

lemma retry_cap_eq: "retry_cap attempt = retry_cap_spec attempt"
proof -
  have "retry_cap attempt = min RetryMaxDelay (retry_cap_loop 1 attempt RetryBaseDelay)"
    by (simp add: retry_cap_def Let_def)
  then show ?thesis
    using retry_cap_loop_spec [of 1 RetryBaseDelay attempt]
    by (simp add: retry_cap_spec_def RetryBaseDelay_def RetryMaxDelay_def)
qed

lemma retry_cap_bounds: "RetryBaseDelay \<le> retry_cap attempt" "retry_cap attempt \<le> RetryMaxDelay"
proof -
  have "(1::int) \<le> 2 ^ nat (attempt - 1)" by simp
  then have "RetryBaseDelay * 1 \<le> RetryBaseDelay * 2 ^ nat (attempt - 1)"
    unfolding RetryBaseDelay_def by (intro mult_left_mono) simp_all
  then show "RetryBaseDelay \<le> retry_cap attempt"
    unfolding retry_cap_eq retry_cap_spec_def by (simp add: RetryBaseDelay_def RetryMaxDelay_def)
  show "retry_cap attempt \<le> RetryMaxDelay"
    unfolding retry_cap_eq retry_cap_spec_def by simp
qed

lemma RetryDelay_range:
  assumes "int63n_ok r"
  shows "retry_cap_spec attempt div 2 \<le> RetryDelay attempt r \<and>
    RetryDelay attempt r \<le> retry_cap_spec attempt"
proof -
  define c where "c = retry_cap attempt"
  have c: "second \<le> c" "c \<le> 30 * second"
    using retry_cap_bounds [of attempt] by (simp_all add: c_def RetryBaseDelay_def RetryMaxDelay_def)
  have n: "int64 (c - c div 2 + 1) = c - c div 2 + 1"
    using c by (intro int64_id) (simp add: in_int64_def)
  have pos: "0 < c - c div 2 + 1" using c by linarith
  have r: "0 \<le> r (c - c div 2 + 1)" "r (c - c div 2 + 1) < c - c div 2 + 1"
    using assms pos unfolding int63n_ok_def by blast+
  have "RetryDelay attempt r = int64 (c div 2 + r (c - c div 2 + 1))"
    by (simp add: RetryDelay_def Let_def c_def [symmetric] n)
  also have "\<dots> = c div 2 + r (c - c div 2 + 1)"
    using c r by (intro int64_id) (simp add: in_int64_def)
  finally show ?thesis using r by (simp add: retry_cap_eq [symmetric] c_def [symmetric])
qed

text \<open>
  The delay before a retry lies between half the cap and the cap, where the cap is one
  second doubled with every attempt and bounded by thirty seconds; the int64 arithmetic
  never wraps, whatever the attempt count.
\<close>

theorem RetryDelay_bounds:
  assumes "int63n_ok r"
  shows "retry_cap_spec attempt div 2 \<le> RetryDelay attempt r \<and>
    RetryDelay attempt r \<le> retry_cap_spec attempt"
  by (rule RetryDelay_range [OF assms])

theorem RetryDelay_bounds_witness:
  "int63n_ok (\<lambda>n. n - 1) \<and> RetryDelay 3 (\<lambda>n. n - 1) \<le> retry_cap_spec 3 \<and> retry_cap_spec 3 = 4 * second"
proof -
  have h: "int63n_ok (\<lambda>n. n - 1)" by (simp add: int63n_ok_def)
  show ?thesis using h RetryDelay_bounds [OF h, of 3]
    by (simp add: retry_cap_spec_def RetryBaseDelay_def RetryMaxDelay_def)
qed

end
