(* ===== verification/Sqlite_Store.thy ===== *)
theory Sqlite_Store
  imports Work_Types "HOL-Library.AList"
begin

text \<open>
  pkg/work/sqlite/store.go: the jobs table and every operation of \<open>sqlite.Store\<close>.

  The table is a list of rows in rowid order. A timestamp column is the text the code
  writes (\<open>formatTS\<close>) and is compared as text; \<open>retry_not_before\<close> is the int64 the code
  writes. NULL is \<^const>\<open>None\<close>. The two 0/1 flags are booleans, and \<open>requested_actions\<close>
  holds the list its JSON text encodes.

  Every operation runs in one SQLite transaction on the one connection of the pool, so an
  operation is a function from the store before to the store after. The driver can refuse
  any database call: the parameter \<open>flt\<close> gives, for the i-th database call of the
  operation, the error text if that call fails. A failed statement or commit rolls back.
  The clock reading and the random source of an operation are parameters too.
\<close>

section \<open>The table\<close>

record row =
  r_job_id :: string
  r_artifact_kind :: string
  r_image_repository :: string
  r_image_digest :: string
  r_stable_ref :: string
  r_tool_name :: string
  r_version :: string
  r_cas_hash :: string
  r_requested_actions :: "Action list"
  r_requested_fixture_set :: string
  r_validation_request_id :: "string option"
  r_request_fingerprint :: string
  r_result_delivery_status :: DeliveryStatus
  r_result_delivery_payload :: string
  r_result_delivery_attempts :: int
  r_result_delivery_last_error :: string
  r_next_attempt_at :: "string option"
  r_result_delivery_claimed_until :: "string option"
  r_result_delivery_claim_token :: string
  r_terminal_submitted :: bool
  r_terminal_owner :: string
  r_terminal_attempt :: int
  r_execution_id :: string
  r_execution_terminal :: bool
  r_retry_not_before :: "int option"
  r_status :: Status
  r_attempt :: int
  r_lease_owner :: string
  r_lease_until :: "string option"
  r_last_error :: string
  r_result_summary :: string
  r_created_at :: string
  r_updated_at :: string

record store =
  jobs :: "row list"
  store_meta :: "(string \<times> string) list"

type_synonym faults = "nat \<Rightarrow> string option"

definition no_faults :: faults where
  "no_faults = (\<lambda>_. None)"

lemma no_faults_at [simp]: "no_faults i = None"
  by (simp add: no_faults_def)

text \<open>\<open>t.UnixNano()\<close>: the instant as an int64.\<close>

definition UnixNano :: "time \<Rightarrow> int" where
  "UnixNano t = int64 t"

section \<open>Statements\<close>

text \<open>\<open>UPDATE jobs SET f WHERE P\<close>: the number of rows matched, and the table after.\<close>

definition affected :: "(row \<Rightarrow> bool) \<Rightarrow> store \<Rightarrow> nat" where
  "affected P s = length (filter P (jobs s))"

definition update_jobs :: "(row \<Rightarrow> bool) \<Rightarrow> (row \<Rightarrow> row) \<Rightarrow> store \<Rightarrow> store" where
  "update_jobs P f s = s\<lparr>jobs := map (\<lambda>r. if P r then f r else r) (jobs s)\<rparr>"

definition ExecContext ::
  "faults \<Rightarrow> nat \<Rightarrow> string \<Rightarrow> (row \<Rightarrow> bool) \<Rightarrow> (row \<Rightarrow> row) \<Rightarrow> store \<Rightarrow> (store_error + nat) \<times> store" where
  "ExecContext flt i what P f s =
     (case flt i of
        Some e \<Rightarrow> (Inl (ErrOther (what @ '': '' @ e)), s)
      | None \<Rightarrow> (Inr (affected P s), update_jobs P f s))"

definition RowsAffected :: "faults \<Rightarrow> nat \<Rightarrow> nat \<Rightarrow> store_error + nat" where
  "RowsAffected flt i n =
     (case flt i of Some e \<Rightarrow> Inl (ErrOther (''rows affected: '' @ e)) | None \<Rightarrow> Inr n)"

definition ensureAffected :: "faults \<Rightarrow> nat \<Rightarrow> nat \<Rightarrow> store_error + unit" where
  "ensureAffected flt i n =
     (case RowsAffected flt i n of
        Inl e \<Rightarrow> Inl e
      | Inr rows \<Rightarrow> if rows = 0 then Inl ErrNotFound else Inr ())"

definition ensureDeliveryAffected :: "faults \<Rightarrow> nat \<Rightarrow> nat \<Rightarrow> store_error + unit" where
  "ensureDeliveryAffected flt i n =
     (case RowsAffected flt i n of
        Inl e \<Rightarrow> Inl e
      | Inr rows \<Rightarrow> if rows = 0 then Inl ErrDeliveryFenced else Inr ())"

section \<open>Reading a row (scanJob, GetJob, ListJobs)\<close>

definition parse_col :: "string \<Rightarrow> string \<Rightarrow> string + time" where
  "parse_col what v =
     (case parseRFC3339Nano v of
        Some t \<Rightarrow> Inr t
      | None \<Rightarrow> Inl (''parse '' @ what @ '': cannot parse '' @ v))"

text \<open>A nullable timestamp: NULL and the empty text read as nil.\<close>

definition parse_opt_col :: "string \<Rightarrow> string option \<Rightarrow> string + time option" where
  "parse_opt_col what v =
     (case v of
        None \<Rightarrow> Inr None
      | Some '''' \<Rightarrow> Inr None
      | Some x \<Rightarrow> (case parse_col what x of Inl e \<Rightarrow> Inl e | Inr t \<Rightarrow> Inr (Some t)))"

definition scanJob :: "row \<Rightarrow> string + Job" where
  "scanJob r =
     (case parse_col ''created_at'' (r_created_at r) of
        Inl e \<Rightarrow> Inl e
      | Inr created \<Rightarrow>
     (case parse_col ''updated_at'' (r_updated_at r) of
        Inl e \<Rightarrow> Inl e
      | Inr updated \<Rightarrow>
     (case parse_opt_col ''lease_until'' (r_lease_until r) of
        Inl e \<Rightarrow> Inl e
      | Inr leaseUntil \<Rightarrow>
     (case parse_opt_col ''next_attempt_at'' (r_next_attempt_at r) of
        Inl e \<Rightarrow> Inl e
      | Inr nextAttempt \<Rightarrow>
          Inr \<lparr>JobID = r_job_id r, ArtifactKind = r_artifact_kind r,
            ImageRepository = r_image_repository r, ImageDigest = r_image_digest r,
            StableRef = r_stable_ref r, ToolName = r_tool_name r, Version = r_version r,
            CasHash = r_cas_hash r, RequestedActions = r_requested_actions r,
            RequestedFixtureSet = r_requested_fixture_set r,
            ValidationRequestID =
              (case r_validation_request_id r of None \<Rightarrow> '''' | Some v \<Rightarrow> v),
            JobStatus = r_status r, Attempt = r_attempt r, LeaseOwner = r_lease_owner r,
            LeaseUntil = leaseUntil, LastError = r_last_error r,
            ResultSummary = r_result_summary r, CreatedAt = created, UpdatedAt = updated,
            ResultDeliveryStatus = r_result_delivery_status r,
            ResultDeliveryPayload = r_result_delivery_payload r,
            ResultDeliveryAttempts = r_result_delivery_attempts r,
            ResultDeliveryLastError = r_result_delivery_last_error r,
            NextAttemptAt = nextAttempt,
            ResultDeliveryClaimToken = r_result_delivery_claim_token r,
            TerminalSubmitted = r_terminal_submitted r, ExecutionID = r_execution_id r,
            ExecutionTerminal = r_execution_terminal r,
            RetryNotBefore = r_retry_not_before r\<rparr>))))"

definition find_row :: "string \<Rightarrow> store \<Rightarrow> row option" where
  "find_row jobID s = find (\<lambda>r. r_job_id r = jobID) (jobs s)"

definition GetJob :: "faults \<Rightarrow> nat \<Rightarrow> string \<Rightarrow> store \<Rightarrow> store_error + Job" where
  "GetJob flt i jobID s =
     (case flt i of
        Some e \<Rightarrow> Inl (ErrOther (''get job: '' @ e))
      | None \<Rightarrow>
          (case find_row jobID s of
             None \<Rightarrow> Inl ErrNotFound
           | Some r \<Rightarrow>
               (case scanJob r of
                  Inl e \<Rightarrow> Inl (ErrOther (''get job: '' @ e))
                | Inr job \<Rightarrow> Inr job)))"

fun scan_all :: "row list \<Rightarrow> store_error + Job list" where
  "scan_all [] = Inr []"
| "scan_all (r # rs) =
     (case scanJob r of
        Inl e \<Rightarrow> Inl (ErrOther (''scan listed job: '' @ e))
      | Inr job \<Rightarrow> (case scan_all rs of Inl e \<Rightarrow> Inl e | Inr js \<Rightarrow> Inr (job # js)))"

text \<open>\<open>status\<close> is \<^const>\<open>None\<close> for the empty filter.\<close>

definition ListJobs :: "faults \<Rightarrow> Status option \<Rightarrow> store \<Rightarrow> store_error + Job list" where
  "ListJobs flt status s =
     (case flt 0 of
        Some e \<Rightarrow> Inl (ErrOther (''list jobs: '' @ e))
      | None \<Rightarrow>
          (case scan_all (sort_key r_created_at
                  (filter (\<lambda>r. case status of None \<Rightarrow> True | Some st \<Rightarrow> r_status r = st) (jobs s))) of
             Inl e \<Rightarrow> Inl e
           | Inr out \<Rightarrow>
               (case flt 1 of
                  Some e \<Rightarrow> Inl (ErrOther (''iterate jobs: '' @ e))
                | None \<Rightarrow> Inr out)))"

section \<open>Creating a job\<close>

text \<open>
  \<open>requestFingerprint\<close>: the hash input is every field followed by a zero byte; \<open>H\<close> is
  hex of SHA-256.
\<close>

definition fingerprint_fields :: "JobRequest \<Rightarrow> string list" where
  "fingerprint_fields req =
     [req_ArtifactKind req, req_ImageRepository req, req_ImageDigest req, req_StableRef req,
      req_ToolName req, req_Version req, req_CasHash req]
     @ sort (req_RequestedActions req) @ [req_RequestedFixtureSet req]"

definition fingerprint_input :: "JobRequest \<Rightarrow> string" where
  "fingerprint_input req = concat (map (\<lambda>field. field @ [char_of (0::nat)]) (fingerprint_fields req))"

definition requestFingerprint :: "(string \<Rightarrow> string) \<Rightarrow> JobRequest \<Rightarrow> string" where
  "requestFingerprint H req = H (fingerprint_input req)"

definition new_row :: "(string \<Rightarrow> string) \<Rightarrow> time \<Rightarrow> JobRequest \<Rightarrow> row" where
  "new_row H now req =
     \<lparr>r_job_id = req_JobID req, r_artifact_kind = req_ArtifactKind req,
      r_image_repository = req_ImageRepository req, r_image_digest = req_ImageDigest req,
      r_stable_ref = req_StableRef req, r_tool_name = req_ToolName req,
      r_version = req_Version req, r_cas_hash = req_CasHash req,
      r_requested_actions = req_RequestedActions req,
      r_requested_fixture_set = req_RequestedFixtureSet req,
      r_validation_request_id =
        (if req_ValidationRequestID req \<noteq> '''' then Some (req_ValidationRequestID req) else None),
      r_request_fingerprint = requestFingerprint H req,
      r_result_delivery_status = DeliveryNotApplicable, r_result_delivery_payload = '''',
      r_result_delivery_attempts = 0, r_result_delivery_last_error = '''',
      r_next_attempt_at = None, r_result_delivery_claimed_until = None,
      r_result_delivery_claim_token = '''', r_terminal_submitted = False,
      r_terminal_owner = '''', r_terminal_attempt = 0, r_execution_id = '''',
      r_execution_terminal = False, r_retry_not_before = None, r_status = StatusQueued,
      r_attempt = 0, r_lease_owner = '''', r_lease_until = None, r_last_error = '''',
      r_result_summary = '''', r_created_at = formatTS now, r_updated_at = formatTS now\<rparr>"

text \<open>
  The INSERT: a row that collides on the partial unique index of \<open>validation_request_id\<close>
  is skipped (DO NOTHING, 0 rows); a colliding primary key is a constraint error. SQLite
  checks the ON CONFLICT target first.
\<close>

definition insert_job :: "row \<Rightarrow> store \<Rightarrow> (string + nat) \<times> store" where
  "insert_job r s =
     (if r_validation_request_id r \<noteq> None \<and>
         (\<exists>x \<in> set (jobs s). r_validation_request_id x = r_validation_request_id r)
      then (Inr 0, s)
      else if \<exists>x \<in> set (jobs s). r_job_id x = r_job_id r
      then (Inl ''UNIQUE constraint failed: jobs.job_id'', s)
      else (Inr 1, s\<lparr>jobs := jobs s @ [r]\<rparr>))"

definition jobByValidationRequestID ::
  "faults \<Rightarrow> nat \<Rightarrow> string \<Rightarrow> store \<Rightarrow> string + (string \<times> string)" where
  "jobByValidationRequestID flt i vrid s =
     (case flt i of
        Some e \<Rightarrow> Inl (''select job by validation_request_id: '' @ e)
      | None \<Rightarrow>
          (case find (\<lambda>r. r_validation_request_id r = Some vrid) (jobs s) of
             None \<Rightarrow> Inl ''select job by validation_request_id: sql: no rows in result set''
           | Some r \<Rightarrow> Inr (r_job_id r, r_request_fingerprint r)))"

definition CreateJob ::
  "(string \<Rightarrow> string) \<Rightarrow> faults \<Rightarrow> time \<Rightarrow> JobRequest \<Rightarrow> store \<Rightarrow> (store_error + Job) \<times> store" where
  "CreateJob H flt now req s =
     (case flt 0 of
        Some e \<Rightarrow> (Inl (ErrOther (''create job: '' @ e)), s)
      | None \<Rightarrow>
     (case insert_job (new_row H now req) s of
        (Inl e, s') \<Rightarrow> (Inl (ErrOther (''create job: '' @ e)), s')
      | (Inr n, s') \<Rightarrow>
          if req_ValidationRequestID req = '''' then (GetJob flt 1 (req_JobID req) s', s')
          else case RowsAffected flt 2 n of
            Inl e \<Rightarrow> (Inl e, s')
          | Inr rows \<Rightarrow>
              if rows = 1 then (GetJob flt 3 (req_JobID req) s', s')
              else case jobByValidationRequestID flt 4 (req_ValidationRequestID req) s' of
                Inl e \<Rightarrow> (Inl (ErrOther (''lookup existing job for validation_request_id '' @
                            fmt_q (req_ValidationRequestID req) @ '': '' @ e)), s')
              | Inr (existingJobID, existingFingerprint) \<Rightarrow>
                  if existingFingerprint \<noteq> requestFingerprint H req
                  then (Inl ErrValidationRequestConflict, s')
                  else (GetJob flt 5 existingJobID s', s')))"

section \<open>Leasing\<close>

definition due_for_retry :: "time \<Rightarrow> row \<Rightarrow> bool" where
  "due_for_retry now r =
     (case r_retry_not_before r of None \<Rightarrow> True | Some t \<Rightarrow> t \<le> UnixNano now)"

definition lease_expired :: "time \<Rightarrow> row \<Rightarrow> bool" where
  "lease_expired now r =
     (case r_lease_until r of None \<Rightarrow> True | Some u \<Rightarrow> u < formatTS now)"

definition leaseable :: "time \<Rightarrow> row \<Rightarrow> bool" where
  "leaseable now r \<longleftrightarrow>
     (r_status r = StatusQueued \<and> due_for_retry now r) \<or>
     (r_status r \<in> {StatusLeased, StatusRunning} \<and> lease_expired now r)"

definition lease_set :: "time \<Rightarrow> string \<Rightarrow> duration \<Rightarrow> row \<Rightarrow> row" where
  "lease_set now worker ttl r =
     r\<lparr>r_status := StatusLeased, r_attempt := r_attempt r + 1, r_lease_owner := worker,
       r_lease_until := Some (formatTS (now + ttl)), r_retry_not_before := None,
       r_updated_at := formatTS now\<rparr>"

definition LeaseJob ::
  "faults \<Rightarrow> time \<Rightarrow> string \<Rightarrow> duration \<Rightarrow> store \<Rightarrow> (store_error + Job) \<times> store" where
  "LeaseJob flt now worker ttl s =
     (case flt 0 of
        Some e \<Rightarrow> (Inl (ErrOther (''begin lease tx: '' @ e)), s)
      | None \<Rightarrow>
     (case flt 1 of
        Some e \<Rightarrow> (Inl (ErrOther (''select leaseable job: '' @ e)), s)
      | None \<Rightarrow>
     (case sort_key r_created_at (filter (leaseable now) (jobs s)) of
        [] \<Rightarrow> (Inl ErrNoAvailableJob, s)
      | r # _ \<Rightarrow>
     (case ExecContext flt 2 ''update leased job'' (\<lambda>x. r_job_id x = r_job_id r)
             (lease_set now worker ttl) s of
        (Inl e, _) \<Rightarrow> (Inl e, s)
      | (Inr _, s') \<Rightarrow>
     (case flt 3 of
        Some e \<Rightarrow> (Inl (ErrOther (''commit lease tx: '' @ e)), s)
      | None \<Rightarrow> (GetJob flt 4 (r_job_id r) s', s'))))))"

section \<open>Lease-fenced writes\<close>

definition owns_lease :: "string \<Rightarrow> string \<Rightarrow> int \<Rightarrow> row \<Rightarrow> bool" where
  "owns_lease jobID worker attempt r \<longleftrightarrow>
     r_job_id r = jobID \<and> r_lease_owner r = worker \<and> r_attempt r = attempt"

definition owns_active_lease :: "string \<Rightarrow> string \<Rightarrow> int \<Rightarrow> row \<Rightarrow> bool" where
  "owns_active_lease jobID worker attempt r \<longleftrightarrow>
     owns_lease jobID worker attempt r \<and> r_status r \<in> {StatusLeased, StatusRunning}"

definition heartbeat_set :: "time \<Rightarrow> duration \<Rightarrow> row \<Rightarrow> row" where
  "heartbeat_set now ttl r =
     r\<lparr>r_status := StatusRunning, r_lease_until := Some (formatTS (now + ttl)),
       r_updated_at := formatTS now\<rparr>"

definition Heartbeat ::
  "faults \<Rightarrow> time \<Rightarrow> string \<Rightarrow> string \<Rightarrow> int \<Rightarrow> duration \<Rightarrow> store \<Rightarrow> (store_error + unit) \<times> store" where
  "Heartbeat flt now jobID worker attempt ttl s =
     (case ExecContext flt 0 ''heartbeat'' (owns_active_lease jobID worker attempt)
             (heartbeat_set now ttl) s of
        (Inl e, s') \<Rightarrow> (Inl e, s')
      | (Inr n, s') \<Rightarrow> (ensureAffected flt 1 n, s'))"

definition finish_set :: "Status \<Rightarrow> string \<Rightarrow> string \<Rightarrow> time \<Rightarrow> row \<Rightarrow> row" where
  "finish_set status lastError resultSummary now r =
     r\<lparr>r_status := status, r_lease_owner := '''', r_lease_until := None,
       r_last_error := lastError, r_result_summary := resultSummary, r_updated_at := formatTS now\<rparr>"

definition finishJob ::
  "faults \<Rightarrow> time \<Rightarrow> string \<Rightarrow> string \<Rightarrow> int \<Rightarrow> Status \<Rightarrow> string \<Rightarrow> string \<Rightarrow> store
     \<Rightarrow> (store_error + unit) \<times> store" where
  "finishJob flt now jobID worker attempt status lastError resultSummary s =
     (case ExecContext flt 0 ''finish job'' (owns_lease jobID worker attempt)
             (finish_set status lastError resultSummary now) s of
        (Inl e, s') \<Rightarrow> (Inl e, s')
      | (Inr n, s') \<Rightarrow> (ensureAffected flt 1 n, s'))"

definition CompleteJob ::
  "faults \<Rightarrow> time \<Rightarrow> string \<Rightarrow> string \<Rightarrow> int \<Rightarrow> string \<Rightarrow> store \<Rightarrow> (store_error + unit) \<times> store" where
  "CompleteJob flt now jobID worker attempt resultSummary s =
     finishJob flt now jobID worker attempt StatusSucceeded '''' resultSummary s"

definition requeue_set :: "string \<Rightarrow> duration \<Rightarrow> time \<Rightarrow> row \<Rightarrow> row" where
  "requeue_set lastError retryDelay now r =
     r\<lparr>r_status := StatusQueued, r_lease_owner := '''', r_lease_until := None,
       r_last_error := lastError,
       r_retry_not_before := (if retryDelay > 0 then Some (UnixNano (now + retryDelay)) else None),
       r_updated_at := formatTS now\<rparr>"

definition fail_set :: "string \<Rightarrow> time \<Rightarrow> row \<Rightarrow> row" where
  "fail_set lastError now r =
     r\<lparr>r_status := StatusFailed, r_lease_owner := '''', r_lease_until := None,
       r_last_error := lastError, r_result_summary := '''', r_updated_at := formatTS now\<rparr>"

definition FailJob ::
  "faults \<Rightarrow> time \<Rightarrow> string \<Rightarrow> string \<Rightarrow> int \<Rightarrow> string \<Rightarrow> bool \<Rightarrow> duration \<Rightarrow> store
     \<Rightarrow> (store_error + unit) \<times> store" where
  "FailJob flt now jobID worker attempt lastError retryable retryDelay s =
     (if retryable
      then case ExecContext flt 0 ''retryable fail'' (owns_active_lease jobID worker attempt)
                  (requeue_set lastError retryDelay now) s of
             (Inl e, s') \<Rightarrow> (Inl e, s')
           | (Inr n, s') \<Rightarrow> (ensureAffected flt 1 n, s')
      else case ExecContext flt 0 ''fail job'' (owns_lease jobID worker attempt)
                  (fail_set lastError now) s of
             (Inl e, s') \<Rightarrow> (Inl e, s')
           | (Inr n, s') \<Rightarrow> (ensureAffected flt 1 n, s'))"

section \<open>The result-delivery ledger\<close>

definition first_delivery_fence :: "string \<Rightarrow> string \<Rightarrow> int \<Rightarrow> row \<Rightarrow> bool" where
  "first_delivery_fence jobID worker attempt r \<longleftrightarrow>
     r_job_id r = jobID \<and> r_terminal_submitted r \<and> r_terminal_owner r = worker \<and>
     r_terminal_attempt r = attempt \<and> r_result_delivery_status r = DeliveryNotApplicable"

definition first_pending_set :: "string \<Rightarrow> string \<Rightarrow> time \<Rightarrow> time \<Rightarrow> row \<Rightarrow> row" where
  "first_pending_set payload lastError nextAttemptAt now r =
     r\<lparr>r_result_delivery_status := DeliveryPending, r_result_delivery_payload := payload,
       r_result_delivery_attempts := r_result_delivery_attempts r + 1,
       r_result_delivery_last_error := lastError,
       r_next_attempt_at := Some (formatTS nextAttemptAt),
       r_result_delivery_claimed_until := None, r_result_delivery_claim_token := '''',
       r_updated_at := formatTS now\<rparr>"

definition MarkFirstDeliveryPending ::
  "faults \<Rightarrow> time \<Rightarrow> string \<Rightarrow> string \<Rightarrow> int \<Rightarrow> string \<Rightarrow> string \<Rightarrow> time \<Rightarrow> store
     \<Rightarrow> (store_error + unit) \<times> store" where
  "MarkFirstDeliveryPending flt now jobID worker attempt payload lastError nextAttemptAt s =
     (case ExecContext flt 0 ''mark first delivery pending'' (first_delivery_fence jobID worker attempt)
             (first_pending_set payload lastError nextAttemptAt now) s of
        (Inl e, s') \<Rightarrow> (Inl e, s')
      | (Inr n, s') \<Rightarrow> (ensureDeliveryAffected flt 1 n, s'))"

definition first_dead_set :: "string \<Rightarrow> string \<Rightarrow> time \<Rightarrow> row \<Rightarrow> row" where
  "first_dead_set payload lastError now r =
     r\<lparr>r_result_delivery_status := DeliveryDeadLetter, r_result_delivery_payload := payload,
       r_result_delivery_attempts := r_result_delivery_attempts r + 1,
       r_result_delivery_last_error := lastError, r_next_attempt_at := None,
       r_result_delivery_claimed_until := None, r_result_delivery_claim_token := '''',
       r_updated_at := formatTS now\<rparr>"

definition MarkFirstDeliveryDeadLetter ::
  "faults \<Rightarrow> time \<Rightarrow> string \<Rightarrow> string \<Rightarrow> int \<Rightarrow> string \<Rightarrow> string \<Rightarrow> store
     \<Rightarrow> (store_error + unit) \<times> store" where
  "MarkFirstDeliveryDeadLetter flt now jobID worker attempt payload lastError s =
     (case ExecContext flt 0 ''mark first delivery dead letter'' (first_delivery_fence jobID worker attempt)
             (first_dead_set payload lastError now) s of
        (Inl e, s') \<Rightarrow> (Inl e, s')
      | (Inr n, s') \<Rightarrow> (ensureDeliveryAffected flt 1 n, s'))"

definition redelivery_fence :: "string \<Rightarrow> string \<Rightarrow> row \<Rightarrow> bool" where
  "redelivery_fence jobID claimToken r \<longleftrightarrow>
     r_job_id r = jobID \<and> r_result_delivery_status r = DeliveryDelivering \<and>
     r_result_delivery_claim_token r \<noteq> '''' \<and> r_result_delivery_claim_token r = claimToken"

definition pending_set :: "string \<Rightarrow> time \<Rightarrow> time \<Rightarrow> row \<Rightarrow> row" where
  "pending_set lastError nextAttemptAt now r =
     r\<lparr>r_result_delivery_status := DeliveryPending,
       r_result_delivery_attempts := r_result_delivery_attempts r + 1,
       r_result_delivery_last_error := lastError,
       r_next_attempt_at := Some (formatTS nextAttemptAt),
       r_result_delivery_claimed_until := None, r_result_delivery_claim_token := '''',
       r_updated_at := formatTS now\<rparr>"

definition MarkResultDeliveryPending ::
  "faults \<Rightarrow> time \<Rightarrow> string \<Rightarrow> string \<Rightarrow> string \<Rightarrow> time \<Rightarrow> store \<Rightarrow> (store_error + unit) \<times> store" where
  "MarkResultDeliveryPending flt now jobID claimToken lastError nextAttemptAt s =
     (case ExecContext flt 0 ''mark result delivery pending'' (redelivery_fence jobID claimToken)
             (pending_set lastError nextAttemptAt now) s of
        (Inl e, s') \<Rightarrow> (Inl e, s')
      | (Inr n, s') \<Rightarrow> (ensureDeliveryAffected flt 1 n, s'))"

definition acknowledged_set :: "time \<Rightarrow> row \<Rightarrow> row" where
  "acknowledged_set now r =
     r\<lparr>r_result_delivery_status := DeliveryAcknowledged, r_result_delivery_payload := '''',
       r_result_delivery_last_error := '''', r_next_attempt_at := None,
       r_result_delivery_claimed_until := None, r_result_delivery_claim_token := '''',
       r_updated_at := formatTS now\<rparr>"

definition MarkResultDeliveryAcknowledged ::
  "faults \<Rightarrow> time \<Rightarrow> string \<Rightarrow> string \<Rightarrow> store \<Rightarrow> (store_error + unit) \<times> store" where
  "MarkResultDeliveryAcknowledged flt now jobID claimToken s =
     (case ExecContext flt 0 ''mark result delivery acknowledged'' (redelivery_fence jobID claimToken)
             (acknowledged_set now) s of
        (Inl e, s') \<Rightarrow> (Inl e, s')
      | (Inr n, s') \<Rightarrow> (ensureDeliveryAffected flt 1 n, s'))"

definition dead_set :: "string \<Rightarrow> time \<Rightarrow> row \<Rightarrow> row" where
  "dead_set lastError now r =
     r\<lparr>r_result_delivery_status := DeliveryDeadLetter,
       r_result_delivery_last_error := lastError, r_next_attempt_at := None,
       r_result_delivery_claimed_until := None, r_result_delivery_claim_token := '''',
       r_updated_at := formatTS now\<rparr>"

definition MarkResultDeliveryDeadLetter ::
  "faults \<Rightarrow> time \<Rightarrow> string \<Rightarrow> string \<Rightarrow> string \<Rightarrow> store \<Rightarrow> (store_error + unit) \<times> store" where
  "MarkResultDeliveryDeadLetter flt now jobID claimToken lastError s =
     (case ExecContext flt 0 ''mark result delivery dead letter'' (redelivery_fence jobID claimToken)
             (dead_set lastError now) s of
        (Inl e, s') \<Rightarrow> (Inl e, s')
      | (Inr n, s') \<Rightarrow> (ensureDeliveryAffected flt 1 n, s'))"

section \<open>Claiming redeliveries\<close>

definition newClaimToken :: "string + (nat \<Rightarrow> 8 word) \<Rightarrow> store_error + string" where
  "newClaimToken rd =
     (case rd of
        Inl e \<Rightarrow> Inl (ErrOther (''generate delivery claim token: '' @ e))
      | Inr f \<Rightarrow> Inr (EncodeToString (rand_bytes f 16)))"

definition claimable :: "string \<Rightarrow> row \<Rightarrow> bool" where
  "claimable nowStr r \<longleftrightarrow>
     (r_result_delivery_status r = DeliveryPending \<and>
        (case r_next_attempt_at r of None \<Rightarrow> True | Some t \<Rightarrow> t \<le> nowStr)) \<or>
     (r_result_delivery_status r = DeliveryDelivering \<and>
        (case r_result_delivery_claimed_until r of None \<Rightarrow> False | Some u \<Rightarrow> u < nowStr))"

definition claim_set :: "string \<Rightarrow> string \<Rightarrow> string \<Rightarrow> row \<Rightarrow> row" where
  "claim_set claimedUntil token nowStr r =
     r\<lparr>r_result_delivery_status := DeliveryDelivering,
       r_result_delivery_claimed_until := Some claimedUntil,
       r_result_delivery_claim_token := token, r_updated_at := nowStr\<rparr>"

text \<open>\<open>LIMIT n\<close>; SQLite reads a negative limit as no limit.\<close>

definition sql_limit :: "int \<Rightarrow> 'a list \<Rightarrow> 'a list" where
  "sql_limit limit xs = (if limit < 0 then xs else take (nat limit) xs)"

text \<open>The loop over the selected ids; the k-th id uses the k-th random read.\<close>

fun claim_loop ::
  "faults \<Rightarrow> entropy \<Rightarrow> string \<Rightarrow> string \<Rightarrow> nat \<Rightarrow> string list \<Rightarrow> store \<Rightarrow> store_error + (Job list \<times> store)" where
  "claim_loop flt rnd claimedUntil nowStr k [] s = Inr ([], s)"
| "claim_loop flt rnd claimedUntil nowStr k (jid # ids) s =
     (case newClaimToken (rnd k) of
        Inl e \<Rightarrow> Inl e
      | Inr token \<Rightarrow>
     (case ExecContext flt (4 + 2 * k) (''claim job '' @ fmt_q jid) (\<lambda>r. r_job_id r = jid)
             (claim_set claimedUntil token nowStr) s of
        (Inl e, _) \<Rightarrow> Inl e
      | (Inr _, s1) \<Rightarrow>
     (case flt (5 + 2 * k) of
        Some e \<Rightarrow> Inl (ErrOther (''scan claimed job '' @ fmt_q jid @ '': '' @ e))
      | None \<Rightarrow>
     (case find_row jid s1 of
        None \<Rightarrow> Inl (ErrOther (''scan claimed job '' @ fmt_q jid @ '': sql: no rows in result set''))
      | Some r \<Rightarrow>
     (case scanJob r of
        Inl e \<Rightarrow> Inl (ErrOther (''scan claimed job '' @ fmt_q jid @ '': '' @ e))
      | Inr job \<Rightarrow>
     (case claim_loop flt rnd claimedUntil nowStr (Suc k) ids s1 of
        Inl e \<Rightarrow> Inl e
      | Inr (out, s2) \<Rightarrow> Inr (job # out, s2)))))))"

definition ClaimPendingDeliveries ::
  "faults \<Rightarrow> entropy \<Rightarrow> time \<Rightarrow> int \<Rightarrow> duration \<Rightarrow> store \<Rightarrow> (store_error + Job list) \<times> store" where
  "ClaimPendingDeliveries flt rnd now limit claimTTL s =
     (case flt 0 of
        Some e \<Rightarrow> (Inl (ErrOther (''begin claim tx: '' @ e)), s)
      | None \<Rightarrow>
     (case flt 1 of
        Some e \<Rightarrow> (Inl (ErrOther (''select claimable deliveries: '' @ e)), s)
      | None \<Rightarrow>
     (case flt 2 of
        Some e \<Rightarrow> (Inl (ErrOther (''iterate claimable deliveries: '' @ e)), s)
      | None \<Rightarrow>
     (let nowStr = formatTS now;
          jobIDs = map r_job_id (sql_limit limit (sort_key r_updated_at (filter (claimable nowStr) (jobs s))))
      in if jobIDs = []
         then case flt 3 of
                Some e \<Rightarrow> (Inl (ErrOther (''commit empty claim tx: '' @ e)), s)
              | None \<Rightarrow> (Inr [], s)
         else case claim_loop flt rnd (formatTS (now + claimTTL)) nowStr 0 jobIDs s of
                Inl e \<Rightarrow> (Inl e, s)
              | Inr (out, s') \<Rightarrow>
                  (case flt 3 of
                     Some e \<Rightarrow> (Inl (ErrOther (''commit claim tx: '' @ e)), s)
                   | None \<Rightarrow> (Inr out, s'))))))"

section \<open>The terminal slot\<close>

definition jobExists :: "faults \<Rightarrow> nat \<Rightarrow> string \<Rightarrow> store \<Rightarrow> store_error + bool" where
  "jobExists flt i jobID s =
     (case flt i of
        Some e \<Rightarrow> Inl (ErrOther (''check job exists: '' @ e))
      | None \<Rightarrow> Inr (find_row jobID s \<noteq> None))"

definition terminal_free :: "string \<Rightarrow> row \<Rightarrow> bool" where
  "terminal_free jobID r \<longleftrightarrow> r_job_id r = jobID \<and> \<not> r_terminal_submitted r"

definition terminal_set :: "string \<Rightarrow> int \<Rightarrow> time \<Rightarrow> row \<Rightarrow> row" where
  "terminal_set worker attempt now r =
     r\<lparr>r_terminal_submitted := True, r_terminal_owner := worker, r_terminal_attempt := attempt,
       r_updated_at := formatTS now\<rparr>"

definition ClaimTerminal ::
  "faults \<Rightarrow> time \<Rightarrow> string \<Rightarrow> string \<Rightarrow> int \<Rightarrow> store \<Rightarrow> (store_error + bool) \<times> store" where
  "ClaimTerminal flt now jobID worker attempt s =
     (case ExecContext flt 0 ''claim terminal'' (terminal_free jobID) (terminal_set worker attempt now) s of
        (Inl e, s') \<Rightarrow> (Inl e, s')
      | (Inr n, s') \<Rightarrow>
          (case RowsAffected flt 1 n of
             Inl e \<Rightarrow> (Inl e, s')
           | Inr rows \<Rightarrow>
               if rows = 1 then (Inr True, s')
               else case jobExists flt 2 jobID s' of
                 Inl e \<Rightarrow> (Inl e, s')
               | Inr exists \<Rightarrow> if \<not> exists then (Inl ErrNotFound, s') else (Inr False, s')))"

section \<open>The execution identity\<close>

definition newExecutionID :: "string + (nat \<Rightarrow> 8 word) \<Rightarrow> int \<Rightarrow> store_error + string" where
  "newExecutionID rd attempt =
     (case rd of
        Inl e \<Rightarrow> Inl (ErrOther (''generate execution id: '' @ e))
      | Inr f \<Rightarrow> Inr (''a'' @ Itoa attempt @ ''-'' @ EncodeToString (rand_bytes f 8)))"

definition mint_set :: "string \<Rightarrow> time \<Rightarrow> row \<Rightarrow> row" where
  "mint_set newID now r =
     r\<lparr>r_execution_id := newID, r_execution_terminal := False, r_updated_at := formatTS now\<rparr>"

definition EnsureExecution ::
  "faults \<Rightarrow> entropy \<Rightarrow> time \<Rightarrow> string \<Rightarrow> store \<Rightarrow> (store_error + (string \<times> bool)) \<times> store" where
  "EnsureExecution flt rnd now jobID s =
     (case flt 0 of
        Some e \<Rightarrow> (Inl (ErrOther (''begin execution tx: '' @ e)), s)
      | None \<Rightarrow>
     (case flt 1 of
        Some e \<Rightarrow> (Inl (ErrOther (''select execution identity: '' @ e)), s)
      | None \<Rightarrow>
     (case find_row jobID s of
        None \<Rightarrow> (Inl ErrNotFound, s)
      | Some r \<Rightarrow>
          if r_execution_id r \<noteq> '''' \<and> \<not> r_execution_terminal r
          then case flt 2 of
                 Some e \<Rightarrow> (Inl (ErrOther (''commit execution tx: '' @ e)), s)
               | None \<Rightarrow> (Inr (r_execution_id r, True), s)
          else case newExecutionID (rnd 0) (r_attempt r) of
                 Inl e \<Rightarrow> (Inl e, s)
               | Inr newID \<Rightarrow>
                   (case ExecContext flt 3 ''mint execution identity'' (\<lambda>x. r_job_id x = jobID)
                           (mint_set newID now) s of
                      (Inl e, _) \<Rightarrow> (Inl e, s)
                    | (Inr _, s') \<Rightarrow>
                        (case flt 4 of
                           Some e \<Rightarrow> (Inl (ErrOther (''commit execution tx: '' @ e)), s)
                         | None \<Rightarrow> (Inr (newID, False), s'))))))"

definition current_execution :: "string \<Rightarrow> string \<Rightarrow> row \<Rightarrow> bool" where
  "current_execution jobID executionID r \<longleftrightarrow>
     r_job_id r = jobID \<and> r_execution_id r = executionID \<and> r_execution_id r \<noteq> ''''"

definition execution_terminal_set :: "time \<Rightarrow> row \<Rightarrow> row" where
  "execution_terminal_set now r = r\<lparr>r_execution_terminal := True, r_updated_at := formatTS now\<rparr>"

definition MarkExecutionTerminal ::
  "faults \<Rightarrow> time \<Rightarrow> string \<Rightarrow> string \<Rightarrow> store \<Rightarrow> (store_error + unit) \<times> store" where
  "MarkExecutionTerminal flt now jobID executionID s =
     (case ExecContext flt 0 ''mark execution terminal'' (current_execution jobID executionID)
             (execution_terminal_set now) s of
        (Inl e, s') \<Rightarrow> (Inl e, s')
      | (Inr n, s') \<Rightarrow>
          (case RowsAffected flt 1 n of
             Inl e \<Rightarrow> (Inl e, s')
           | Inr rows \<Rightarrow>
               if rows = 1 then (Inr (), s')
               else case flt 2 of
                 Some e \<Rightarrow> (Inl (ErrOther (''select execution identity: '' @ e)), s')
               | None \<Rightarrow>
                   (case find_row jobID s' of
                      None \<Rightarrow> (Inl ErrNotFound, s')
                    | Some r \<Rightarrow>
                        if r_execution_id r = '''' then (Inr (), s')
                        else (Inl (ErrExecutionSuperseded (''job '' @ jobID @ '' is on execution '' @
                               fmt_q (r_execution_id r) @ '', not '' @ fmt_q executionID)), s'))))"

section \<open>The readiness probe\<close>

definition CheckWritable :: "faults \<Rightarrow> time \<Rightarrow> store \<Rightarrow> (store_error + unit) \<times> store" where
  "CheckWritable flt now s =
     (case flt 0 of
        Some e \<Rightarrow> (Inl (ErrOther (''write probe: '' @ e)), s)
      | None \<Rightarrow> (Inr (), s\<lparr>store_meta := AList.update ''readiness_probe'' (formatTS now) (store_meta s)\<rparr>))"

lemmas store_op_defs =
  CreateJob_def LeaseJob_def Heartbeat_def finishJob_def CompleteJob_def FailJob_def
  MarkFirstDeliveryPending_def MarkFirstDeliveryDeadLetter_def MarkResultDeliveryPending_def
  MarkResultDeliveryAcknowledged_def MarkResultDeliveryDeadLetter_def ClaimPendingDeliveries_def
  ClaimTerminal_def EnsureExecution_def MarkExecutionTerminal_def CheckWritable_def

end
