(* ===== verification/Store_Steps.thy ===== *)
theory Store_Steps
  imports Sqlite_Store
begin

text \<open>
  What one call of the store does to one row. \<open>keyed_update\<close> is the contract of every
  UPDATE of store.go: its WHERE clause names one \<open>job_id\<close> and its SET clause keeps it.
  \<open>row_step\<close> is the abstract specification of the whole store, one rule per kind of
  write with that write's guard; the main lemma shows that every call of the store, on
  every error path, refines it row by row.
\<close>

section \<open>Updates keyed by job id\<close>

lemma find_row_update_jobs:
  assumes "\<And>r. r_job_id (f r) = r_job_id r"
  shows "find_row i (update_jobs P f s) = map_option (\<lambda>r. if P r then f r else r) (find_row i s)"
proof -
  have "find (\<lambda>r. r_job_id r = i) (map (\<lambda>r. if P r then f r else r) xs)
      = map_option (\<lambda>r. if P r then f r else r) (find (\<lambda>r. r_job_id r = i) xs)" for xs
    by (induction xs) (simp_all add: assms)
  then show ?thesis by (simp add: find_row_def update_jobs_def)
qed

locale keyed_update =
  fixes P :: "row \<Rightarrow> bool" and f :: "row \<Rightarrow> row" and j :: string
  assumes key: "P r \<Longrightarrow> r_job_id r = j"
    and keeps_key: "r_job_id (f r) = r_job_id r"
begin

lemma keys: "map r_job_id (jobs (update_jobs P f s)) = map r_job_id (jobs s)"
  by (simp add: update_jobs_def keeps_key)

lemma meta: "store_meta (update_jobs P f s) = store_meta s"
  by (simp add: update_jobs_def)

lemma find_row_update:
  "find_row i (update_jobs P f s) = map_option (\<lambda>r. if P r then f r else r) (find_row i s)"
  by (rule find_row_update_jobs) (rule keeps_key)

lemma find_row_other: "i \<noteq> j \<Longrightarrow> find_row i (update_jobs P f s) = find_row i s"
proof -
  assume "i \<noteq> j"
  moreover have "r_job_id r = i" if "find_row i s = Some r" for r
    using that by (auto simp: find_row_def find_Some_iff)
  ultimately show ?thesis unfolding find_row_update by (cases "find_row i s") (auto dest: key)
qed

lemma affected_le1: "distinct (map r_job_id (jobs s)) \<Longrightarrow> affected P s \<le> 1"
  unfolding affected_def by (rule length_filter_le1 [where k = r_job_id and v = j]) (auto dest: key)

lemma affected_eq:
  assumes "distinct (map r_job_id (jobs s))"
  shows "affected P s = (case find_row j s of Some r \<Rightarrow> if P r then 1 else 0 | None \<Rightarrow> 0)"
proof (cases "find_row j s")
  case None
  then have "\<forall>r \<in> set (jobs s). r_job_id r \<noteq> j" by (simp add: find_row_def find_None_iff)
  then have "filter P (jobs s) = []" by (auto simp: filter_empty_conv dest: key)
  then show ?thesis using None by (simp add: affected_def)
next
  case (Some r)
  then have r: "r \<in> set (jobs s)" "r_job_id r = j" by (auto simp: find_row_def find_Some_iff)
  have "x = r" if "x \<in> set (jobs s)" "P x" for x
    using that r assms key [of x] by (metis distinct_map inj_onD)
  then have "filter P (jobs s) \<noteq> [] \<longleftrightarrow> P r" using r by (auto simp: filter_empty_conv)
  then show ?thesis using Some affected_le1 [OF assms]
    by (cases "filter P (jobs s)") (auto simp: affected_def)
qed

lemma affected_0: "affected P s = 0 \<Longrightarrow> update_jobs P f s = s"
proof -
  assume "affected P s = 0"
  then have "\<forall>r \<in> set (jobs s). \<not> P r" by (simp add: affected_def filter_empty_conv)
  then have "map (\<lambda>r. if P r then f r else r) (jobs s) = jobs s" by (simp add: map_idI)
  then show ?thesis by (simp add: update_jobs_def)
qed

lemma no_match:
  assumes "distinct (map r_job_id (jobs s))" and "\<And>r. find_row j s = Some r \<Longrightarrow> \<not> P r"
  shows "affected P s = 0 \<and> update_jobs P f s = s"
  using affected_eq [OF assms(1)] assms(2) affected_0 by (simp split: option.splits)

lemma match:
  assumes "distinct (map r_job_id (jobs s))" and "find_row j s = Some r" and "P r"
  shows "affected P s = 1 \<and> find_row j (update_jobs P f s) = Some (f r) \<and>
    (\<forall>i. i \<noteq> j \<longrightarrow> find_row i (update_jobs P f s) = find_row i s)"
  using affected_eq [OF assms(1)] assms(2,3) find_row_update [of j s] find_row_other by simp

end

text \<open>Every UPDATE of store.go is keyed.\<close>

lemmas set_defs =
  lease_set_def heartbeat_set_def finish_set_def requeue_set_def fail_set_def
  first_pending_set_def first_dead_set_def pending_set_def acknowledged_set_def dead_set_def
  claim_set_def terminal_set_def mint_set_def execution_terminal_set_def

lemmas fence_defs =
  owns_lease_def owns_active_lease_def first_delivery_fence_def redelivery_fence_def
  terminal_free_def current_execution_def

interpretation lease_u: keyed_update "\<lambda>r. r_job_id r = j" "lease_set now w ttl" j
  for j now w ttl by unfold_locales (simp_all add: set_defs)

interpretation heartbeat_u: keyed_update "owns_active_lease j w a" "heartbeat_set now ttl" j
  for j w a now ttl by unfold_locales (simp_all add: set_defs fence_defs)

interpretation finish_u: keyed_update "owns_lease j w a" "finish_set st e res now" j
  for j w a st e res now by unfold_locales (simp_all add: set_defs fence_defs)

interpretation requeue_u: keyed_update "owns_active_lease j w a" "requeue_set e d now" j
  for j w a e d now by unfold_locales (simp_all add: set_defs fence_defs)

interpretation fail_u: keyed_update "owns_lease j w a" "fail_set e now" j
  for j w a e now by unfold_locales (simp_all add: set_defs fence_defs)

interpretation first_pending_u:
  keyed_update "first_delivery_fence j w a" "first_pending_set p e nx now" j
  for j w a p e nx now by unfold_locales (simp_all add: set_defs fence_defs)

interpretation first_dead_u: keyed_update "first_delivery_fence j w a" "first_dead_set p e now" j
  for j w a p e now by unfold_locales (simp_all add: set_defs fence_defs)

interpretation pending_u: keyed_update "redelivery_fence j tk" "pending_set e nx now" j
  for j tk e nx now by unfold_locales (simp_all add: set_defs fence_defs)

interpretation ack_u: keyed_update "redelivery_fence j tk" "acknowledged_set now" j
  for j tk now by unfold_locales (simp_all add: set_defs fence_defs)

interpretation dead_u: keyed_update "redelivery_fence j tk" "dead_set e now" j
  for j tk e now by unfold_locales (simp_all add: set_defs fence_defs)

interpretation claim_u: keyed_update "\<lambda>r. r_job_id r = j" "claim_set u tk n" j
  for j u tk n by unfold_locales (simp_all add: set_defs)

interpretation terminal_u: keyed_update "terminal_free j" "terminal_set w a now" j
  for j w a now by unfold_locales (simp_all add: set_defs fence_defs)

interpretation mint_u: keyed_update "\<lambda>r. r_job_id r = j" "mint_set i now" j
  for j i now by unfold_locales (simp_all add: set_defs)

interpretation exec_terminal_u: keyed_update "current_execution j i" "execution_terminal_set now" j
  for j i now by unfold_locales (simp_all add: set_defs fence_defs)

section \<open>The abstract store: one rule per kind of write to a row\<close>

text \<open>Every clock reading is an instant of the years 0 to 9999 (\<^const>\<open>ts_ok\<close>).\<close>

inductive row_step :: "row \<Rightarrow> row \<Rightarrow> bool" where
  unchanged: "row_step r r"
| lease: "leaseable now r \<Longrightarrow> w \<noteq> '''' \<Longrightarrow> ts_ok now \<Longrightarrow> ts_ok (now + ttl) \<Longrightarrow>
    row_step r (lease_set now w ttl r)"
| heartbeat: "owns_active_lease j w a r \<Longrightarrow> w \<noteq> '''' \<Longrightarrow> ts_ok now \<Longrightarrow> ts_ok (now + ttl) \<Longrightarrow>
    row_step r (heartbeat_set now ttl r)"
| complete: "owns_lease j w a r \<Longrightarrow> w \<noteq> '''' \<Longrightarrow> ts_ok now \<Longrightarrow>
    row_step r (finish_set StatusSucceeded '''' res now r)"
| requeue: "owns_active_lease j w a r \<Longrightarrow> w \<noteq> '''' \<Longrightarrow> ts_ok now \<Longrightarrow> row_step r (requeue_set e d now r)"
| fail: "owns_lease j w a r \<Longrightarrow> w \<noteq> '''' \<Longrightarrow> ts_ok now \<Longrightarrow> row_step r (fail_set e now r)"
| first_pending: "first_delivery_fence j w a r \<Longrightarrow> ts_ok now \<Longrightarrow> ts_ok nx \<Longrightarrow>
    row_step r (first_pending_set p e nx now r)"
| first_dead: "first_delivery_fence j w a r \<Longrightarrow> ts_ok now \<Longrightarrow> row_step r (first_dead_set p e now r)"
| redeliver_pending: "redelivery_fence j tk r \<Longrightarrow> ts_ok now \<Longrightarrow> ts_ok nx \<Longrightarrow> row_step r (pending_set e nx now r)"
| redeliver_ack: "redelivery_fence j tk r \<Longrightarrow> ts_ok now \<Longrightarrow> row_step r (acknowledged_set now r)"
| redeliver_dead: "redelivery_fence j tk r \<Longrightarrow> ts_ok now \<Longrightarrow> row_step r (dead_set e now r)"
| claim: "claimable (formatTS now) r \<Longrightarrow> tk \<noteq> '''' \<Longrightarrow> ts_ok now \<Longrightarrow> ts_ok u \<Longrightarrow>
    row_step r (claim_set (formatTS u) tk (formatTS now) r)"
| claim_terminal: "\<not> r_terminal_submitted r \<Longrightarrow> w \<noteq> '''' \<Longrightarrow> ts_ok now \<Longrightarrow> row_step r (terminal_set w a now r)"
| mint: "r_execution_id r = '''' \<or> r_execution_terminal r \<Longrightarrow> i \<noteq> '''' \<Longrightarrow> ts_ok now \<Longrightarrow>
    row_step r (mint_set i now r)"
| exec_terminal: "r_execution_id r \<noteq> '''' \<Longrightarrow> ts_ok now \<Longrightarrow> row_step r (execution_terminal_set now r)"

section \<open>The calls of the store\<close>

text \<open>
  One constructor per operation that writes, with everything the outcome depends on. The
  read-only operations (GetJob, ListJobs) do not change the store.
\<close>

datatype store_call =
    CallCreateJob "string \<Rightarrow> string" faults time JobRequest
  | CallLeaseJob faults time string duration
  | CallHeartbeat faults time string string int duration
  | CallCompleteJob faults time string string int string
  | CallFailJob faults time string string int string bool duration
  | CallMarkFirstDeliveryPending faults time string string int string string time
  | CallMarkFirstDeliveryDeadLetter faults time string string int string string
  | CallMarkResultDeliveryPending faults time string string string time
  | CallMarkResultDeliveryAcknowledged faults time string string
  | CallMarkResultDeliveryDeadLetter faults time string string string
  | CallClaimPendingDeliveries faults entropy time int duration
  | CallClaimTerminal faults time string string int
  | CallEnsureExecution faults entropy time string
  | CallMarkExecutionTerminal faults time string string
  | CallCheckWritable faults time

fun exec_call :: "store_call \<Rightarrow> store \<Rightarrow> store" where
  "exec_call (CallCreateJob H flt now req) s = snd (CreateJob H flt now req s)"
| "exec_call (CallLeaseJob flt now w ttl) s = snd (LeaseJob flt now w ttl s)"
| "exec_call (CallHeartbeat flt now j w a ttl) s = snd (Heartbeat flt now j w a ttl s)"
| "exec_call (CallCompleteJob flt now j w a res) s = snd (CompleteJob flt now j w a res s)"
| "exec_call (CallFailJob flt now j w a e rt d) s = snd (FailJob flt now j w a e rt d s)"
| "exec_call (CallMarkFirstDeliveryPending flt now j w a p e nx) s =
     snd (MarkFirstDeliveryPending flt now j w a p e nx s)"
| "exec_call (CallMarkFirstDeliveryDeadLetter flt now j w a p e) s =
     snd (MarkFirstDeliveryDeadLetter flt now j w a p e s)"
| "exec_call (CallMarkResultDeliveryPending flt now j tk e nx) s =
     snd (MarkResultDeliveryPending flt now j tk e nx s)"
| "exec_call (CallMarkResultDeliveryAcknowledged flt now j tk) s =
     snd (MarkResultDeliveryAcknowledged flt now j tk s)"
| "exec_call (CallMarkResultDeliveryDeadLetter flt now j tk e) s =
     snd (MarkResultDeliveryDeadLetter flt now j tk e s)"
| "exec_call (CallClaimPendingDeliveries flt rnd now lim ttl) s =
     snd (ClaimPendingDeliveries flt rnd now lim ttl s)"
| "exec_call (CallClaimTerminal flt now j w a) s = snd (ClaimTerminal flt now j w a s)"
| "exec_call (CallEnsureExecution flt rnd now j) s = snd (EnsureExecution flt rnd now j s)"
| "exec_call (CallMarkExecutionTerminal flt now j i) s = snd (MarkExecutionTerminal flt now j i s)"
| "exec_call (CallCheckWritable flt now) s = snd (CheckWritable flt now s)"

text \<open>
  The callers' side conditions: a worker has a name (\<open>workerIdentity\<close> in cmd/nodesentinel
  never returns the empty string), and the clock and every time derived from it lie in the
  years 0 to 9999.
\<close>

fun valid_call :: "store_call \<Rightarrow> bool" where
  "valid_call (CallCreateJob _ _ now _) = ts_ok now"
| "valid_call (CallLeaseJob _ now w ttl) = (w \<noteq> '''' \<and> ts_ok now \<and> ts_ok (now + ttl))"
| "valid_call (CallHeartbeat _ now _ w _ ttl) = (w \<noteq> '''' \<and> ts_ok now \<and> ts_ok (now + ttl))"
| "valid_call (CallCompleteJob _ now _ w _ _) = (w \<noteq> '''' \<and> ts_ok now)"
| "valid_call (CallFailJob _ now _ w _ _ _ _) = (w \<noteq> '''' \<and> ts_ok now)"
| "valid_call (CallMarkFirstDeliveryPending _ now _ _ _ _ _ nx) = (ts_ok now \<and> ts_ok nx)"
| "valid_call (CallMarkFirstDeliveryDeadLetter _ now _ _ _ _ _) = ts_ok now"
| "valid_call (CallMarkResultDeliveryPending _ now _ _ _ nx) = (ts_ok now \<and> ts_ok nx)"
| "valid_call (CallMarkResultDeliveryAcknowledged _ now _ _) = ts_ok now"
| "valid_call (CallMarkResultDeliveryDeadLetter _ now _ _ _) = ts_ok now"
| "valid_call (CallClaimPendingDeliveries _ _ now _ ttl) = (ts_ok now \<and> ts_ok (now + ttl))"
| "valid_call (CallClaimTerminal _ now _ w _) = (w \<noteq> '''' \<and> ts_ok now)"
| "valid_call (CallEnsureExecution _ _ now _) = ts_ok now"
| "valid_call (CallMarkExecutionTerminal _ now _ _) = ts_ok now"
| "valid_call (CallCheckWritable _ now) = ts_ok now"

fun run_calls :: "store_call list \<Rightarrow> store \<Rightarrow> store" where
  "run_calls [] s = s"
| "run_calls (c # cs) s = run_calls cs (exec_call c s)"

definition empty_store :: store where
  "empty_store = \<lparr>jobs = [], store_meta = []\<rparr>"

section \<open>Every call refines the abstract store\<close>

text \<open>A request the two unique indexes of the table admit.\<close>

definition fresh_request :: "JobRequest \<Rightarrow> store \<Rightarrow> bool" where
  "fresh_request req s \<longleftrightarrow>
     (\<forall>r \<in> set (jobs s). r_job_id r \<noteq> req_JobID req \<and>
        (req_ValidationRequestID req \<noteq> '''' \<longrightarrow>
           r_validation_request_id r \<noteq> Some (req_ValidationRequestID req)))"

definition rows_refine :: "store \<Rightarrow> store \<Rightarrow> bool" where
  "rows_refine s s' \<longleftrightarrow>
     (\<exists>rs ns. jobs s' = rs @ ns \<and> list_all2 row_step (jobs s) rs \<and>
        (ns = [] \<or> (\<exists>H now req. ns = [new_row H now req] \<and> ts_ok now \<and> fresh_request req s)))"

lemma rows_refine_refl: "jobs s' = jobs s \<Longrightarrow> rows_refine s s'"
  unfolding rows_refine_def
  by (metis append_Nil2 list_all2_refl row_step.unchanged)

lemma update_refines:
  "(\<And>r. r \<in> set (jobs s) \<Longrightarrow> P r \<Longrightarrow> row_step r (f r)) \<Longrightarrow> rows_refine s (update_jobs P f s)"
  unfolding rows_refine_def update_jobs_def
  by (rule exI [of _ "map (\<lambda>r. if P r then f r else r) (jobs s)"])
    (auto simp: list_all2_conv_all_nth intro: row_step.unchanged)

lemma ExecContext_refines:
  "(\<And>r. r \<in> set (jobs s) \<Longrightarrow> P r \<Longrightarrow> row_step r (f r)) \<Longrightarrow> rows_refine s (snd (ExecContext flt i m P f s))"
  by (auto simp: ExecContext_def rows_refine_refl update_refines split: option.splits)

lemma snd_fenced [simp]:
  "snd (case ExecContext flt i m P f s of (Inl e, s') \<Rightarrow> (Inl e, s') | (Inr n, s') \<Rightarrow> (g n, s'))
    = snd (ExecContext flt i m P f s)"
  by (auto split: prod.splits sum.splits)

lemma snd_claim_terminal: "snd (ClaimTerminal flt now j w a s)
    = snd (ExecContext flt 0 ''claim terminal'' (terminal_free j) (terminal_set w a now) s)"
  by (auto simp: ClaimTerminal_def split: prod.splits sum.splits)

lemma snd_mark_terminal: "snd (MarkExecutionTerminal flt now j i s)
    = snd (ExecContext flt 0 ''mark execution terminal'' (current_execution j i) (execution_terminal_set now) s)"
  by (auto simp: MarkExecutionTerminal_def split: prod.splits sum.splits option.splits)

lemma find_row_Some: "find_row j s = Some r \<Longrightarrow> r \<in> set (jobs s) \<and> r_job_id r = j"
  by (auto simp: find_row_def find_Some_iff)

lemma find_row_unique:
  "distinct (map r_job_id (jobs s)) \<Longrightarrow> r \<in> set (jobs s) \<Longrightarrow> find_row (r_job_id r) s = Some r"
proof -
  assume d: "distinct (map r_job_id (jobs s))" and r: "r \<in> set (jobs s)"
  then have "find_row (r_job_id r) s \<noteq> None" by (auto simp: find_row_def find_None_iff)
  then obtain x where x: "find_row (r_job_id r) s = Some x" by blast
  with find_row_Some [OF x] d r show ?thesis by (metis distinct_map inj_onD)
qed

lemma insert_job_cases:
  "snd (insert_job (new_row H now req) s) = s \<or>
   fresh_request req s \<and> snd (insert_job (new_row H now req) s) = s\<lparr>jobs := jobs s @ [new_row H now req]\<rparr>"
  by (auto simp: insert_job_def fresh_request_def new_row_def split: if_splits)

lemma snd_CreateJob: "snd (CreateJob H flt now req s) = (if flt 0 = None then snd (insert_job (new_row H now req) s) else s)"
  by (auto simp: CreateJob_def split: option.split sum.split prod.split)

lemma CreateJob_cases:
  "snd (CreateJob H flt now req s) = s \<or>
   fresh_request req s \<and> snd (CreateJob H flt now req s) = s\<lparr>jobs := jobs s @ [new_row H now req]\<rparr>"
  unfolding snd_CreateJob using insert_job_cases [of H now req s] by simp

lemma CreateJob_refines: "ts_ok now \<Longrightarrow> rows_refine s (snd (CreateJob H flt now req s))"
proof -
  assume "ts_ok now"
  moreover have "list_all2 row_step (jobs s) (jobs s)"
    by (simp add: list_all2_refl row_step.unchanged)
  ultimately show ?thesis using CreateJob_cases [of H flt now req s] unfolding rows_refine_def
    by (metis append_Nil2 select_convs(1) surjective update_convs(1))
qed

lemma LeaseJob_cases:
  "snd (LeaseJob flt now w ttl s) = s \<or>
   (\<exists>r \<in> set (jobs s). leaseable now r \<and>
      r = hd (sort_key r_created_at (filter (leaseable now) (jobs s))) \<and>
      snd (LeaseJob flt now w ttl s) = update_jobs (\<lambda>x. r_job_id x = r_job_id r) (lease_set now w ttl) s)"
proof (cases "sort_key r_created_at (filter (leaseable now) (jobs s))")
  case Nil
  then show ?thesis by (auto simp: LeaseJob_def split: option.splits)
next
  case (Cons r rs)
  then have "r \<in> set (filter (leaseable now) (jobs s))" by (metis list.set_intros(1) set_sort)
  with Cons show ?thesis by (auto simp: LeaseJob_def ExecContext_def split: option.splits)
qed

lemma LeaseJob_refines:
  assumes "distinct (map r_job_id (jobs s))" and "w \<noteq> ''''" and "ts_ok now" "ts_ok (now + ttl)"
  shows "rows_refine s (snd (LeaseJob flt now w ttl s))"
  using LeaseJob_cases [of flt now w ttl s]
proof
  assume "snd (LeaseJob flt now w ttl s) = s"
  then show ?thesis by (simp add: rows_refine_refl)
next
  assume "\<exists>r \<in> set (jobs s). leaseable now r \<and>
      r = hd (sort_key r_created_at (filter (leaseable now) (jobs s))) \<and>
      snd (LeaseJob flt now w ttl s) = update_jobs (\<lambda>x. r_job_id x = r_job_id r) (lease_set now w ttl) s"
  then obtain r where r: "r \<in> set (jobs s)" "leaseable now r"
    "snd (LeaseJob flt now w ttl s) = update_jobs (\<lambda>x. r_job_id x = r_job_id r) (lease_set now w ttl) s"
    by blast
  have "x = r" if "x \<in> set (jobs s)" "r_job_id x = r_job_id r" for x
    using that r(1) assms(1) by (metis distinct_map inj_onD)
  then show ?thesis unfolding r(3)
    using r(2) assms(2-) by (intro update_refines) (metis row_step.lease)
qed

lemma newExecutionID_ne: "newExecutionID rd a = Inr i \<Longrightarrow> i \<noteq> ''''"
  by (auto simp: newExecutionID_def split: sum.splits)

lemma newClaimToken_ne: "newClaimToken rd = Inr tk \<Longrightarrow> tk \<noteq> ''''"
proof -
  assume "newClaimToken rd = Inr tk"
  then obtain f where "tk = EncodeToString (rand_bytes f 16)"
    by (auto simp: newClaimToken_def split: sum.splits)
  then have "length tk = 32" by (simp add: rand_bytes_def)
  then show ?thesis by auto
qed

lemma EnsureExecution_cases:
  "snd (EnsureExecution flt rnd now j s) = s \<or>
   (\<exists>r i. find_row j s = Some r \<and> (r_execution_id r = '''' \<or> r_execution_terminal r) \<and>
      newExecutionID (rnd 0) (r_attempt r) = Inr i \<and>
      snd (EnsureExecution flt rnd now j s) = update_jobs (\<lambda>x. r_job_id x = j) (mint_set i now) s)"
  by (auto simp: EnsureExecution_def ExecContext_def split: option.splits sum.splits)

lemma EnsureExecution_refines:
  assumes d: "distinct (map r_job_id (jobs s))" and now: "ts_ok now"
  shows "rows_refine s (snd (EnsureExecution flt rnd now j s))"
proof (cases "snd (EnsureExecution flt rnd now j s) = s")
  case True
  then show ?thesis by (simp add: rows_refine_refl)
next
  case False
  then obtain r i where r: "find_row j s = Some r"
    and free: "r_execution_id r = '''' \<or> r_execution_terminal r"
    and i: "newExecutionID (rnd 0) (r_attempt r) = Inr i"
    and u: "snd (EnsureExecution flt rnd now j s) = update_jobs (\<lambda>x. r_job_id x = j) (mint_set i now) s"
    using EnsureExecution_cases [of flt rnd now j s] by blast
  have "x = r" if "x \<in> set (jobs s)" "r_job_id x = j" for x
    using that r find_row_unique [OF d that(1)] by simp
  then show ?thesis unfolding u
    using free now newExecutionID_ne [OF i] by (intro update_refines) (metis row_step.mint)
qed

section \<open>Claiming redeliveries\<close>

text \<open>The tokens the loop mints for its ids, in order.\<close>

lemma claim_loop_rows:
  "claim_loop flt rnd u n k ids s = Inr (out, s') \<Longrightarrow> distinct ids \<Longrightarrow>
     store_meta s' = store_meta s \<and>
     list_all2 (\<lambda>r r'. if r_job_id r \<in> set ids
                  then \<exists>i < length ids. \<exists>tk. newClaimToken (rnd (k + i)) = Inr tk \<and> r' = claim_set u tk n r
                  else r' = r) (jobs s) (jobs s')"
proof (induction ids arbitrary: k s out)
  case Nil
  then show ?case by (simp add: list_all2_refl)
next
  case (Cons jid ids)
  from Cons.prems obtain tk out' where tk: "newClaimToken (rnd k) = Inr tk"
    and loop: "claim_loop flt rnd u n (Suc k) ids (update_jobs (\<lambda>r. r_job_id r = jid) (claim_set u tk n) s) = Inr (out', s')"
    by (auto simp: ExecContext_def split: sum.splits option.splits prod.splits)
  let ?s1 = "update_jobs (\<lambda>r. r_job_id r = jid) (claim_set u tk n) s"
  let ?R = "\<lambda>r r'. if r_job_id r \<in> set ids
      then \<exists>i < length ids. \<exists>tk. newClaimToken (rnd (Suc k + i)) = Inr tk \<and> r' = claim_set u tk n r else r' = r"
  have meta: "store_meta s' = store_meta s" and R: "list_all2 ?R (jobs ?s1) (jobs s')"
    using Cons.IH [OF loop] Cons.prems(2) by (simp_all add: update_jobs_def)
  have key: "r_job_id (claim_set u tk n r) = r_job_id r" for r by (simp add: claim_set_def)
  have R': "list_all2 (\<lambda>r r'. ?R (if r_job_id r = jid then claim_set u tk n r else r) r') (jobs s) (jobs s')"
    using R by (simp add: update_jobs_def list_all2_map1)
  have "list_all2 (\<lambda>r r'. if r_job_id r \<in> set (jid # ids)
      then \<exists>i < length (jid # ids). \<exists>tk. newClaimToken (rnd (k + i)) = Inr tk \<and> r' = claim_set u tk n r
      else r' = r) (jobs s) (jobs s')"
  proof (rule list_all2_mono [OF R'])
    fix r r'
    assume h: "?R (if r_job_id r = jid then claim_set u tk n r else r) r'"
    show "if r_job_id r \<in> set (jid # ids)
      then \<exists>i < length (jid # ids). \<exists>tk. newClaimToken (rnd (k + i)) = Inr tk \<and> r' = claim_set u tk n r
      else r' = r"
    proof (cases "r_job_id r = jid")
      case True
      with h Cons.prems(2) key have "r' = claim_set u tk n r" by simp
      with True tk show ?thesis by (auto intro!: exI [of _ 0])
    next
      case False
      show ?thesis
      proof (cases "r_job_id r \<in> set ids")
        case True
        with h False obtain i tk' where "Suc i < length (jid # ids)"
          "newClaimToken (rnd (k + Suc i)) = Inr tk'" "r' = claim_set u tk' n r" by auto
        with True show ?thesis by (metis list.set_intros(2))
      qed (use False h in simp)
    qed
  qed
  then show ?case using meta by simp
qed

lemma ClaimPendingDeliveries_cases:
  assumes d: "distinct (map r_job_id (jobs s))"
  shows "snd (ClaimPendingDeliveries flt rnd now lim ttl s) = s \<or>
    (store_meta (snd (ClaimPendingDeliveries flt rnd now lim ttl s)) = store_meta s \<and>
     list_all2 (\<lambda>r r'. r' = r \<or> claimable (formatTS now) r \<and>
        (\<exists>i tk. newClaimToken (rnd i) = Inr tk \<and> r' = claim_set (formatTS (now + ttl)) tk (formatTS now) r))
       (jobs s) (jobs (snd (ClaimPendingDeliveries flt rnd now lim ttl s))))"
proof -
  let ?n = "formatTS now" and ?u = "formatTS (now + ttl)"
  define sel where "sel = sql_limit lim (sort_key r_updated_at (filter (claimable ?n) (jobs s)))"
  have sub: "set sel \<subseteq> set (filter (claimable ?n) (jobs s))"
    unfolding sel_def sql_limit_def by (auto dest: in_set_takeD)
  have dist: "distinct (map r_job_id sel)"
  proof -
    have "distinct (map r_job_id (sort_key r_updated_at (filter (claimable ?n) (jobs s))))"
      using d by (simp add: distinct_map inj_on_def)
    then show ?thesis unfolding sel_def sql_limit_def by (simp add: take_map [symmetric])
  qed
  show ?thesis
  proof (cases "snd (ClaimPendingDeliveries flt rnd now lim ttl s) = s")
    case False
    then obtain out s' where loop: "claim_loop flt rnd ?u ?n 0 (map r_job_id sel) s = Inr (out, s')"
      and s': "snd (ClaimPendingDeliveries flt rnd now lim ttl s) = s'"
      by (auto simp: ClaimPendingDeliveries_def Let_def sel_def split: option.splits if_splits sum.splits prod.splits)
    note L = claim_loop_rows [OF loop dist]
    have claimable: "claimable ?n r" if r: "r \<in> set (jobs s)" "r_job_id r \<in> set (map r_job_id sel)" for r
    proof -
      from r(2) obtain x where x: "x \<in> set sel" "r_job_id x = r_job_id r" by auto
      with sub have "x \<in> set (jobs s)" "claimable ?n x" by auto
      moreover from this x r(1) d have "x = r" by (metis distinct_map inj_onD)
      ultimately show ?thesis by simp
    qed
    have "list_all2 (\<lambda>r r'. r' = r \<or> claimable ?n r \<and>
        (\<exists>i tk. newClaimToken (rnd i) = Inr tk \<and> r' = claim_set ?u tk ?n r)) (jobs s) (jobs s')"
      using conjunct2 [OF L] claimable unfolding list_all2_conv_all_nth
      by (metis (no_types, lifting) nth_mem)
    then show ?thesis using L s' by simp
  qed simp
qed

lemma ClaimPendingDeliveries_refines:
  assumes d: "distinct (map r_job_id (jobs s))" and now: "ts_ok now" "ts_ok (now + ttl)"
  shows "rows_refine s (snd (ClaimPendingDeliveries flt rnd now lim ttl s))"
  using ClaimPendingDeliveries_cases [OF d, of flt rnd now lim ttl]
proof
  assume "snd (ClaimPendingDeliveries flt rnd now lim ttl s) = s"
  then show ?thesis by (simp add: rows_refine_refl)
next
  let ?s' = "snd (ClaimPendingDeliveries flt rnd now lim ttl s)"
  assume "store_meta ?s' = store_meta s \<and>
     list_all2 (\<lambda>r r'. r' = r \<or> claimable (formatTS now) r \<and>
        (\<exists>i tk. newClaimToken (rnd i) = Inr tk \<and> r' = claim_set (formatTS (now + ttl)) tk (formatTS now) r))
       (jobs s) (jobs ?s')"
  then have "list_all2 row_step (jobs s) (jobs ?s')"
    using now by (auto elim!: list_all2_mono intro: row_step.unchanged row_step.claim dest: newClaimToken_ne)
  then show ?thesis unfolding rows_refine_def by (metis append_Nil2)
qed

section \<open>The refinement\<close>

lemma exec_call_refines:
  assumes d: "distinct (map r_job_id (jobs s))" and w: "valid_call c"
  shows "rows_refine s (exec_call c s)"
proof (cases c)
  case (CallFailJob flt now j w a e rt dl)
  with w show ?thesis
    by (cases rt) (auto simp: FailJob_def intro!: ExecContext_refines row_step.requeue row_step.fail)
next
  case (CallClaimTerminal flt now j w a)
  with w show ?thesis
    by (auto simp: snd_claim_terminal terminal_free_def intro!: ExecContext_refines row_step.claim_terminal)
next
  case (CallMarkExecutionTerminal flt now j i)
  with w show ?thesis
    by (auto simp: snd_mark_terminal current_execution_def intro!: ExecContext_refines row_step.exec_terminal)
next
  case (CallCheckWritable flt now)
  then show ?thesis by (auto simp: CheckWritable_def intro!: rows_refine_refl split: option.splits)
qed (use w d in \<open>auto simp: Heartbeat_def CompleteJob_def finishJob_def MarkFirstDeliveryPending_def
    MarkFirstDeliveryDeadLetter_def MarkResultDeliveryPending_def MarkResultDeliveryAcknowledged_def
    MarkResultDeliveryDeadLetter_def
    intro!: CreateJob_refines LeaseJob_refines EnsureExecution_refines ClaimPendingDeliveries_refines
      ExecContext_refines
    intro: row_step.intros\<close>)

end
