(* ===== verification/Store_Invariants.thy ===== *)
theory Store_Invariants
  imports Store_Steps
begin

text \<open>
  The invariant of the jobs table and the history of a row: what holds in every state the
  calls of the store can reach, and what is true of a row forever once it is true.
\<close>

section \<open>Transition systems\<close>

locale invariant_system =
  fixes step :: "'s \<Rightarrow> 's \<Rightarrow> bool" and inv :: "'s \<Rightarrow> bool"
  assumes inv_step: "inv s \<Longrightarrow> step s t \<Longrightarrow> inv t"
begin

lemma inv_reach: "step\<^sup>*\<^sup>* s t \<Longrightarrow> inv s \<Longrightarrow> inv t"
  by (induction rule: rtranclp_induct) (auto intro: inv_step)

end

locale evolving_system = invariant_system +
  fixes rel :: "'a \<Rightarrow> 'a \<Rightarrow> bool"
  assumes rel_refl: "rel s s"
    and rel_trans: "rel s t \<Longrightarrow> rel t u \<Longrightarrow> rel s u"
    and rel_step: "inv s \<Longrightarrow> step s t \<Longrightarrow> rel s t"
begin

lemma rel_reach: "step\<^sup>*\<^sup>* s t \<Longrightarrow> inv s \<Longrightarrow> rel s t"
proof (induction rule: rtranclp_induct)
  case base
  show ?case by (rule rel_refl)
next
  case (step t u)
  then have "inv t" by (blast intro: inv_reach)
  with step show ?case by (blast intro: rel_step rel_trans)
qed

end

section \<open>The store as a transition system\<close>

inductive store_step :: "store \<Rightarrow> store \<Rightarrow> bool" where
  "valid_call c \<Longrightarrow> store_step s (exec_call c s)"

inductive_cases store_stepE: "store_step s t"

lemma run_calls_reach:
  "list_all valid_call cs \<Longrightarrow> store_step\<^sup>*\<^sup>* s (run_calls cs s)"
proof (induction cs arbitrary: s)
  case (Cons c cs)
  then have "store_step s (exec_call c s)" by (auto intro: store_step.intros)
  with Cons show ?case by (auto intro: converse_rtranclp_into_rtranclp)
qed simp

section \<open>The invariant\<close>

definition active :: "Status \<Rightarrow> bool" where
  "active st \<longleftrightarrow> st \<in> {StatusLeased, StatusRunning}"

definition lease_ok :: "row \<Rightarrow> bool" where
  "lease_ok r \<longleftrightarrow>
     (if active (r_status r)
      then r_lease_owner r \<noteq> '''' \<and> r_lease_until r \<noteq> None \<and> r_retry_not_before r = None \<and> 1 \<le> r_attempt r
      else r_lease_owner r = '''' \<and> r_lease_until r = None \<and> 0 \<le> r_attempt r) \<and>
     (r_retry_not_before r \<noteq> None \<longrightarrow> r_status r = StatusQueued)"

definition delivery_ok :: "row \<Rightarrow> bool" where
  "delivery_ok r \<longleftrightarrow>
     (r_result_delivery_claim_token r \<noteq> '''' \<longleftrightarrow> r_result_delivery_status r = DeliveryDelivering) \<and>
     (r_result_delivery_claimed_until r \<noteq> None \<longleftrightarrow> r_result_delivery_status r = DeliveryDelivering) \<and>
     (r_next_attempt_at r \<noteq> None \<longleftrightarrow> r_result_delivery_status r \<in> {DeliveryPending, DeliveryDelivering}) \<and>
     0 \<le> r_result_delivery_attempts r"

definition terminal_ok :: "row \<Rightarrow> bool" where
  "terminal_ok r \<longleftrightarrow>
     (r_result_delivery_status r \<noteq> DeliveryNotApplicable \<longrightarrow> r_terminal_submitted r) \<and>
     (r_terminal_submitted r \<longrightarrow> r_terminal_owner r \<noteq> '''') \<and>
     (r_execution_terminal r \<longrightarrow> r_execution_id r \<noteq> '''')"

text \<open>Every timestamp column holds the text of an instant.\<close>

definition stamp :: "string \<Rightarrow> bool" where
  "stamp x \<longleftrightarrow> (\<exists>t. ts_ok t \<and> x = formatTS t)"

definition opt_stamp :: "string option \<Rightarrow> bool" where
  "opt_stamp v = (case v of None \<Rightarrow> True | Some x \<Rightarrow> stamp x)"

definition stamps_ok :: "row \<Rightarrow> bool" where
  "stamps_ok r \<longleftrightarrow> stamp (r_created_at r) \<and> stamp (r_updated_at r) \<and> opt_stamp (r_lease_until r) \<and>
     opt_stamp (r_next_attempt_at r) \<and> opt_stamp (r_result_delivery_claimed_until r)"

definition row_ok :: "row \<Rightarrow> bool" where
  "row_ok r \<longleftrightarrow> lease_ok r \<and> delivery_ok r \<and> terminal_ok r \<and> stamps_ok r"

definition keys_ok :: "store \<Rightarrow> bool" where
  "keys_ok s \<longleftrightarrow>
     distinct (map r_job_id (jobs s)) \<and>
     distinct (filter (\<lambda>v. v \<noteq> None) (map r_validation_request_id (jobs s)))"

definition store_ok :: "store \<Rightarrow> bool" where
  "store_ok s \<longleftrightarrow> keys_ok s \<and> (\<forall>r \<in> set (jobs s). row_ok r)"

lemma store_ok_empty: "store_ok empty_store"
  by (simp add: store_ok_def keys_ok_def empty_store_def)

lemmas row_ok_defs = lease_ok_def delivery_ok_def terminal_ok_def

lemma stamp_formatTS: "ts_ok t \<Longrightarrow> stamp (formatTS t)"
  by (auto simp: stamp_def)

lemma row_ok_new: "ts_ok now \<Longrightarrow> row_ok (new_row H now req)"
  by (simp add: row_ok_def row_ok_defs active_def new_row_def stamps_ok_def opt_stamp_def stamp_formatTS)

lemma lease_ok_attempt: "lease_ok r \<Longrightarrow> 0 \<le> r_attempt r"
  unfolding lease_ok_def by (cases "active (r_status r)") simp_all

lemma lease_ok_owned:
  "lease_ok r \<Longrightarrow> r_lease_owner r \<noteq> '''' \<Longrightarrow>
     active (r_status r) \<and> r_lease_until r \<noteq> None \<and> r_retry_not_before r = None \<and> 1 \<le> r_attempt r"
  unfolding lease_ok_def by (cases "active (r_status r)") simp_all

lemma lease_ok_frame:
  "lease_ok r \<Longrightarrow> r_status r' = r_status r \<Longrightarrow> r_lease_owner r' = r_lease_owner r \<Longrightarrow>
   r_lease_until r' = r_lease_until r \<Longrightarrow> r_retry_not_before r' = r_retry_not_before r \<Longrightarrow>
   r_attempt r' = r_attempt r \<Longrightarrow> lease_ok r'"
  unfolding lease_ok_def by presburger

lemma row_step_lease_ok: "row_step r r' \<Longrightarrow> lease_ok r \<Longrightarrow> lease_ok r'"
proof (induction rule: row_step.induct)
  case (lease now r w ttl)
  then show ?case using lease_ok_attempt [of r]
    unfolding lease_ok_def [of "lease_set now w ttl r"] by (simp add: lease_set_def active_def)
next
  case (heartbeat j w a r now ttl)
  then have "r_lease_owner r \<noteq> ''''" by (simp add: fence_defs)
  with lease_ok_owned [OF heartbeat(5)] show ?case
    unfolding lease_ok_def [of "heartbeat_set now ttl r"] by (simp add: heartbeat_set_def active_def)
next
  case (complete j w a r now res)
  then have "r_lease_owner r \<noteq> ''''" by (simp add: fence_defs)
  with lease_ok_owned [OF complete(4)] show ?case
    unfolding lease_ok_def [of "finish_set _ _ _ _ r"] by (simp add: finish_set_def active_def)
next
  case (requeue j w a r now e d)
  then have "r_lease_owner r \<noteq> ''''" by (simp add: fence_defs)
  with lease_ok_owned [OF requeue(4)] show ?case
    unfolding lease_ok_def [of "requeue_set e d now r"] by (simp add: requeue_set_def active_def)
next
  case (fail j w a r now e)
  then have "r_lease_owner r \<noteq> ''''" by (simp add: fence_defs)
  with lease_ok_owned [OF fail(4)] show ?case
    unfolding lease_ok_def [of "fail_set e now r"] by (simp add: fail_set_def active_def)
qed (erule lease_ok_frame; simp add: set_defs)+

lemma row_step_delivery_ok: "row_step r r' \<Longrightarrow> delivery_ok r \<Longrightarrow> delivery_ok r'"
  by (induction rule: row_step.induct)
    (auto simp add: delivery_ok_def set_defs fence_defs claimable_def)

lemma row_step_terminal_ok: "row_step r r' \<Longrightarrow> terminal_ok r \<Longrightarrow> terminal_ok r'"
  by (induction rule: row_step.induct)
    (auto simp add: terminal_ok_def set_defs fence_defs claimable_def)

lemma row_step_stamps_ok: "row_step r r' \<Longrightarrow> stamps_ok r \<Longrightarrow> stamps_ok r'"
  by (induction rule: row_step.induct)
    (simp_all add: stamps_ok_def opt_stamp_def set_defs stamp_formatTS)

lemma row_step_ok: "row_step r r' \<Longrightarrow> row_ok r \<Longrightarrow> row_ok r'"
  unfolding row_ok_def by (simp add: row_step_lease_ok row_step_delivery_ok row_step_terminal_ok row_step_stamps_ok)

lemma row_step_keys:
  "row_step r r' \<Longrightarrow> r_job_id r' = r_job_id r \<and> r_validation_request_id r' = r_validation_request_id r"
  by (induction rule: row_step.induct) (auto simp: set_defs)

lemma list_all2_row_step_keys:
  "list_all2 row_step rs rs' \<Longrightarrow> map r_job_id rs' = map r_job_id rs \<and>
     map r_validation_request_id rs' = map r_validation_request_id rs"
  by (induction rule: list_all2_induct) (auto dest: row_step_keys)

lemma rows_refine_ok:
  assumes "rows_refine s s'" and "store_ok s"
  shows "store_ok s'"
proof -
  obtain rs ns where j: "jobs s' = rs @ ns" and l: "list_all2 row_step (jobs s) rs"
    and ns: "ns = [] \<or> (\<exists>H now req. ns = [new_row H now req] \<and> ts_ok now \<and> fresh_request req s)"
    using assms(1) unfolding rows_refine_def by blast
  have k: "map r_job_id rs = map r_job_id (jobs s)"
    "map r_validation_request_id rs = map r_validation_request_id (jobs s)"
    using list_all2_row_step_keys [OF l] by auto
  have ok: "\<forall>r \<in> set rs. row_ok r"
    using l assms(2) unfolding store_ok_def list_all2_conv_all_nth
    by (metis in_set_conv_nth row_step_ok)
  show ?thesis using ns
  proof
    assume "ns = []"
    then show ?thesis using j k ok assms(2) by (simp add: store_ok_def keys_ok_def)
  next
    assume "\<exists>H now req. ns = [new_row H now req] \<and> ts_ok now \<and> fresh_request req s"
    then obtain H now req where new: "ns = [new_row H now req]" "fresh_request req s" "ts_ok now" by blast
    then have "r_job_id (new_row H now req) \<notin> set (map r_job_id (jobs s))"
      "r_validation_request_id (new_row H now req) \<noteq> None \<Longrightarrow>
       r_validation_request_id (new_row H now req) \<notin> set (map r_validation_request_id (jobs s))"
      by (auto simp: fresh_request_def new_row_def split: if_splits)
    then show ?thesis using j k ok assms(2) new row_ok_new
      by (auto simp: store_ok_def keys_ok_def simp del: set_map)
  qed
qed

lemma exec_call_ok: "store_ok s \<Longrightarrow> valid_call c \<Longrightarrow> store_ok (exec_call c s)"
  by (rule rows_refine_ok [OF exec_call_refines]) (auto simp: store_ok_def keys_ok_def)

interpretation store_inv: invariant_system store_step store_ok
  by unfold_locales (auto elim!: store_stepE intro: exec_call_ok)

section \<open>The history of a row\<close>

definition request_kept :: "row \<Rightarrow> row \<Rightarrow> bool" where
  "request_kept r r' \<longleftrightarrow>
     r_job_id r' = r_job_id r \<and> r_created_at r' = r_created_at r \<and>
     r_validation_request_id r' = r_validation_request_id r \<and>
     r_request_fingerprint r' = r_request_fingerprint r \<and>
     r_requested_actions r' = r_requested_actions r \<and> r_image_digest r' = r_image_digest r"

definition lease_evolves :: "row \<Rightarrow> row \<Rightarrow> bool" where
  "lease_evolves r r' \<longleftrightarrow>
     r_attempt r \<le> r_attempt r' \<and>
     (r_attempt r' = r_attempt r \<longrightarrow> r_lease_owner r' = r_lease_owner r \<or> r_lease_owner r' = '''')"

definition finished_kept :: "row \<Rightarrow> row \<Rightarrow> bool" where
  "finished_kept r r' \<longleftrightarrow>
     (r_status r \<in> {StatusSucceeded, StatusFailed} \<longrightarrow>
        r_status r' = r_status r \<and> r_attempt r' = r_attempt r \<and>
        r_last_error r' = r_last_error r \<and> r_result_summary r' = r_result_summary r)"

definition terminal_kept :: "row \<Rightarrow> row \<Rightarrow> bool" where
  "terminal_kept r r' \<longleftrightarrow>
     (r_terminal_submitted r \<longrightarrow> r_terminal_submitted r' \<and>
        r_terminal_owner r' = r_terminal_owner r \<and> r_terminal_attempt r' = r_terminal_attempt r)"

definition delivery_moves :: "row \<Rightarrow> row \<Rightarrow> bool" where
  "delivery_moves r r' \<longleftrightarrow>
     delivery_edge\<^sup>*\<^sup>* (r_result_delivery_status r) (r_result_delivery_status r')"

definition row_evolves :: "row \<Rightarrow> row \<Rightarrow> bool" where
  "row_evolves r r' \<longleftrightarrow>
     request_kept r r' \<and> lease_evolves r r' \<and> finished_kept r r' \<and> terminal_kept r r' \<and>
     delivery_moves r r'"

definition store_evolves :: "store \<Rightarrow> store \<Rightarrow> bool" where
  "store_evolves s s' \<longleftrightarrow>
     (\<forall>j r. find_row j s = Some r \<longrightarrow> (\<exists>r'. find_row j s' = Some r' \<and> row_evolves r r'))"

lemmas evolve_defs =
  request_kept_def lease_evolves_def finished_kept_def terminal_kept_def delivery_moves_def

lemma row_evolves_refl: "row_evolves r r"
  by (simp add: row_evolves_def evolve_defs)

lemma row_evolves_trans:
  assumes "row_evolves r r'" and "row_evolves r' r''"
  shows "row_evolves r r''"
proof -
  have "request_kept r r''" "terminal_kept r r''" "finished_kept r r''"
    using assms unfolding row_evolves_def request_kept_def terminal_kept_def finished_kept_def by simp_all
  moreover have "delivery_moves r r''"
    using assms unfolding row_evolves_def delivery_moves_def by (blast intro: rtranclp_trans)
  moreover have "lease_evolves r r''"
    using assms unfolding row_evolves_def lease_evolves_def by force
  ultimately show ?thesis by (simp add: row_evolves_def)
qed

lemma row_step_request: "row_step r r' \<Longrightarrow> request_kept r r'"
  by (induction rule: row_step.induct) (simp_all add: request_kept_def set_defs)

lemma row_step_lease: "row_step r r' \<Longrightarrow> lease_evolves r r'"
  by (induction rule: row_step.induct) (simp_all add: lease_evolves_def set_defs)

lemma owned_not_finished:
  "lease_ok r \<Longrightarrow> owns_lease j w a r \<Longrightarrow> w \<noteq> '''' \<Longrightarrow> active (r_status r)"
  using lease_ok_owned [of r] by (simp add: owns_lease_def)

lemma row_step_finished: "row_step r r' \<Longrightarrow> lease_ok r \<Longrightarrow> finished_kept r r'"
proof (induction rule: row_step.induct)
  case (lease now r w ttl)
  then show ?case by (auto simp: finished_kept_def leaseable_def)
next
  case (complete j w a r now res)
  then show ?case using owned_not_finished [of r j w a] by (auto simp: finished_kept_def active_def)
next
  case (fail j w a r now e)
  then show ?case using owned_not_finished [of r j w a] by (auto simp: finished_kept_def active_def)
qed (auto simp: finished_kept_def owns_active_lease_def set_defs)

lemma row_step_terminal: "row_step r r' \<Longrightarrow> terminal_kept r r'"
  by (induction rule: row_step.induct) (simp_all add: terminal_kept_def set_defs)

lemma row_step_delivery:
  "row_step r r' \<Longrightarrow> r_result_delivery_status r' = r_result_delivery_status r \<or>
     delivery_edge (r_result_delivery_status r) (r_result_delivery_status r')"
  by (induction rule: row_step.induct) (auto simp add: set_defs fence_defs claimable_def)

lemma row_step_evolves: "row_step r r' \<Longrightarrow> row_ok r \<Longrightarrow> row_evolves r r'"
  unfolding row_evolves_def row_ok_def delivery_moves_def
  using row_step_request row_step_lease row_step_finished row_step_terminal row_step_delivery
  by (metis r_into_rtranclp rtranclp.rtrancl_refl)

lemma find_list_all2:
  "list_all2 row_step rs rs' \<Longrightarrow> find (\<lambda>r. r_job_id r = j) rs = Some r \<Longrightarrow>
     \<exists>r'. find (\<lambda>r. r_job_id r = j) (rs' @ ns) = Some r' \<and> row_step r r'"
  by (induction rule: list_all2_induct) (auto dest: row_step_keys split: if_splits)

lemma rows_refine_find:
  "rows_refine s s' \<Longrightarrow> find_row j s = Some r \<Longrightarrow> \<exists>r'. find_row j s' = Some r' \<and> row_step r r'"
  unfolding rows_refine_def find_row_def by (metis find_list_all2)

lemma store_ok_row: "store_ok s \<Longrightarrow> find_row j s = Some r \<Longrightarrow> row_ok r"
  by (auto simp: store_ok_def dest: find_row_Some)

lemma store_ok_distinct: "store_ok s \<Longrightarrow> distinct (map r_job_id (jobs s))"
  by (simp add: store_ok_def keys_ok_def)

lemma exec_call_row:
  "store_ok s \<Longrightarrow> valid_call c \<Longrightarrow> find_row j s = Some r \<Longrightarrow>
     \<exists>r'. find_row j (exec_call c s) = Some r' \<and> row_step r r'"
  by (rule rows_refine_find [OF exec_call_refines [OF store_ok_distinct]])

interpretation store_hist: evolving_system store_step store_ok store_evolves
proof
  show "store_evolves s s" for s by (simp add: store_evolves_def row_evolves_refl)
  show "store_evolves s t \<Longrightarrow> store_evolves t u \<Longrightarrow> store_evolves s u" for s t u
    unfolding store_evolves_def by (metis row_evolves_trans)
  show "store_ok s \<Longrightarrow> store_step s t \<Longrightarrow> store_evolves s t" for s t
    unfolding store_evolves_def
    by (metis exec_call_row row_step_evolves store_ok_row store_stepE)
qed

lemmas row_history = store_hist.rel_reach [unfolded store_evolves_def, rule_format]

end
