(* ===== verification/Store_Properties.thy ===== *)
theory Store_Properties
  imports Store_Invariants
begin

text \<open>
  The promises of the \<open>Store\<close> interface (pkg/work/store.go), proved of the SQLite store:
  leasing, fencing of superseded lease generations, retry pacing, the terminal slot, the
  delivery ledger, the execution identity and idempotent creation.
\<close>

section \<open>Reading what the store wrote\<close>

lemma parse_col_stamp: "ts_ok t \<Longrightarrow> parse_col what (formatTS t) = Inr t"
  by (simp add: parse_col_def parse_formatTS)

lemma parse_opt_col_stamp: "ts_ok t \<Longrightarrow> parse_opt_col what (Some (formatTS t)) = Inr (Some t)"
  using formatTS_ne [of t] parse_col_stamp [of t what]
  by (cases "formatTS t") (simp_all add: parse_opt_col_def)

lemma parse_opt_col_ok:
  "opt_stamp v \<Longrightarrow> \<exists>w. parse_opt_col what v = Inr w \<and> (v = None \<longleftrightarrow> w = None)"
  by (cases v) (auto simp: opt_stamp_def stamp_def parse_opt_col_stamp, simp add: parse_opt_col_def)

lemma scanJob_ok:
  assumes "stamps_ok r"
  obtains job where "scanJob r = Inr job" "JobID job = r_job_id r" "Attempt job = r_attempt r"
    "LeaseOwner job = r_lease_owner r" "JobStatus job = r_status r"
    "ExecutionID job = r_execution_id r" "RequestedActions job = r_requested_actions r"
    "\<And>t. ts_ok t \<Longrightarrow> r_lease_until r = Some (formatTS t) \<Longrightarrow> LeaseUntil job = Some t"
    "\<And>t. ts_ok t \<Longrightarrow> r_created_at r = formatTS t \<Longrightarrow> CreatedAt job = t"
    "ResultDeliveryClaimToken job = r_result_delivery_claim_token r"
    "ResultDeliveryPayload job = r_result_delivery_payload r"
    "ResultDeliveryAttempts job = r_result_delivery_attempts r"
proof -
  obtain c u where c: "ts_ok c" "r_created_at r = formatTS c" and u: "ts_ok u" "r_updated_at r = formatTS u"
    using assms by (auto simp: stamps_ok_def stamp_def)
  obtain l where l: "parse_opt_col ''lease_until'' (r_lease_until r) = Inr l"
    using assms parse_opt_col_ok unfolding stamps_ok_def by blast
  obtain n where n: "parse_opt_col ''next_attempt_at'' (r_next_attempt_at r) = Inr n"
    using assms parse_opt_col_ok unfolding stamps_ok_def by blast
  have lu: "l = Some t" if "ts_ok t" "r_lease_until r = Some (formatTS t)" for t
    using l that by (simp add: parse_opt_col_stamp)
  have cr: "c = t" if "ts_ok t" "r_created_at r = formatTS t" for t
    using c that by (simp add: formatTS_inject)
  obtain job where job: "scanJob r = Inr job" "LeaseUntil job = l" "CreatedAt job = c"
    and fields: "JobID job = r_job_id r" "Attempt job = r_attempt r"
    "LeaseOwner job = r_lease_owner r" "JobStatus job = r_status r"
    "ExecutionID job = r_execution_id r" "RequestedActions job = r_requested_actions r"
    "ResultDeliveryClaimToken job = r_result_delivery_claim_token r"
    "ResultDeliveryPayload job = r_result_delivery_payload r"
    "ResultDeliveryAttempts job = r_result_delivery_attempts r"
    by (simp add: scanJob_def c(2) u(2) parse_col_stamp [OF c(1)] parse_col_stamp [OF u(1)] l n)
  show thesis by (rule that [OF job(1)]) (use lu cr job fields in auto)
qed

section \<open>Leasing\<close>

lemma GetJob_JobID: "GetJob flt i j s = Inr job \<Longrightarrow> JobID job = j"
  by (auto simp: GetJob_def scanJob_def dest: find_row_Some split: option.splits sum.splits)

lemma GetJob_row:
  "flt i = None \<Longrightarrow> find_row j s = Some r \<Longrightarrow> scanJob r = Inr job \<Longrightarrow> GetJob flt i j s = Inr job"
  by (simp add: GetJob_def)

lemma LeaseJob_result:
  "fst (LeaseJob flt now w ttl s) = Inr job \<Longrightarrow>
     \<exists>r \<in> set (jobs s). leaseable now r \<and> JobID job = r_job_id r"
proof (cases "sort_key r_created_at (filter (leaseable now) (jobs s))")
  case Nil
  moreover assume "fst (LeaseJob flt now w ttl s) = Inr job"
  ultimately show ?thesis by (auto simp: LeaseJob_def split: option.splits)
next
  case (Cons r rs)
  moreover assume "fst (LeaseJob flt now w ttl s) = Inr job"
  moreover have "r \<in> set (filter (leaseable now) (jobs s))" using Cons by (metis list.set_intros(1) set_sort)
  ultimately show ?thesis
    by (auto simp: LeaseJob_def ExecContext_def dest: GetJob_JobID split: option.splits)
qed

lemma LeaseJob_frame:
  assumes d: "distinct (map r_job_id (jobs s))" and r: "find_row j s = Some r" and nl: "\<not> leaseable now r"
  shows "find_row j (snd (LeaseJob flt now w ttl s)) = Some r"
  using LeaseJob_cases [of flt now w ttl s]
proof
  assume "\<exists>r \<in> set (jobs s). leaseable now r \<and>
      r = hd (sort_key r_created_at (filter (leaseable now) (jobs s))) \<and>
      snd (LeaseJob flt now w ttl s) = update_jobs (\<lambda>x. r_job_id x = r_job_id r) (lease_set now w ttl) s"
  then obtain x where x: "x \<in> set (jobs s)" "leaseable now x"
    "snd (LeaseJob flt now w ttl s) = update_jobs (\<lambda>y. r_job_id y = r_job_id x) (lease_set now w ttl) s"
    by blast
  then have "r_job_id x \<noteq> j" using find_row_unique [OF d x(1)] r nl by auto
  then show ?thesis using x(3) r lease_u.find_row_other [of j "r_job_id x"] by simp
qed (use r in simp)

lemma live_lease_not_leaseable:
  "active (r_status r) \<Longrightarrow> r_lease_until r = Some (formatTS u) \<Longrightarrow> ts_ok u \<Longrightarrow> ts_ok now \<Longrightarrow> now \<le> u \<Longrightarrow>
     \<not> leaseable now r"
  by (auto simp: leaseable_def active_def lease_expired_def formatTS_order)

lemma LeaseJob_at:
  assumes ok: "store_ok s" and r: "r = hd (sort_key r_created_at (filter (leaseable now) (jobs s)))"
    and ex: "filter (leaseable now) (jobs s) \<noteq> []" and ts: "ts_ok now" "ts_ok (now + ttl)"
  shows "\<exists>job. LeaseJob no_faults now w ttl s =
      (Inr job, update_jobs (\<lambda>x. r_job_id x = r_job_id r) (lease_set now w ttl) s) \<and>
      scanJob (lease_set now w ttl r) = Inr job \<and> find_row (r_job_id r) s = Some r \<and> leaseable now r"
proof -
  let ?s' = "update_jobs (\<lambda>x. r_job_id x = r_job_id r) (lease_set now w ttl) s"
  obtain rs where rs: "sort_key r_created_at (filter (leaseable now) (jobs s)) = r # rs"
    using r ex by (metis length_0_conv length_sort list.collapse)
  have mem: "r \<in> set (jobs s)" "leaseable now r"
    using hd_sort_key_min [OF ex, of r_created_at] r by auto
  then have f: "find_row (r_job_id r) s = Some r" using find_row_unique [OF store_ok_distinct [OF ok]] by blast
  have f': "find_row (r_job_id r) ?s' = Some (lease_set now w ttl r)"
    using f by (simp add: lease_u.find_row_update)
  have "stamps_ok (lease_set now w ttl r)"
    using store_ok_row [OF ok f] ts by (simp add: row_ok_def stamps_ok_def opt_stamp_def lease_set_def stamp_formatTS)
  then obtain job where job: "scanJob (lease_set now w ttl r) = Inr job" by (rule scanJob_ok)
  have "LeaseJob no_faults now w ttl s = (Inr job, ?s')"
    using rs GetJob_row [OF _ f' job] by (simp add: LeaseJob_def ExecContext_def no_faults_def)
  then show ?thesis using job f mem by blast
qed


text \<open>A request and its row, the concrete input of the witnesses.\<close>

definition demo_request :: JobRequest where
  "demo_request =
     \<lparr>req_JobID = ''job-1'', req_ArtifactKind = ''tool'', req_ImageRepository = ''repo'',
      req_ImageDigest = ''sha256:1'', req_StableRef = ''ref'', req_ToolName = ''bwa'',
      req_Version = ''1'', req_CasHash = ''c1'', req_RequestedActions = [''smoke_run''],
      req_RequestedFixtureSet = '''', req_ValidationRequestID = ''v1''\<rparr>"

definition demo_row :: row where
  "demo_row = new_row (\<lambda>x. x) 0 demo_request"

definition demo_store :: "row \<Rightarrow> store" where
  "demo_store r = \<lparr>jobs = [r], store_meta = []\<rparr>"

lemma demo_store_ok: "row_ok r \<Longrightarrow> store_ok (demo_store r)"
  by (simp add: demo_store_def store_ok_def keys_ok_def)

lemma demo_find: "find_row (r_job_id r) (demo_store r) = Some r"
  by (simp add: demo_store_def find_row_def)

lemma demo_row_fields [simp]:
  "r_job_id demo_row = ''job-1''" "r_status demo_row = StatusQueued" "r_attempt demo_row = 0"
  "r_retry_not_before demo_row = None" "r_lease_owner demo_row = ''''" "\<not> r_terminal_submitted demo_row"
  "r_result_delivery_status demo_row = DeliveryNotApplicable" "r_execution_id demo_row = ''''"
  "\<not> r_execution_terminal demo_row"
  by (simp_all add: demo_row_def new_row_def demo_request_def)

lemma demo_row_ok: "row_ok demo_row"
  by (simp add: demo_row_def row_ok_new ts_ok_def)

text \<open>The row leased to worker \<open>w1\<close> at time 0 for a minute.\<close>

definition demo_leased :: row where
  "demo_leased = lease_set 0 ''w1'' minute demo_row"

lemma demo_leased_step: "row_step demo_row demo_leased"
  unfolding demo_leased_def
  by (rule row_step.lease) (simp_all add: leaseable_def due_for_retry_def ts_ok_def)

lemma demo_leased_ok: "row_ok demo_leased"
  by (rule row_step_ok [OF demo_leased_step demo_row_ok])

lemma demo_leased_fields [simp]:
  "r_job_id demo_leased = ''job-1''" "r_status demo_leased = StatusLeased" "r_attempt demo_leased = 1"
  "r_lease_owner demo_leased = ''w1''" "r_lease_until demo_leased = Some (formatTS minute)"
  "\<not> r_terminal_submitted demo_leased" "r_execution_id demo_leased = ''''"
  by (simp_all add: demo_leased_def lease_set_def)

text \<open>
  C1: in every state the store can reach from an empty table, job ids and validation
  request ids are unique; a leased or running row names an owner, an expiry and an attempt
  of at least one, and every other row names no owner and no expiry; a claim token and its
  expiry exist exactly while a delivery is in flight; only a job whose terminal slot was
  claimed has a delivery record; every timestamp column holds canonical text. This holds
  for every sequence of calls, whatever the database faults.
\<close>

theorem reachable_store_ok:
  assumes "list_all valid_call cs"
  shows "store_ok (run_calls cs empty_store)"
  by (rule store_inv.inv_reach [OF run_calls_reach [OF assms] store_ok_empty])

theorem reachable_store_ok_witness:
  "store_ok (run_calls [CallCreateJob (\<lambda>x. x) no_faults 0 demo_request,
      CallLeaseJob no_faults 1 ''w1'' minute, CallHeartbeat no_faults 2 ''job-1'' ''w1'' 1 minute] empty_store)"
  using reachable_store_ok [of "[CallCreateJob (\<lambda>x. x) no_faults 0 demo_request,
      CallLeaseJob no_faults 1 ''w1'' minute, CallHeartbeat no_faults 2 ''job-1'' ''w1'' 1 minute]"]
  by (simp add: ts_ok_def)

text \<open>
  C2: while a lease has not expired, \<open>LeaseJob\<close> neither returns the job to another worker
  nor changes its row.
\<close>

theorem live_lease_excludes_others:
  assumes ok: "store_ok s" and r: "find_row j s = Some r" and act: "active (r_status r)"
    and u: "r_lease_until r = Some (formatTS u)" "ts_ok u" and now: "ts_ok now" "now \<le> u"
  shows "find_row j (snd (LeaseJob flt now w ttl s)) = Some r \<and>
    (\<forall>job. fst (LeaseJob flt now w ttl s) = Inr job \<longrightarrow> JobID job \<noteq> j)"
proof -
  have nl: "\<not> leaseable now r" by (rule live_lease_not_leaseable [OF act u now])
  moreover have "x = r" if "x \<in> set (jobs s)" "r_job_id x = j" for x
    using find_row_unique [OF store_ok_distinct [OF ok] that(1)] that(2) r by simp
  ultimately show ?thesis
    using LeaseJob_frame [OF store_ok_distinct [OF ok] r nl] LeaseJob_result [of flt now w ttl s] by metis
qed

theorem live_lease_excludes_others_witness:
  "find_row ''job-1'' (snd (LeaseJob no_faults second ''w2'' minute (demo_store demo_leased))) = Some demo_leased"
  using live_lease_excludes_others
    [OF demo_store_ok [OF demo_leased_ok], of "''job-1''" demo_leased minute second no_faults "''w2''" minute]
    demo_find [of demo_leased]
  by (simp add: active_def ts_ok_def)

text \<open>
  C18: with no database fault \<open>LeaseJob\<close> returns \<open>ErrNoAvailableJob\<close> exactly when no job
  is eligible, and otherwise the oldest eligible job, one attempt further, leased to the
  caller until \<open>now + ttl\<close>; a job backing off does not block a younger eligible one, and
  no other row changes.
\<close>

theorem LeaseJob_oldest_eligible:
  assumes ok: "store_ok s" and ts: "ts_ok now" "ts_ok (now + ttl)"
  shows "if \<exists>x \<in> set (jobs s). leaseable now x
    then \<exists>r job s'. LeaseJob no_faults now w ttl s = (Inr job, s') \<and>
      find_row (JobID job) s = Some r \<and> leaseable now r \<and>
      (\<forall>x \<in> set (jobs s). leaseable now x \<longrightarrow> r_created_at r \<le> r_created_at x) \<and>
      JobStatus job = StatusLeased \<and> Attempt job = r_attempt r + 1 \<and> LeaseOwner job = w \<and>
      LeaseUntil job = Some (now + ttl) \<and> find_row (JobID job) s' = Some (lease_set now w ttl r) \<and>
      (\<forall>i. i \<noteq> JobID job \<longrightarrow> find_row i s' = find_row i s)
    else LeaseJob no_faults now w ttl s = (Inl ErrNoAvailableJob, s)"
proof (cases "filter (leaseable now) (jobs s) = []")
  case True
  then have "\<not> (\<exists>x \<in> set (jobs s). leaseable now x)" by (simp add: filter_empty_conv)
  moreover have "LeaseJob no_faults now w ttl s = (Inl ErrNoAvailableJob, s)"
    using True by (simp add: LeaseJob_def no_faults_def)
  ultimately show ?thesis by simp
next
  case False
  define r where "r = hd (sort_key r_created_at (filter (leaseable now) (jobs s)))"
  let ?s' = "update_jobs (\<lambda>x. r_job_id x = r_job_id r) (lease_set now w ttl) s"
  obtain job where job: "LeaseJob no_faults now w ttl s = (Inr job, ?s')"
    "scanJob (lease_set now w ttl r) = Inr job" "find_row (r_job_id r) s = Some r" "leaseable now r"
    using LeaseJob_at [OF ok r_def False ts] by blast
  have "stamps_ok (lease_set now w ttl r)"
    using store_ok_row [OF ok job(3)] ts
    by (simp add: row_ok_def stamps_ok_def opt_stamp_def lease_set_def stamp_formatTS)
  then have f: "JobID job = r_job_id r" "JobStatus job = StatusLeased" "Attempt job = r_attempt r + 1"
    "LeaseOwner job = w" "LeaseUntil job = Some (now + ttl)"
    using job(2) ts(2) by (auto elim!: scanJob_ok simp: lease_set_def)
  have "\<forall>x \<in> set (jobs s). leaseable now x \<longrightarrow> r_created_at r \<le> r_created_at x"
    using hd_sort_key_min [OF False, of r_created_at] by (simp add: r_def)
  moreover have "\<exists>x \<in> set (jobs s). leaseable now x" using False by (auto simp: filter_empty_conv)
  moreover have "find_row (r_job_id r) ?s' = Some (lease_set now w ttl r)"
    using job(3) by (simp add: lease_u.find_row_update)
  moreover have "\<forall>i. i \<noteq> r_job_id r \<longrightarrow> find_row i ?s' = find_row i s"
    using lease_u.find_row_other by blast
  ultimately show ?thesis using job f by auto
qed

theorem LeaseJob_oldest_eligible_witness:
  "\<exists>job s'. LeaseJob no_faults second ''w1'' minute (demo_store demo_row) = (Inr job, s') \<and>
     Attempt job = 1 \<and> LeaseOwner job = ''w1'' \<and> LeaseUntil job = Some (second + minute)"
proof -
  have e: "\<exists>x \<in> set (jobs (demo_store demo_row)). leaseable second x"
    by (simp add: demo_store_def leaseable_def due_for_retry_def)
  have j: "r = demo_row" if "find_row i (demo_store demo_row) = Some r" for i r
    using that by (simp add: find_row_def demo_store_def split: if_splits)
  have ts: "ts_ok second" "ts_ok (second + minute)" by (simp_all add: ts_ok_def)
  obtain r job s' where "LeaseJob no_faults second ''w1'' minute (demo_store demo_row) = (Inr job, s')"
    "find_row (JobID job) (demo_store demo_row) = Some r" "Attempt job = r_attempt r + 1"
    "LeaseOwner job = ''w1''" "LeaseUntil job = Some (second + minute)"
    using LeaseJob_oldest_eligible [OF demo_store_ok [OF demo_row_ok] ts, of "''w1''"] e
    unfolding if_P [OF e] by blast
  moreover from this(2) have "r = demo_row" by (rule j)
  ultimately show ?thesis by auto
qed

section \<open>Fencing of superseded lease generations\<close>

text \<open>
  Generation \<open>(w, a)\<close> of job \<open>j\<close> is over: the row has a later attempt, or the same attempt
  and another owner (none, after a finish or a requeue).
\<close>

definition superseded :: "string \<Rightarrow> string \<Rightarrow> int \<Rightarrow> store \<Rightarrow> bool" where
  "superseded j w a s \<longleftrightarrow>
     (\<exists>r. find_row j s = Some r \<and> (a < r_attempt r \<or> a = r_attempt r \<and> r_lease_owner r \<noteq> w))"

lemma superseded_reach:
  assumes "store_ok s" "superseded j w a s" "w \<noteq> ''''" "store_step\<^sup>*\<^sup>* s t"
  shows "superseded j w a t"
proof -
  obtain r where r: "find_row j s = Some r" "a < r_attempt r \<or> a = r_attempt r \<and> r_lease_owner r \<noteq> w"
    using assms(2) by (auto simp: superseded_def)
  obtain r' where r': "find_row j t = Some r'" "lease_evolves r r'"
    using row_history [OF assms(4,1) r(1)] by (auto simp: row_evolves_def)
  then have "a < r_attempt r' \<or> a = r_attempt r' \<and> r_lease_owner r' \<noteq> w"
    using r(2) assms(3) unfolding lease_evolves_def by force
  with r'(1) show ?thesis by (auto simp: superseded_def)
qed

lemma superseded_not_owner:
  "superseded j w a s \<Longrightarrow> find_row j s = Some r \<Longrightarrow> \<not> owns_lease j w a r \<and> \<not> owns_active_lease j w a r"
  by (auto simp: superseded_def owns_lease_def owns_active_lease_def)

lemma fenced_write:
  assumes "affected P s = 0 \<and> update_jobs P f s = s"
  shows "\<exists>e. (case ExecContext flt 0 m P f s of (Inl e, s') \<Rightarrow> (Inl e, s')
            | (Inr n, s') \<Rightarrow> (ensureAffected flt 1 n, s')) = (Inl e, s) \<and> (flt = no_faults \<longrightarrow> e = ErrNotFound)"
  using assms by (auto simp: ExecContext_def ensureAffected_def RowsAffected_def no_faults_def split: option.splits)

text \<open>
  C3: once a lease generation is superseded, no later \<open>Heartbeat\<close>, \<open>CompleteJob\<close> or
  \<open>FailJob\<close> of it is accepted, in any state any further calls lead to: each returns an
  error (\<open>ErrNotFound\<close> when the database does not fail) and leaves the store as it was.
\<close>

theorem superseded_generation_fenced:
  assumes ok: "store_ok s" and sup: "superseded j w a s" and w: "w \<noteq> ''''" and st: "store_step\<^sup>*\<^sup>* s t"
  shows "(\<exists>e. Heartbeat flt now j w a ttl t = (Inl e, t) \<and> (flt = no_faults \<longrightarrow> e = ErrNotFound)) \<and>
    (\<exists>e. CompleteJob flt now j w a res t = (Inl e, t) \<and> (flt = no_faults \<longrightarrow> e = ErrNotFound)) \<and>
    (\<exists>e. FailJob flt now j w a le retryable d t = (Inl e, t) \<and> (flt = no_faults \<longrightarrow> e = ErrNotFound))"
proof -
  have d: "distinct (map r_job_id (jobs t))"
    using store_inv.inv_reach [OF st ok] by (rule store_ok_distinct)
  note sup' = superseded_not_owner [OF superseded_reach [OF ok sup w st]]
  have n: "\<not> owns_lease j w a r" "\<not> owns_active_lease j w a r" if "find_row j t = Some r" for r
    using sup' that by blast+
  show ?thesis
    unfolding Heartbeat_def CompleteJob_def finishJob_def FailJob_def
    using fenced_write [OF heartbeat_u.no_match [OF d n(2)], of flt]
      fenced_write [OF finish_u.no_match [OF d n(1)], of flt]
      fenced_write [OF requeue_u.no_match [OF d n(2)], of flt]
      fenced_write [OF fail_u.no_match [OF d n(1)], of flt]
    by (cases retryable) (simp_all only: if_True if_False simp_thms)
qed

theorem superseded_generation_fenced_witness:
  "\<exists>e. CompleteJob no_faults second ''job-1'' ''w0'' 1 ''ok'' (demo_store demo_leased)
     = (Inl e, demo_store demo_leased) \<and> e = ErrNotFound"
proof -
  have "superseded ''job-1'' ''w0'' 1 (demo_store demo_leased)"
    using demo_find [of demo_leased] by (simp add: superseded_def)
  from superseded_generation_fenced [OF demo_store_ok [OF demo_leased_ok] this, of "demo_store demo_leased" no_faults second]
  show ?thesis by simp
qed

text \<open>
  C19: the worker that holds the lease of the current attempt is never fenced. Its
  heartbeat moves the row to running and extends the lease to \<open>now + ttl\<close>; its completion
  and its final failure close the job with the result given; each write clears or keeps the
  lease as stated and touches no other row.
\<close>

theorem lease_owner_writes:
  assumes ok: "store_ok s" and r: "find_row j s = Some r" and own: "owns_active_lease j w a r"
  shows "(\<exists>s'. Heartbeat no_faults now j w a ttl s = (Inr (), s') \<and>
      find_row j s' = Some (r\<lparr>r_status := StatusRunning, r_lease_until := Some (formatTS (now + ttl)),
        r_updated_at := formatTS now\<rparr>) \<and> (\<forall>i. i \<noteq> j \<longrightarrow> find_row i s' = find_row i s)) \<and>
    (\<exists>s'. CompleteJob no_faults now j w a res s = (Inr (), s') \<and>
      find_row j s' = Some (r\<lparr>r_status := StatusSucceeded, r_lease_owner := '''', r_lease_until := None,
        r_last_error := '''', r_result_summary := res, r_updated_at := formatTS now\<rparr>) \<and>
      (\<forall>i. i \<noteq> j \<longrightarrow> find_row i s' = find_row i s)) \<and>
    (\<exists>s'. FailJob no_faults now j w a le False d s = (Inr (), s') \<and>
      find_row j s' = Some (r\<lparr>r_status := StatusFailed, r_lease_owner := '''', r_lease_until := None,
        r_last_error := le, r_result_summary := '''', r_updated_at := formatTS now\<rparr>) \<and>
      (\<forall>i. i \<noteq> j \<longrightarrow> find_row i s' = find_row i s))"
proof -
  note d = store_ok_distinct [OF ok]
  have own': "owns_lease j w a r" using own by (simp add: owns_active_lease_def)
  show ?thesis
    using heartbeat_u.match [OF d r own, of now ttl] finish_u.match [OF d r own', of StatusSucceeded "''''" res now]
      fail_u.match [OF d r own', of le now]
    by (simp add: Heartbeat_def CompleteJob_def finishJob_def FailJob_def ExecContext_def no_faults_def
        ensureAffected_def RowsAffected_def heartbeat_set_def finish_set_def fail_set_def)
qed

theorem lease_owner_writes_witness:
  "\<exists>s'. CompleteJob no_faults second ''job-1'' ''w1'' 1 ''ok'' (demo_store demo_leased) = (Inr (), s') \<and>
     map_option r_status (find_row ''job-1'' s') = Some StatusSucceeded"
  using lease_owner_writes [OF demo_store_ok [OF demo_leased_ok], of "''job-1''" demo_leased "''w1''" 1 second]
    demo_find [of demo_leased]
  by (fastforce simp: owns_active_lease_def owns_lease_def)


section \<open>Retry pacing\<close>

lemma requeue_leaseable:
  "in_int64 (now + d) \<Longrightarrow> in_int64 later \<Longrightarrow>
     leaseable later (requeue_set e d now r) \<longleftrightarrow> d \<le> 0 \<or> now + d \<le> later"
  by (auto simp: leaseable_def due_for_retry_def requeue_set_def UnixNano_def)

text \<open>
  C20: a retryable failure reported by the lease owner requeues the job, keeps its attempt
  count, clears the lease, and makes it eligible again exactly from \<open>now + retryDelay\<close> on
  (at once if the delay is not positive): the comparison is on int64 nanoseconds and exact.
\<close>

theorem retryable_failure_paced:
  assumes ok: "store_ok s" and r: "find_row j s = Some r" and own: "owns_active_lease j w a r"
    and ts: "in_int64 (now + d)" "in_int64 later"
  shows "\<exists>s' r'. FailJob no_faults now j w a le True d s = (Inr (), s') \<and> find_row j s' = Some r' \<and>
    r_status r' = StatusQueued \<and> r_attempt r' = r_attempt r \<and> r_lease_owner r' = '''' \<and>
    r_last_error r' = le \<and> (leaseable later r' \<longleftrightarrow> d \<le> 0 \<or> now + d \<le> later)"
proof -
  have m: "affected (owns_active_lease j w a) s = 1"
    "find_row j (update_jobs (owns_active_lease j w a) (requeue_set le d now) s) = Some (requeue_set le d now r)"
    using requeue_u.match [OF store_ok_distinct [OF ok] r own] by blast+
  then have "FailJob no_faults now j w a le True d s =
      (Inr (), update_jobs (owns_active_lease j w a) (requeue_set le d now) s)"
    by (simp add: FailJob_def ExecContext_def no_faults_def ensureAffected_def RowsAffected_def)
  moreover have "r_status (requeue_set le d now r) = StatusQueued" "r_attempt (requeue_set le d now r) = r_attempt r"
    "r_lease_owner (requeue_set le d now r) = ''''" "r_last_error (requeue_set le d now r) = le"
    by (simp_all add: requeue_set_def)
  ultimately show ?thesis using m(2) requeue_leaseable [OF ts] by blast
qed

theorem retryable_failure_paced_witness:
  "\<exists>s' r'. FailJob no_faults second ''job-1'' ''w1'' 1 ''boom'' True second (demo_store demo_leased) = (Inr (), s') \<and>
     find_row ''job-1'' s' = Some r' \<and> \<not> leaseable (2 * second - 1) r'"
proof -
  have f: "find_row ''job-1'' (demo_store demo_leased) = Some demo_leased" using demo_find [of demo_leased] by simp
  have o: "owns_active_lease ''job-1'' ''w1'' 1 demo_leased" by (simp add: owns_active_lease_def owns_lease_def)
  have t: "in_int64 (second + second)" "in_int64 (2 * second - 1)" by (simp_all add: in_int64_def)
  show ?thesis
    using retryable_failure_paced [OF demo_store_ok [OF demo_leased_ok] f o t, of "''boom''"] by auto
qed

text \<open>
  C21: a succeeded or failed job is final. Whatever calls follow, its status, attempt, error
  and summary stay what they are, and \<open>LeaseJob\<close> never returns it.
\<close>

theorem finished_job_final:
  assumes ok: "store_ok s" and r: "find_row j s = Some r" and fin: "r_status r \<in> {StatusSucceeded, StatusFailed}"
    and st: "store_step\<^sup>*\<^sup>* s t"
  shows "(\<exists>r'. find_row j t = Some r' \<and> r_status r' = r_status r \<and> r_attempt r' = r_attempt r \<and>
      r_last_error r' = r_last_error r \<and> r_result_summary r' = r_result_summary r) \<and>
    (\<forall>flt now w ttl job. fst (LeaseJob flt now w ttl t) = Inr job \<longrightarrow> JobID job \<noteq> j)"
proof -
  obtain r' where r': "find_row j t = Some r'" "finished_kept r r'"
    using row_history [OF st ok r] by (auto simp: row_evolves_def)
  have d: "distinct (map r_job_id (jobs t))"
    using store_inv.inv_reach [OF st ok] by (rule store_ok_distinct)
  have "r_status r' = r_status r" using r'(2) fin unfolding finished_kept_def by blast
  then have nl: "\<not> leaseable now r'" for now using fin by (auto simp: leaseable_def)
  have "x = r'" if "x \<in> set (jobs t)" "r_job_id x = j" for x
    using find_row_unique [OF d that(1)] that(2) r'(1) by simp
  then have "\<forall>flt now w ttl job. fst (LeaseJob flt now w ttl t) = Inr job \<longrightarrow> JobID job \<noteq> j"
    using LeaseJob_result nl by metis
  moreover have "r_attempt r' = r_attempt r \<and> r_last_error r' = r_last_error r \<and> r_result_summary r' = r_result_summary r"
    using r'(2) fin unfolding finished_kept_def by blast
  ultimately show ?thesis using r'(1) \<open>r_status r' = r_status r\<close> by blast
qed

definition demo_done :: row where
  "demo_done = finish_set StatusSucceeded '''' ''ok'' second demo_leased"

lemma demo_done_ok: "row_ok demo_done"
proof -
  have "row_step demo_leased demo_done" unfolding demo_done_def
    by (rule row_step.complete [of "''job-1''" "''w1''" 1]) (simp_all add: owns_lease_def ts_ok_def)
  then show ?thesis by (rule row_step_ok [OF _ demo_leased_ok])
qed

theorem finished_job_final_witness:
  "\<exists>r'. find_row ''job-1'' (exec_call (CallLeaseJob no_faults minute ''w2'' minute) (demo_store demo_done)) = Some r' \<and>
     r_status r' = StatusSucceeded"
proof -
  have f: "find_row ''job-1'' (demo_store demo_done) = Some demo_done"
    using demo_find [of demo_done] by (simp add: demo_done_def finish_set_def)
  have s: "r_status demo_done = StatusSucceeded" by (simp add: demo_done_def finish_set_def)
  have v: "store_step\<^sup>*\<^sup>* (demo_store demo_done)
      (exec_call (CallLeaseJob no_faults minute ''w2'' minute) (demo_store demo_done))"
    by (rule r_into_rtranclp, rule store_step.intros) (simp add: ts_ok_def)
  show ?thesis
    using finished_job_final [OF demo_store_ok [OF demo_done_ok] f _ v] s by auto
qed

section \<open>The terminal slot\<close>

text \<open>How many calls of a run won the terminal slot of a job.\<close>

fun terminal_grants :: "string \<Rightarrow> store_call list \<Rightarrow> store \<Rightarrow> nat" where
  "terminal_grants j [] s = 0"
| "terminal_grants j (c # cs) s =
     (case c of
        CallClaimTerminal flt now j' w a \<Rightarrow>
          if j' = j \<and> fst (ClaimTerminal flt now j' w a s) = Inr True then 1 else 0
      | _ \<Rightarrow> 0) + terminal_grants j cs (exec_call c s)"

lemma ClaimTerminal_won:
  assumes "store_ok s" and "fst (ClaimTerminal flt now j w a s) = Inr True"
  obtains r where "find_row j s = Some r" "\<not> r_terminal_submitted r"
    "find_row j (snd (ClaimTerminal flt now j w a s)) = Some (terminal_set w a now r)"
proof -
  have n: "affected (terminal_free j) s = 1" and u: "snd (ClaimTerminal flt now j w a s)
      = update_jobs (terminal_free j) (terminal_set w a now) s"
    using assms(2) by (auto simp: ClaimTerminal_def ExecContext_def RowsAffected_def jobExists_def
        split: option.splits if_splits)
  then obtain r where r: "find_row j s = Some r" "terminal_free j r"
    using terminal_u.no_match [OF store_ok_distinct [OF assms(1)], of j] by (metis zero_neq_one)
  then have "\<not> r_terminal_submitted r" by (simp add: terminal_free_def)
  moreover have "find_row j (snd (ClaimTerminal flt now j w a s)) = Some (terminal_set w a now r)"
    unfolding u using terminal_u.match [OF store_ok_distinct [OF assms(1)] r] by blast
  ultimately show thesis using that r(1) by blast
qed

lemma terminal_grants_taken:
  "store_ok s \<Longrightarrow> find_row j s = Some r \<Longrightarrow> r_terminal_submitted r \<Longrightarrow> list_all valid_call cs \<Longrightarrow>
     terminal_grants j cs s = 0"
proof (induction cs arbitrary: s r)
  case (Cons c cs)
  obtain r' where r': "find_row j (exec_call c s) = Some r'" "row_step r r'"
    using exec_call_row Cons.prems by force
  have "r_terminal_submitted r'" using row_step_terminal [OF r'(2)] Cons.prems(3) by (simp add: terminal_kept_def)
  then have IH: "terminal_grants j cs (exec_call c s) = 0"
    using Cons.IH [OF exec_call_ok r'(1)] Cons.prems by simp
  have "fst (ClaimTerminal flt now j w a s) \<noteq> Inr True" for flt now w a
    using ClaimTerminal_won [OF Cons.prems(1)] Cons.prems(2,3) by (metis option.inject)
  with IH show ?case by (auto split: store_call.splits)
qed simp

text \<open>
  C5: over any run of calls, by any number of workers, at most one \<open>ClaimTerminal\<close> of a job
  returns true, so at most one of them may post the job's terminal result.
\<close>

theorem terminal_slot_granted_once:
  assumes "store_ok s" and "list_all valid_call cs"
  shows "terminal_grants j cs s \<le> 1"
  using assms
proof (induction cs arbitrary: s)
  case (Cons c cs)
  have ok: "store_ok (exec_call c s)" and rest: "list_all valid_call cs"
    using Cons.prems exec_call_ok by auto
  show ?case
  proof (cases "\<exists>flt now w a. c = CallClaimTerminal flt now j w a \<and> fst (ClaimTerminal flt now j w a s) = Inr True")
    case True
    then obtain flt now w a where c: "c = CallClaimTerminal flt now j w a"
      and won: "fst (ClaimTerminal flt now j w a s) = Inr True" by blast
    obtain r where "find_row j (exec_call c s) = Some (terminal_set w a now r)"
      using ClaimTerminal_won [OF Cons.prems(1) won] c by auto
    then have "terminal_grants j cs (exec_call c s) = 0"
      using terminal_grants_taken [OF ok _ _ rest] by (simp add: terminal_set_def)
    then show ?thesis using c won by simp
  next
    case False
    then have "terminal_grants j (c # cs) s = terminal_grants j cs (exec_call c s)"
      by (auto split: store_call.splits)
    then show ?thesis using Cons.IH [OF ok rest] by simp
  qed
qed simp

theorem terminal_slot_granted_once_witness:
  "terminal_grants ''job-1'' [CallClaimTerminal no_faults 1 ''job-1'' ''w1'' 1,
      CallClaimTerminal no_faults 2 ''job-1'' ''w2'' 2] (demo_store demo_leased) \<le> 1 \<and>
   fst (ClaimTerminal no_faults 1 ''job-1'' ''w1'' 1 (demo_store demo_leased)) = Inr True"
  using terminal_slot_granted_once [OF demo_store_ok [OF demo_leased_ok],
      of "[CallClaimTerminal no_faults 1 ''job-1'' ''w1'' 1, CallClaimTerminal no_faults 2 ''job-1'' ''w2'' 2]" "''job-1''"]
  by (simp add: ts_ok_def ClaimTerminal_def ExecContext_def RowsAffected_def no_faults_def affected_def
      terminal_free_def demo_store_def)

section \<open>The delivery ledger\<close>

text \<open>Acknowledged and dead-lettered are final; not-applicable is never entered again.\<close>

lemma delivery_final:
  "delivery_edge\<^sup>*\<^sup>* d d' \<Longrightarrow> d \<in> {DeliveryAcknowledged, DeliveryDeadLetter} \<Longrightarrow> d' = d"
  by (induction rule: rtranclp_induct) auto

lemma delivery_applicable_stays:
  "delivery_edge\<^sup>*\<^sup>* d d' \<Longrightarrow> d \<noteq> DeliveryNotApplicable \<Longrightarrow> d' \<noteq> DeliveryNotApplicable"
  by (induction rule: rtranclp_induct) (auto elim: delivery_edge.cases)

text \<open>
  C22: every call moves the delivery status of a job along an edge of the documented state
  machine or leaves it alone, and once acknowledged or dead-lettered it never changes.
\<close>

theorem delivery_ledger_edges:
  assumes ok: "store_ok s" and r: "find_row j s = Some r"
  shows "(valid_call c \<longrightarrow> (\<exists>r'. find_row j (exec_call c s) = Some r' \<and>
      (r_result_delivery_status r' = r_result_delivery_status r \<or>
       delivery_edge (r_result_delivery_status r) (r_result_delivery_status r')))) \<and>
    (r_result_delivery_status r \<in> {DeliveryAcknowledged, DeliveryDeadLetter} \<longrightarrow> store_step\<^sup>*\<^sup>* s t \<longrightarrow>
      (\<exists>r'. find_row j t = Some r' \<and> r_result_delivery_status r' = r_result_delivery_status r))"
proof (intro conjI impI)
  assume "valid_call c"
  then show "\<exists>r'. find_row j (exec_call c s) = Some r' \<and>
      (r_result_delivery_status r' = r_result_delivery_status r \<or>
       delivery_edge (r_result_delivery_status r) (r_result_delivery_status r'))"
    using exec_call_row [OF ok _ r] row_step_delivery by blast
next
  assume "r_result_delivery_status r \<in> {DeliveryAcknowledged, DeliveryDeadLetter}" "store_step\<^sup>*\<^sup>* s t"
  then show "\<exists>r'. find_row j t = Some r' \<and> r_result_delivery_status r' = r_result_delivery_status r"
    using row_history [OF _ ok r] delivery_final unfolding row_evolves_def delivery_moves_def by metis
qed

theorem delivery_ledger_edges_witness:
  "\<exists>r'. find_row ''job-1'' (exec_call (CallClaimTerminal no_faults 1 ''job-1'' ''w1'' 1) (demo_store demo_leased)) = Some r' \<and>
     (r_result_delivery_status r' = DeliveryNotApplicable \<or>
      delivery_edge DeliveryNotApplicable (r_result_delivery_status r'))"
  using delivery_ledger_edges [OF demo_store_ok [OF demo_leased_ok], of "''job-1''" demo_leased
      "CallClaimTerminal no_faults 1 ''job-1'' ''w1'' 1"] demo_find [of demo_leased]
  by (simp add: ts_ok_def demo_leased_def lease_set_def)

lemma delivery_write:
  "fst (case ExecContext flt 0 m P f s of (Inl e, s') \<Rightarrow> (Inl e, s')
            | (Inr n, s') \<Rightarrow> (ensureDeliveryAffected flt 1 n, s')) = Inr () \<Longrightarrow>
   affected P s \<noteq> 0 \<and> snd (case ExecContext flt 0 m P f s of (Inl e, s') \<Rightarrow> (Inl e, s')
            | (Inr n, s') \<Rightarrow> (ensureDeliveryAffected flt 1 n, s')) = update_jobs P f s"
  by (auto simp: ExecContext_def ensureDeliveryAffected_def RowsAffected_def split: option.splits if_splits)

lemma delivery_fenced:
  assumes "affected P s = 0 \<and> update_jobs P f s = s"
  shows "\<exists>e. (case ExecContext flt 0 m P f s of (Inl e, s') \<Rightarrow> (Inl e, s')
            | (Inr n, s') \<Rightarrow> (ensureDeliveryAffected flt 1 n, s')) = (Inl e, s) \<and>
     (flt = no_faults \<longrightarrow> e = ErrDeliveryFenced)"
  using assms
  by (auto simp: ExecContext_def ensureDeliveryAffected_def RowsAffected_def no_faults_def split: option.splits)

lemma first_delivery_fenced:
  assumes ok: "store_ok s" and r: "find_row j s = Some r"
    and n: "r_result_delivery_status r \<noteq> DeliveryNotApplicable \<or> r_terminal_owner r \<noteq> w \<or> r_terminal_attempt r \<noteq> a"
  shows "(\<exists>e. MarkFirstDeliveryPending flt now j w a p le nx s = (Inl e, s) \<and> (flt = no_faults \<longrightarrow> e = ErrDeliveryFenced)) \<and>
    (\<exists>e. MarkFirstDeliveryDeadLetter flt now j w a p le s = (Inl e, s) \<and> (flt = no_faults \<longrightarrow> e = ErrDeliveryFenced))"
proof -
  have nf: "\<And>x. find_row j s = Some x \<Longrightarrow> \<not> first_delivery_fence j w a x"
    using r n by (auto simp: first_delivery_fence_def)
  show ?thesis unfolding MarkFirstDeliveryPending_def MarkFirstDeliveryDeadLetter_def
    using delivery_fenced [OF first_pending_u.no_match [OF store_ok_distinct [OF ok] nf], of flt]
      delivery_fenced [OF first_dead_u.no_match [OF store_ok_distinct [OF ok] nf], of flt] by simp
qed

lemma first_pending_won:
  assumes "store_ok s" and "MarkFirstDeliveryPending flt now j w a p le nx s = (Inr (), s')"
  shows "\<exists>r. find_row j s = Some r \<and> first_delivery_fence j w a r \<and> find_row j s' = Some (first_pending_set p le nx now r)"
proof -
  note d = store_ok_distinct [OF assms(1)]
  have n: "affected (first_delivery_fence j w a) s \<noteq> 0"
    and s': "s' = update_jobs (first_delivery_fence j w a) (first_pending_set p le nx now) s"
    using assms(2) delivery_write [of flt "''mark first delivery pending''" "first_delivery_fence j w a"
        "first_pending_set p le nx now" s]
    by (simp_all add: MarkFirstDeliveryPending_def)
  obtain r where r: "find_row j s = Some r" "first_delivery_fence j w a r"
    using n first_pending_u.no_match [OF d] by metis
  then show ?thesis unfolding s' using first_pending_u.match [OF d r] by blast
qed

lemma first_dead_won:
  assumes "store_ok s" and "MarkFirstDeliveryDeadLetter flt now j w a p le s = (Inr (), s')"
  shows "\<exists>r. find_row j s = Some r \<and> first_delivery_fence j w a r \<and> find_row j s' = Some (first_dead_set p le now r)"
proof -
  note d = store_ok_distinct [OF assms(1)]
  have n: "affected (first_delivery_fence j w a) s \<noteq> 0"
    and s': "s' = update_jobs (first_delivery_fence j w a) (first_dead_set p le now) s"
    using assms(2) delivery_write [of flt "''mark first delivery dead letter''" "first_delivery_fence j w a"
        "first_dead_set p le now" s]
    by (simp_all add: MarkFirstDeliveryDeadLetter_def)
  obtain r where r: "find_row j s = Some r" "first_delivery_fence j w a r"
    using n first_dead_u.no_match [OF d] by metis
  then show ?thesis unfolding s' using first_dead_u.match [OF d r] by blast
qed

text \<open>Once the ledger of a job is open, no first delivery is recorded for it again.\<close>

lemma open_ledger_fences:
  assumes "store_ok s" and "find_row j s = Some r" and "r_result_delivery_status r \<noteq> DeliveryNotApplicable" and "store_step\<^sup>*\<^sup>* s t"
  shows "(\<exists>e. MarkFirstDeliveryPending flt now j w a p le nx t = (Inl e, t) \<and> (flt = no_faults \<longrightarrow> e = ErrDeliveryFenced)) \<and>
    (\<exists>e. MarkFirstDeliveryDeadLetter flt now j w a p le t = (Inl e, t) \<and> (flt = no_faults \<longrightarrow> e = ErrDeliveryFenced))"
proof -
  obtain r' where r': "find_row j t = Some r'" "r_result_delivery_status r' \<noteq> DeliveryNotApplicable"
    using row_history [OF assms(4,1,2)] delivery_applicable_stays assms(3) by (force simp: row_evolves_def delivery_moves_def)
  show ?thesis by (rule first_delivery_fenced [OF store_inv.inv_reach [OF assms(4,1)] r'(1) disjI1 [OF r'(2)]])
qed

text \<open>
  C23: the outcome of the first delivery is recorded at most once and only by the lease
  generation that won the terminal slot. If recording a pending delivery or a dead letter
  succeeds, the slot was taken, the caller is its recorded owner and attempt, no outcome had
  been recorded, and the row now holds the payload, the error, one more delivery attempt, and
  the status that was asked for. After that every attempt to record either outcome again, by
  anyone and in any later state, is refused and changes nothing; when the database answers,
  the error is \<open>ErrDeliveryFenced\<close>.
\<close>

theorem first_delivery_recorded_once:
  assumes ok: "store_ok s" and ts: "ts_ok now" "ts_ok nx"
    and won: "(Inr (), s') \<in> {MarkFirstDeliveryPending flt now j w a p le nx s, MarkFirstDeliveryDeadLetter flt now j w a p le s}"
    and st: "store_step\<^sup>*\<^sup>* s' t"
  shows "(\<exists>r r'. find_row j s = Some r \<and> r_terminal_submitted r \<and> r_terminal_owner r = w \<and> r_terminal_attempt r = a \<and>
      r_result_delivery_status r = DeliveryNotApplicable \<and> find_row j s' = Some r' \<and>
      r_result_delivery_payload r' = p \<and> r_result_delivery_last_error r' = le \<and>
      r_result_delivery_attempts r' = r_result_delivery_attempts r + 1 \<and>
      (if MarkFirstDeliveryPending flt now j w a p le nx s = (Inr (), s')
       then r_result_delivery_status r' = DeliveryPending \<and> r_next_attempt_at r' = Some (formatTS nx)
       else r_result_delivery_status r' = DeliveryDeadLetter \<and> r_next_attempt_at r' = None)) \<and>
    (\<exists>e. MarkFirstDeliveryPending flt2 now2 j w2 a2 p2 le2 nx2 t = (Inl e, t) \<and> (flt2 = no_faults \<longrightarrow> e = ErrDeliveryFenced)) \<and>
    (\<exists>e. MarkFirstDeliveryDeadLetter flt2 now2 j w2 a2 p2 le2 t = (Inl e, t) \<and> (flt2 = no_faults \<longrightarrow> e = ErrDeliveryFenced))"
proof -
  let ?pending = "MarkFirstDeliveryPending flt now j w a p le nx s = (Inr (), s')"
  obtain r where r: "find_row j s = Some r" "first_delivery_fence j w a r"
    and r': "find_row j s' = Some (if ?pending then first_pending_set p le nx now r else first_dead_set p le now r)"
  proof (cases ?pending)
    case True
    then show ?thesis using first_pending_won [OF ok True] that by auto
  next
    case False
    then have dead: "MarkFirstDeliveryDeadLetter flt now j w a p le s = (Inr (), s')" using won by auto
    then show ?thesis using first_dead_won [OF ok dead] that False by auto
  qed
  have "exec_call (CallMarkFirstDeliveryPending flt now j w a p le nx) s = s' \<or>
      exec_call (CallMarkFirstDeliveryDeadLetter flt now j w a p le) s = s'"
    using won by (metis exec_call.simps insertE singletonD snd_conv)
  then have ok': "store_ok s'"
    using exec_call_ok [OF ok, of "CallMarkFirstDeliveryPending flt now j w a p le nx"]
      exec_call_ok [OF ok, of "CallMarkFirstDeliveryDeadLetter flt now j w a p le"] ts by auto
  have "r_result_delivery_status (if ?pending then first_pending_set p le nx now r else first_dead_set p le now r) \<noteq> DeliveryNotApplicable"
    by (simp add: first_pending_set_def first_dead_set_def)
  note fenced = open_ledger_fences [OF ok' r' this st, of flt2 now2 w2 a2 p2 le2 nx2]
  have "\<exists>r r'. find_row j s = Some r \<and> r_terminal_submitted r \<and> r_terminal_owner r = w \<and> r_terminal_attempt r = a \<and>
      r_result_delivery_status r = DeliveryNotApplicable \<and> find_row j s' = Some r' \<and>
      r_result_delivery_payload r' = p \<and> r_result_delivery_last_error r' = le \<and>
      r_result_delivery_attempts r' = r_result_delivery_attempts r + 1 \<and>
      (if ?pending
       then r_result_delivery_status r' = DeliveryPending \<and> r_next_attempt_at r' = Some (formatTS nx)
       else r_result_delivery_status r' = DeliveryDeadLetter \<and> r_next_attempt_at r' = None)"
    using r r' by (intro exI [of _ r] exI conjI) (auto simp: first_delivery_fence_def first_pending_set_def first_dead_set_def)
  then show ?thesis using fenced by blast
qed

definition demo_claimed :: row where
  "demo_claimed = terminal_set ''w1'' 1 second demo_leased"

lemma demo_claimed_ok: "row_ok demo_claimed"
proof -
  have "row_step demo_leased demo_claimed" unfolding demo_claimed_def
    by (rule row_step.claim_terminal) (simp_all add: ts_ok_def)
  then show ?thesis by (rule row_step_ok [OF _ demo_leased_ok])
qed

lemma demo_claimed_fields [simp]:
  "r_job_id demo_claimed = ''job-1''" "r_terminal_submitted demo_claimed" "r_terminal_owner demo_claimed = ''w1''"
  "r_terminal_attempt demo_claimed = 1" "r_result_delivery_status demo_claimed = DeliveryNotApplicable"
  by (simp_all add: demo_claimed_def terminal_set_def demo_leased_def lease_set_def)

theorem first_delivery_recorded_once_witness:
  "\<exists>s' e. MarkFirstDeliveryDeadLetter no_faults second ''job-1'' ''w1'' 1 ''p'' ''rejected'' (demo_store demo_claimed)
      = (Inr (), s') \<and>
    MarkFirstDeliveryPending no_faults second ''job-1'' ''w1'' 1 ''p'' ''refused'' minute s' = (Inl e, s')"
proof -
  let ?s' = "update_jobs (first_delivery_fence ''job-1'' ''w1'' 1) (first_dead_set ''p'' ''rejected'' second) (demo_store demo_claimed)"
  have w: "MarkFirstDeliveryDeadLetter no_faults second ''job-1'' ''w1'' 1 ''p'' ''rejected'' (demo_store demo_claimed)
      = (Inr (), ?s')"
    by (simp add: MarkFirstDeliveryDeadLetter_def ExecContext_def no_faults_def ensureDeliveryAffected_def
        RowsAffected_def affected_def demo_store_def first_delivery_fence_def)
  then have "(Inr (), ?s') \<in> {MarkFirstDeliveryPending no_faults second ''job-1'' ''w1'' 1 ''p'' ''rejected'' minute (demo_store demo_claimed),
      MarkFirstDeliveryDeadLetter no_faults second ''job-1'' ''w1'' 1 ''p'' ''rejected'' (demo_store demo_claimed)}" by simp
  from first_delivery_recorded_once [OF demo_store_ok [OF demo_claimed_ok] _ _ this rtranclp.rtrancl_refl,
      of no_faults second "''w1''" 1 "''p''" "''refused''" minute]
  show ?thesis using w by (auto simp: ts_ok_def)
qed

end
