(* ===== verification/Store_Claims.thy ===== *)
theory Store_Claims
  imports Store_Properties
begin

text \<open>
  Further promises of the store: exclusive redelivery claims, the execution identity and
  idempotent creation.
\<close>

section \<open>Redelivery claims\<close>

lemma claim_loop_other:
  "claim_loop flt rnd u n k ids s = Inr (out, s') \<Longrightarrow> i \<notin> set ids \<Longrightarrow> find_row i s' = find_row i s"
proof (induction ids arbitrary: k s out)
  case (Cons jid ids)
  then obtain tk out' where "claim_loop flt rnd u n (Suc k) ids
      (update_jobs (\<lambda>r. r_job_id r = jid) (claim_set u tk n) s) = Inr (out', s')"
    by (auto simp: ExecContext_def split: sum.splits option.splits prod.splits)
  from Cons.IH [OF this] Cons.prems(2) show ?case using claim_u.find_row_other [of i jid] by simp
qed simp

definition holds_claim :: "string \<Rightarrow> store \<Rightarrow> Job \<Rightarrow> bool" where
  "holds_claim u s job \<longleftrightarrow>
     (\<exists>r. find_row (JobID job) s = Some r \<and> scanJob r = Inr job \<and>
        redelivery_fence (JobID job) (ResultDeliveryClaimToken job) r \<and>
        r_result_delivery_claimed_until r = Some u)"

lemma scanJob_fields:
  "scanJob r = Inr job \<Longrightarrow> JobID job = r_job_id r \<and>
     ResultDeliveryClaimToken job = r_result_delivery_claim_token r"
  by (auto simp: scanJob_def split: sum.splits)

lemma claim_loop_out:
  "claim_loop flt rnd u n k ids s = Inr (out, s') \<Longrightarrow> distinct ids \<Longrightarrow>
     map JobID out = ids \<and> (\<forall>job \<in> set out. holds_claim u s' job)"
proof (induction ids arbitrary: k s out)
  case (Cons jid ids)
  then obtain tk out' r job where tk: "newClaimToken (rnd k) = Inr tk" and
    loop: "claim_loop flt rnd u n (Suc k) ids (update_jobs (\<lambda>r. r_job_id r = jid) (claim_set u tk n) s) = Inr (out', s')"
    and r: "find_row jid (update_jobs (\<lambda>r. r_job_id r = jid) (claim_set u tk n) s) = Some r"
    and job: "scanJob r = Inr job" and out: "out = job # out'"
    by (auto simp: ExecContext_def split: sum.splits option.splits prod.splits)
  have id: "r_job_id r = jid" using find_row_Some [OF r] by simp
  obtain r0 where r0: "find_row jid s = Some r0" "r = claim_set u tk n r0"
    using r find_row_Some [of jid s] by (auto simp: claim_u.find_row_update)
  have fin: "find_row jid s' = Some r" using claim_loop_other [OF loop] Cons.prems(2) r by simp
  have "redelivery_fence jid tk r" using r0 id newClaimToken_ne [OF tk]
    by (simp add: redelivery_fence_def claim_set_def)
  then have "holds_claim u s' job"
    using scanJob_fields [OF job] id fin job r0 by (auto simp: holds_claim_def claim_set_def)
  with Cons.IH [OF loop] Cons.prems(2) out scanJob_fields [OF job] id show ?case by simp
qed simp

definition claim_selection :: "time \<Rightarrow> int \<Rightarrow> store \<Rightarrow> row list" where
  "claim_selection now lim s = sql_limit lim (sort_key r_updated_at (filter (claimable (formatTS now)) (jobs s)))"

lemma claim_selection_props:
  assumes "distinct (map r_job_id (jobs s))"
  shows "distinct (map r_job_id (claim_selection now lim s))"
    "set (claim_selection now lim s) \<subseteq> {r \<in> set (jobs s). claimable (formatTS now) r}"
    "0 \<le> lim \<Longrightarrow> int (length (claim_selection now lim s)) \<le> lim"
proof -
  let ?l = "sort_key r_updated_at (filter (claimable (formatTS now)) (jobs s))"
  have "distinct (map r_job_id ?l)" using assms by (simp add: distinct_map inj_on_def)
  then show "distinct (map r_job_id (claim_selection now lim s))"
    unfolding claim_selection_def sql_limit_def by (simp add: take_map [symmetric])
  show "set (claim_selection now lim s) \<subseteq> {r \<in> set (jobs s). claimable (formatTS now) r}"
    unfolding claim_selection_def sql_limit_def by (auto dest: in_set_takeD)
  show "0 \<le> lim \<Longrightarrow> int (length (claim_selection now lim s)) \<le> lim"
    unfolding claim_selection_def sql_limit_def by (auto simp: le_nat_iff min_def)
qed

lemma ClaimPendingDeliveries_Inr:
  assumes "ClaimPendingDeliveries flt rnd now lim ttl s = (Inr out, s')"
  shows "claim_loop flt rnd (formatTS (now + ttl)) (formatTS now) 0
      (map r_job_id (claim_selection now lim s)) s = Inr (out, s')"
  using assms
  by (auto simp: ClaimPendingDeliveries_def Let_def claim_selection_def
      split: option.splits if_splits sum.splits prod.splits)

lemma ClaimPendingDeliveries_Inl:
  "ClaimPendingDeliveries flt rnd now lim ttl s = (Inl e, s') \<Longrightarrow> s' = s"
  by (auto simp: ClaimPendingDeliveries_def Let_def split: option.splits if_splits sum.splits prod.splits)

text \<open>
  A successful \<open>ClaimPendingDeliveries\<close> returns at most \<open>limit\<close> jobs, no job twice,
  all of them due, and each returned job carries a nonempty claim token that is the one
  stored, with the claim open until \<open>now + claimTTL\<close>; a failed call changes nothing.
\<close>

theorem claim_batch:
  assumes ok: "store_ok s" and lim: "0 \<le> lim"
  shows "case ClaimPendingDeliveries flt rnd now lim ttl s of
      (Inl _, s') \<Rightarrow> s' = s
    | (Inr out, s') \<Rightarrow> int (length out) \<le> lim \<and> distinct (map JobID out) \<and>
        (\<forall>job \<in> set out. holds_claim (formatTS (now + ttl)) s' job \<and>
           (\<exists>r. find_row (JobID job) s = Some r \<and> claimable (formatTS now) r)) \<and>
        (\<forall>i. i \<notin> JobID ` set out \<longrightarrow> find_row i s' = find_row i s)"
proof (cases "ClaimPendingDeliveries flt rnd now lim ttl s")
  case (Pair res s')
  note d = store_ok_distinct [OF ok]
  show ?thesis
  proof (cases res)
    case (Inl e)
    then show ?thesis using Pair ClaimPendingDeliveries_Inl by simp
  next
    case (Inr out)
    note loop = ClaimPendingDeliveries_Inr [OF Pair [unfolded Inr]]
    note sel = claim_selection_props [OF d]
    have out: "map JobID out = map r_job_id (claim_selection now lim s)"
      "\<forall>job \<in> set out. holds_claim (formatTS (now + ttl)) s' job"
      using claim_loop_out [OF loop sel(1)] by auto
    have "length out = length (claim_selection now lim s)" using out(1) by (metis length_map)
    then have len: "int (length out) \<le> lim" using sel(3) [OF lim, of now] by simp
    have dist: "distinct (map JobID out)" using out(1) sel(1) by simp
    have ids: "JobID ` set out = r_job_id ` set (claim_selection now lim s)"
      using out(1) by (metis list.set_map)
    have due: "\<exists>r. find_row (JobID job) s = Some r \<and> claimable (formatTS now) r" if m: "job \<in> set out" for job
    proof -
      obtain r where "r \<in> set (claim_selection now lim s)" "r_job_id r = JobID job"
        using imageI [OF m, of JobID] unfolding ids by auto
      moreover from this have "r \<in> set (jobs s)" "claimable (formatTS now) r" using sel(2) by auto
      ultimately show ?thesis using find_row_unique [OF d, of r] by auto
    qed
    have "find_row i s' = find_row i s" if "i \<notin> JobID ` set out" for i
      using claim_loop_other [OF loop] that ids by simp
    then show ?thesis using Pair Inr len dist due out(2) by simp
  qed
qed

definition demo_pending :: row where
  "demo_pending = first_pending_set ''p'' ''refused'' second 1 demo_claimed"

lemma demo_pending_ok: "row_ok demo_pending"
proof -
  have "row_step demo_claimed demo_pending" unfolding demo_pending_def
    by (rule row_step.first_pending [of "''job-1''" "''w1''" 1]) (simp_all add: first_delivery_fence_def ts_ok_def)
  then show ?thesis by (rule row_step_ok [OF _ demo_claimed_ok])
qed

theorem claim_batch_witness:
  "case ClaimPendingDeliveries no_faults (\<lambda>_. Inr (\<lambda>i. 7)) minute 10 minute (demo_store demo_pending) of
      (Inl _, s') \<Rightarrow> s' = demo_store demo_pending
    | (Inr out, s') \<Rightarrow> int (length out) \<le> 10"
  using claim_batch [OF demo_store_ok [OF demo_pending_ok], where lim = 10 and
      flt = no_faults and rnd = "\<lambda>_. Inr (\<lambda>i. 7)" and now = minute and ttl = minute]
  by (auto split: prod.splits sum.splits)

lemma open_claim_not_claimable:
  "r_result_delivery_status r = DeliveryDelivering \<Longrightarrow> r_result_delivery_claimed_until r = Some (formatTS u) \<Longrightarrow>
   ts_ok u \<Longrightarrow> ts_ok now \<Longrightarrow> now \<le> u \<Longrightarrow> \<not> claimable (formatTS now) r"
  by (auto simp: claimable_def formatTS_order)

text \<open>
  While a redelivery claim is open, no other claim call returns the job or touches its
  row, whatever its limit.
\<close>

theorem open_claim_exclusive:
  assumes ok: "store_ok s" and r: "find_row j s = Some r"
    and open_claim: "r_result_delivery_status r = DeliveryDelivering"
      "r_result_delivery_claimed_until r = Some (formatTS u)" "ts_ok u"
    and now: "ts_ok now" "now \<le> u"
  shows "find_row j (snd (ClaimPendingDeliveries flt rnd now lim ttl s)) = Some r \<and>
    (\<forall>out. fst (ClaimPendingDeliveries flt rnd now lim ttl s) = Inr out \<longrightarrow> j \<notin> JobID ` set out)"
proof (cases "ClaimPendingDeliveries flt rnd now lim ttl s")
  case (Pair res s')
  note d = store_ok_distinct [OF ok]
  have nc: "\<not> claimable (formatTS now) r" by (rule open_claim_not_claimable [OF open_claim now])
  have nsel: "j \<notin> set (map r_job_id (claim_selection now lim s))"
  proof
    assume "j \<in> set (map r_job_id (claim_selection now lim s))"
    then obtain x where "x \<in> set (claim_selection now lim s)" "r_job_id x = j" by auto
    then show False using claim_selection_props(2) [OF d] find_row_unique [OF d] r nc by force
  qed
  show ?thesis
  proof (cases res)
    case (Inl e)
    then show ?thesis using Pair ClaimPendingDeliveries_Inl [OF Pair [unfolded Inl]] r by simp
  next
    case (Inr out)
    note loop = ClaimPendingDeliveries_Inr [OF Pair [unfolded Inr]]
    have "map JobID out = map r_job_id (claim_selection now lim s)"
      using claim_loop_out [OF loop claim_selection_props(1) [OF d]] by blast
    then have "j \<notin> JobID ` set out" using nsel by (metis list.set_map)
    then show ?thesis using Pair Inr claim_loop_other [OF loop nsel] r by simp
  qed
qed

definition demo_delivering :: row where
  "demo_delivering = claim_set (formatTS (2 * minute)) ''tok'' (formatTS minute) demo_pending"

lemma demo_delivering_ok: "row_ok demo_delivering"
proof -
  have "row_step demo_pending demo_delivering" unfolding demo_delivering_def
    by (rule row_step.claim)
      (simp_all add: claimable_def demo_pending_def first_pending_set_def formatTS_order ts_ok_def)
  then show ?thesis by (rule row_step_ok [OF _ demo_pending_ok])
qed

lemma demo_delivering_fields [simp]:
  "r_job_id demo_delivering = ''job-1''" "r_result_delivery_status demo_delivering = DeliveryDelivering"
  "r_result_delivery_claimed_until demo_delivering = Some (formatTS (2 * minute))"
  "r_result_delivery_claim_token demo_delivering = ''tok''"
  by (simp_all add: demo_delivering_def claim_set_def demo_pending_def first_pending_set_def)

theorem open_claim_exclusive_witness:
  "find_row ''job-1'' (snd (ClaimPendingDeliveries no_faults (\<lambda>_. Inr (\<lambda>i. 7)) (2 * minute) 10 minute
      (demo_store demo_delivering))) = Some demo_delivering"
  using open_claim_exclusive [OF demo_store_ok [OF demo_delivering_ok], of "''job-1''" demo_delivering "2 * minute" "2 * minute"]
    demo_find [of demo_delivering]
  by (simp add: ts_ok_def)

lemma stale_token_fenced:
  assumes d: "distinct (map r_job_id (jobs s))" and r: "find_row j s = Some r" and n: "\<not> redelivery_fence j tk r"
  shows "(\<exists>e. MarkResultDeliveryPending flt now j tk le nx s = (Inl e, s) \<and> (flt = no_faults \<longrightarrow> e = ErrDeliveryFenced)) \<and>
    (\<exists>e. MarkResultDeliveryAcknowledged flt now j tk s = (Inl e, s) \<and> (flt = no_faults \<longrightarrow> e = ErrDeliveryFenced)) \<and>
    (\<exists>e. MarkResultDeliveryDeadLetter flt now j tk le s = (Inl e, s) \<and> (flt = no_faults \<longrightarrow> e = ErrDeliveryFenced))"
proof -
  have nf: "\<And>x. find_row j s = Some x \<Longrightarrow> \<not> redelivery_fence j tk x" using r n by simp
  show ?thesis
    unfolding MarkResultDeliveryPending_def MarkResultDeliveryAcknowledged_def MarkResultDeliveryDeadLetter_def
    using delivery_fenced [OF pending_u.no_match [OF d nf], of flt]
      delivery_fenced [OF ack_u.no_match [OF d nf], of flt]
      delivery_fenced [OF dead_u.no_match [OF d nf], of flt] by simp
qed

text \<open>
  C24: after a claim, only its token can resolve the delivery. A writer holding any other
  token is refused with \<open>ErrDeliveryFenced\<close> and changes nothing; the holder's
  acknowledgement closes the delivery and erases the payload, and its retry keeps the
  payload, counts one more attempt and releases the claim.
\<close>

theorem claim_token_fences:
  assumes ok: "store_ok s" and claim: "ClaimPendingDeliveries flt rnd now lim ttl s = (Inr out, s')"
    and job: "job \<in> set out" and tk: "tk \<noteq> ResultDeliveryClaimToken job"
    and ts: "ts_ok now" "ts_ok (now + ttl)"
  shows "MarkResultDeliveryPending no_faults t1 (JobID job) tk le nx s' = (Inl ErrDeliveryFenced, s') \<and>
    MarkResultDeliveryAcknowledged no_faults t1 (JobID job) tk s' = (Inl ErrDeliveryFenced, s') \<and>
    MarkResultDeliveryDeadLetter no_faults t1 (JobID job) tk le s' = (Inl ErrDeliveryFenced, s') \<and>
    (\<exists>t r. MarkResultDeliveryAcknowledged no_faults t1 (JobID job) (ResultDeliveryClaimToken job) s' = (Inr (), t) \<and>
       find_row (JobID job) t = Some r \<and> r_result_delivery_status r = DeliveryAcknowledged \<and>
       r_result_delivery_payload r = '''') \<and>
    (\<exists>t r. MarkResultDeliveryPending no_faults t1 (JobID job) (ResultDeliveryClaimToken job) le nx s' = (Inr (), t) \<and>
       find_row (JobID job) t = Some r \<and> r_result_delivery_status r = DeliveryPending \<and>
       r_result_delivery_payload r = ResultDeliveryPayload job \<and>
       r_result_delivery_attempts r = ResultDeliveryAttempts job + 1 \<and> r_result_delivery_claim_token r = '''')"
proof -
  let ?j = "JobID job" and ?tk = "ResultDeliveryClaimToken job"
  have ok': "store_ok s'"
    using exec_call_ok [OF ok, of "CallClaimPendingDeliveries flt rnd now lim ttl"] ts claim by simp
  note d = store_ok_distinct [OF ok']
  have "holds_claim (formatTS (now + ttl)) s' job"
    using claim_loop_out [OF ClaimPendingDeliveries_Inr [OF claim] claim_selection_props(1) [OF store_ok_distinct [OF ok]]] job
    by blast
  then obtain r where r: "find_row ?j s' = Some r" "redelivery_fence ?j ?tk r" "scanJob r = Inr job"
    by (auto simp: holds_claim_def)
  have f: "r_result_delivery_payload r = ResultDeliveryPayload job" "r_result_delivery_attempts r = ResultDeliveryAttempts job"
    using r(3) by (auto simp: scanJob_def split: sum.splits)
  have n: "\<not> redelivery_fence ?j tk r" using r(2) tk by (simp add: redelivery_fence_def)
  have stale: "MarkResultDeliveryPending no_faults t1 ?j tk le nx s' = (Inl ErrDeliveryFenced, s')"
    "MarkResultDeliveryAcknowledged no_faults t1 ?j tk s' = (Inl ErrDeliveryFenced, s')"
    "MarkResultDeliveryDeadLetter no_faults t1 ?j tk le s' = (Inl ErrDeliveryFenced, s')"
    using stale_token_fenced [OF d r(1) n, of no_faults t1 le nx] by auto
  have ack: "\<exists>t r. MarkResultDeliveryAcknowledged no_faults t1 ?j ?tk s' = (Inr (), t) \<and>
       find_row ?j t = Some r \<and> r_result_delivery_status r = DeliveryAcknowledged \<and> r_result_delivery_payload r = ''''"
    using ack_u.match [OF d r(1,2), of t1]
    by (simp add: MarkResultDeliveryAcknowledged_def ExecContext_def no_faults_def ensureDeliveryAffected_def
        RowsAffected_def acknowledged_set_def)
  have pend: "\<exists>t r. MarkResultDeliveryPending no_faults t1 ?j ?tk le nx s' = (Inr (), t) \<and>
       find_row ?j t = Some r \<and> r_result_delivery_status r = DeliveryPending \<and>
       r_result_delivery_payload r = ResultDeliveryPayload job \<and>
       r_result_delivery_attempts r = ResultDeliveryAttempts job + 1 \<and> r_result_delivery_claim_token r = ''''"
    using pending_u.match [OF d r(1,2), of le nx t1] f
    by (simp add: MarkResultDeliveryPending_def ExecContext_def no_faults_def ensureDeliveryAffected_def
        RowsAffected_def pending_set_def)
  show ?thesis using stale ack pend by simp
qed


lemma demo_claim:
  "ts_ok (minute + ttl) \<Longrightarrow> \<exists>job s'. ClaimPendingDeliveries no_faults (\<lambda>_. Inr (\<lambda>i. 7)) minute 10 ttl (demo_store demo_pending) = (Inr [job], s')"
proof -
  assume t: "ts_ok (minute + ttl)"
  define tk where "tk = EncodeToString (rand_bytes (\<lambda>i. 7) 16)"
  let ?r = "claim_set (formatTS (minute + ttl)) tk (formatTS minute) demo_pending"
  have f: "r_job_id demo_pending = ''job-1''" "r_result_delivery_status demo_pending = DeliveryPending"
    "r_next_attempt_at demo_pending = Some (formatTS second)"
    by (simp_all add: demo_pending_def first_pending_set_def)
  have c: "claimable (formatTS minute) demo_pending"
    by (simp add: claimable_def f formatTS_order ts_ok_def)
  have "stamps_ok ?r" using demo_pending_ok t
    by (simp add: row_ok_def stamps_ok_def claim_set_def opt_stamp_def stamp_formatTS ts_ok_def)
  then obtain job where job: "scanJob ?r = Inr job" by (rule scanJob_ok)
  show ?thesis
    using c job f by (simp add: ClaimPendingDeliveries_def no_faults_def demo_store_def sql_limit_def newClaimToken_def
        tk_def ExecContext_def update_jobs_def find_row_def claim_set_def)
qed

theorem claim_token_fences_witness:
  "\<exists>job s'. fst (ClaimPendingDeliveries no_faults (\<lambda>_. Inr (\<lambda>i. 7)) minute 10 minute (demo_store demo_pending)) = Inr [job] \<and>
     MarkResultDeliveryAcknowledged no_faults minute (JobID job) ('' '' @ ResultDeliveryClaimToken job) s' = (Inl ErrDeliveryFenced, s')"
proof -
  obtain job s' where c: "ClaimPendingDeliveries no_faults (\<lambda>_. Inr (\<lambda>i. 7)) minute 10 minute (demo_store demo_pending)
      = (Inr [job], s')" using demo_claim [of minute] by (auto simp: ts_ok_def)
  have "MarkResultDeliveryAcknowledged no_faults minute (JobID job) ('' '' @ ResultDeliveryClaimToken job) s'
      = (Inl ErrDeliveryFenced, s')"
    using claim_token_fences [OF demo_store_ok [OF demo_pending_ok] c, of job "'' '' @ ResultDeliveryClaimToken job" minute]
    by (simp add: ts_ok_def)
  then show ?thesis using c by auto
qed

section \<open>The execution identity\<close>

definition same_execution :: "row \<Rightarrow> row \<Rightarrow> bool" where
  "same_execution r r' \<longleftrightarrow>
     r_job_id r' = r_job_id r \<and> r_execution_id r' = r_execution_id r \<and>
     r_execution_terminal r' = r_execution_terminal r"

text \<open>A running execution: an identity was minted and is not terminal.\<close>

definition live_execution :: "string \<Rightarrow> string \<Rightarrow> store \<Rightarrow> bool" where
  "live_execution j i s \<longleftrightarrow>
     (\<exists>r. find_row j s = Some r \<and> r_execution_id r = i \<and> i \<noteq> '''' \<and> \<not> r_execution_terminal r)"

definition retires :: "string \<Rightarrow> string \<Rightarrow> store_call \<Rightarrow> bool" where
  "retires j i c \<longleftrightarrow> (\<exists>flt now. c = CallMarkExecutionTerminal flt now j i)"

lemma find_row_updated:
  "find_row j s = Some r \<Longrightarrow> (\<And>r. r_job_id (f r) = r_job_id r) \<Longrightarrow>
     find_row j (update_jobs P f s) = Some (if P r then f r else r)"
  by (simp add: find_row_update_jobs)

lemma update_live:
  assumes "live_execution j i s" and "\<And>r. r_job_id (f r) = r_job_id r"
    and "\<And>r. find_row j s = Some r \<Longrightarrow> P r \<Longrightarrow> same_execution r (f r)"
  shows "live_execution j i (update_jobs P f s)"
proof -
  obtain r where "find_row j s = Some r" "r_execution_id r = i" "i \<noteq> ''''" "\<not> r_execution_terminal r"
    using assms(1) by (auto simp: live_execution_def)
  then show ?thesis using assms(3) find_row_updated [OF _ assms(2), of j s r P]
    by (auto simp: live_execution_def same_execution_def)
qed

lemma ExecContext_live:
  assumes "live_execution j i s" and "\<And>r. r_job_id (f r) = r_job_id r"
    and "\<And>r. find_row j s = Some r \<Longrightarrow> P r \<Longrightarrow> same_execution r (f r)"
  shows "live_execution j i (snd (ExecContext flt n m P f s))"
  using update_live [OF assms, of P] assms(1) by (auto simp: ExecContext_def split: option.splits)

lemma claim_loop_live:
  "claim_loop flt rnd u n k ids s = Inr (out, s') \<Longrightarrow> live_execution j i s \<Longrightarrow> live_execution j i s'"
proof (induction ids arbitrary: k s out)
  case (Cons jid ids)
  then obtain tk out' where l: "claim_loop flt rnd u n (Suc k) ids
      (update_jobs (\<lambda>r. r_job_id r = jid) (claim_set u tk n) s) = Inr (out', s')"
    by (auto simp: ExecContext_def split: sum.splits option.splits prod.splits)
  show ?case by (rule Cons.IH [OF l], rule update_live [OF Cons.prems(2)])
    (simp_all add: claim_set_def same_execution_def)
qed simp


lemma exec_call_live:
  assumes live: "live_execution j i s" and nr: "\<not> retires j i c"
  shows "live_execution j i (exec_call c s)"
proof (cases c)
  case (CallCreateJob H flt now req)
  have "live_execution j i (s\<lparr>jobs := jobs s @ [x]\<rparr>)" for x
    using live by (auto simp: live_execution_def find_row_def find_append split: option.splits)
  then show ?thesis using CallCreateJob CreateJob_cases [of H flt now req s] live by auto
next
  case (CallLeaseJob flt now w ttl)
  have "live_execution j i (update_jobs (\<lambda>x. r_job_id x = k) (lease_set now w ttl) s)" for k
    by (rule update_live [OF live]) (simp_all add: lease_set_def same_execution_def)
  then show ?thesis using CallLeaseJob LeaseJob_cases [of flt now w ttl s] live by auto
next
  case (CallClaimPendingDeliveries flt rnd now lim ttl)
  then show ?thesis using live claim_loop_live
    by (auto simp: ClaimPendingDeliveries_def Let_def split: option.splits if_splits sum.splits prod.splits)
next
  case (CallEnsureExecution flt rnd now k)
  have "live_execution j i (update_jobs (\<lambda>x. r_job_id x = k) (mint_set n now) s)"
    if "find_row k s = Some r" "r_execution_id r = '''' \<or> r_execution_terminal r" for r n
  proof (rule update_live [OF live])
    show "r_job_id (mint_set n now x) = r_job_id x" for x by (simp add: mint_set_def)
    show "same_execution x (mint_set n now x)" if "find_row j s = Some x" "r_job_id x = k" for x
      using live that \<open>find_row k s = Some r\<close> \<open>r_execution_id r = '''' \<or> r_execution_terminal r\<close>
        find_row_Some [of j s] by (auto simp: live_execution_def)
  qed
  then show ?thesis using CallEnsureExecution EnsureExecution_cases [of flt rnd now k s] live by auto
next
  case (CallMarkExecutionTerminal flt now k e)
  with nr have "k \<noteq> j \<or> e \<noteq> i" by (auto simp: retires_def)
  then have "\<not> current_execution k e x" if "find_row j s = Some x" for x
    using live that find_row_Some [OF that] by (auto simp: live_execution_def current_execution_def)
  then have "live_execution j i (snd (ExecContext flt 0 ''mark execution terminal'' (current_execution k e) (execution_terminal_set now) s))"
    by (intro ExecContext_live [OF live]) (auto simp: execution_terminal_set_def)
  then show ?thesis using CallMarkExecutionTerminal by (simp add: snd_mark_terminal)
next
  case (CallCheckWritable flt now)
  then show ?thesis using live by (auto simp: CheckWritable_def live_execution_def find_row_def split: option.splits)
qed (auto simp: Heartbeat_def CompleteJob_def finishJob_def FailJob_def MarkFirstDeliveryPending_def
    MarkFirstDeliveryDeadLetter_def MarkResultDeliveryPending_def MarkResultDeliveryAcknowledged_def
    MarkResultDeliveryDeadLetter_def snd_claim_terminal set_defs same_execution_def
    intro!: ExecContext_live [OF live])

lemma run_calls_live:
  "live_execution j i s \<Longrightarrow> list_all (\<lambda>c. \<not> retires j i c) cs \<Longrightarrow> live_execution j i (run_calls cs s)"
  by (induction cs arbitrary: s) (auto intro: exec_call_live)

lemma EnsureExecution_live:
  "live_execution j i s \<Longrightarrow> EnsureExecution no_faults rnd now j s = (Inr (i, True), s)"
  by (auto simp: live_execution_def EnsureExecution_def no_faults_def)

lemma EnsureExecution_mints:
  assumes "EnsureExecution flt rnd now j s = (Inr (i, False), s')" and d: "distinct (map r_job_id (jobs s))"
  shows "\<exists>r. find_row j s = Some r \<and> (r_execution_id r = '''' \<or> r_execution_terminal r) \<and> i \<noteq> '''' \<and>
    find_row j s' = Some (mint_set i now r) \<and> live_execution j i s'"
proof -
  obtain r where r: "find_row j s = Some r" "r_execution_id r = '''' \<or> r_execution_terminal r"
    "newExecutionID (rnd 0) (r_attempt r) = Inr i" "s' = update_jobs (\<lambda>x. r_job_id x = j) (mint_set i now) s"
    using assms(1) by (auto simp: EnsureExecution_def ExecContext_def split: option.splits if_splits sum.splits)
  have "find_row j s' = Some (mint_set i now r)"
    using r(1,4) find_row_Some [OF r(1)] by (simp add: mint_u.find_row_update)
  then show ?thesis using r newExecutionID_ne by (auto simp: live_execution_def mint_set_def)
qed


text \<open>
  C4: an execution identity, once minted, is adopted by every later \<open>EnsureExecution\<close> of the
  job, through any calls by any workers (lease expiry, takeover, retries, requeues), until
  \<open>MarkExecutionTerminal\<close> is called with exactly that identity. So a worker that takes a
  job over addresses the Job its predecessor created instead of starting a second one.
\<close>

theorem execution_identity_stable:
  assumes ok: "store_ok s" and mint: "EnsureExecution flt rnd now j s = (Inr (i, False), s')"
    and keep: "list_all (\<lambda>c. \<not> retires j i c) cs"
  shows "EnsureExecution no_faults rnd2 now2 j (run_calls cs s') = (Inr (i, True), run_calls cs s')"
  using EnsureExecution_mints [OF mint store_ok_distinct [OF ok]] run_calls_live [OF _ keep] EnsureExecution_live
  by blast

lemma demo_mint:
  "EnsureExecution no_faults (\<lambda>_. Inr (\<lambda>k. 7)) 1 ''job-1'' (demo_store demo_leased) =
    (Inr (''a1-0707070707070707'', False),
     update_jobs (\<lambda>x. r_job_id x = ''job-1'') (mint_set ''a1-0707070707070707'' 1) (demo_store demo_leased))"
proof -
  have "newExecutionID (Inr (\<lambda>k. 7)) 1 = Inr ''a1-0707070707070707''" by code_simp
  then show ?thesis
    using demo_find [of demo_leased] by (simp add: EnsureExecution_def no_faults_def ExecContext_def)
qed

theorem execution_identity_stable_witness:
  "\<exists>s'. EnsureExecution no_faults (\<lambda>_. Inr (\<lambda>k. 7)) 1 ''job-1'' (demo_store demo_leased)
      = (Inr (''a1-0707070707070707'', False), s') \<and>
    fst (EnsureExecution no_faults (\<lambda>_. Inl ''no entropy'') 3 ''job-1''
      (run_calls [CallLeaseJob no_faults 2 ''w2'' minute] s')) = Inr (''a1-0707070707070707'', True)"
  using demo_mint execution_identity_stable [OF demo_store_ok [OF demo_leased_ok] demo_mint,
      of "[CallLeaseJob no_faults 2 ''w2'' minute]" "\<lambda>_. Inl ''no entropy''" 3]
  by (simp add: retires_def)

text \<open>
  C26: \<open>MarkExecutionTerminal\<close> retires exactly the identity it names. On the current
  identity it succeeds and the next \<open>EnsureExecution\<close> mints a new one; on any other it
  reports \<open>ErrExecutionSuperseded\<close> and changes nothing; on a job that never minted one it
  does nothing; on an unknown job it reports \<open>ErrNotFound\<close>.
\<close>

theorem MarkExecutionTerminal_exact:
  assumes ok: "store_ok s"
  shows "case find_row j s of
      None \<Rightarrow> MarkExecutionTerminal no_faults now j i s = (Inl ErrNotFound, s)
    | Some r \<Rightarrow>
        if r_execution_id r = '''' then MarkExecutionTerminal no_faults now j i s = (Inr (), s)
        else if r_execution_id r \<noteq> i
        then \<exists>detail. MarkExecutionTerminal no_faults now j i s = (Inl (ErrExecutionSuperseded detail), s)
        else \<exists>s'. MarkExecutionTerminal no_faults now j i s = (Inr (), s') \<and>
          find_row j s' = Some (r\<lparr>r_execution_terminal := True, r_updated_at := formatTS now\<rparr>) \<and>
          (\<forall>k. k \<noteq> j \<longrightarrow> find_row k s' = find_row k s) \<and>
          (\<forall>bytes n. \<exists>i' s''. EnsureExecution no_faults (\<lambda>_. Inr bytes) n j s' = (Inr (i', False), s''))"
proof (cases "find_row j s")
  case None
  then have "affected (current_execution j i) s = 0 \<and> update_jobs (current_execution j i) (execution_terminal_set now) s = s"
    using exec_terminal_u.no_match [OF store_ok_distinct [OF ok], of j i now] by simp
  then show ?thesis using None
    by (simp add: MarkExecutionTerminal_def ExecContext_def no_faults_def RowsAffected_def)
next
  case (Some r)
  note d = store_ok_distinct [OF ok]
  have id: "r_job_id r = j" using find_row_Some [OF Some] by simp
  show ?thesis
  proof (cases "current_execution j i r")
    case False
    then have "affected (current_execution j i) s = 0 \<and> update_jobs (current_execution j i) (execution_terminal_set now) s = s"
      using exec_terminal_u.no_match [OF d, of j i now] Some by simp
    then show ?thesis using Some False id
      by (simp add: MarkExecutionTerminal_def ExecContext_def no_faults_def RowsAffected_def current_execution_def)
  next
    case True
    let ?s' = "update_jobs (current_execution j i) (execution_terminal_set now) s"
    have m: "affected (current_execution j i) s = 1" "find_row j ?s' = Some (execution_terminal_set now r)"
      "\<forall>k. k \<noteq> j \<longrightarrow> find_row k ?s' = find_row k s"
      using exec_terminal_u.match [OF d Some True, of now] by blast+
    have "\<exists>i' s''. EnsureExecution no_faults (\<lambda>_. Inr bytes) n j ?s' = (Inr (i', False), s'')" for bytes n
      using m(2) by (simp add: EnsureExecution_def no_faults_def ExecContext_def newExecutionID_def execution_terminal_set_def)
    moreover have "MarkExecutionTerminal no_faults now j i s = (Inr (), ?s')"
      using m(1) by (simp add: MarkExecutionTerminal_def ExecContext_def no_faults_def RowsAffected_def)
    moreover have "i \<noteq> ''''" "r_execution_id r = i" using True by (auto simp: current_execution_def)
    ultimately show ?thesis using Some m(2,3) by (simp add: execution_terminal_set_def)
  qed
qed

theorem MarkExecutionTerminal_exact_witness:
  "MarkExecutionTerminal no_faults 2 ''job-1'' ''a9-x'' (demo_store demo_leased) = (Inr (), demo_store demo_leased)"
  using MarkExecutionTerminal_exact [OF demo_store_ok [OF demo_leased_ok], where j = "''job-1''" and now = 2 and i = "''a9-x''"]
    demo_find [of demo_leased]
  by simp

end
