(* ===== verification/Store_Tenure.thy ===== *)
theory Store_Tenure
  imports Store_Claims
begin

text \<open>
  The tenure of an attempt: its lease stands, or a later attempt has the job. Nothing but
  the attempt's own closing write ends it otherwise.
\<close>

definition overtaken :: "int \<Rightarrow> row \<Rightarrow> bool" where
  "overtaken a r \<longleftrightarrow> a < r_attempt r"

definition in_tenure :: "string \<Rightarrow> string \<Rightarrow> int \<Rightarrow> row \<Rightarrow> bool" where
  "in_tenure j w a r \<longleftrightarrow> overtaken a r \<or> owns_active_lease j w a r"

text \<open>A call that closes the generation \<open>(j, w, a)\<close>.\<close>

fun closes :: "string \<Rightarrow> string \<Rightarrow> int \<Rightarrow> store_call \<Rightarrow> bool" where
  "closes j w a (CallCompleteJob _ _ j' w' a' _) \<longleftrightarrow> j' = j \<and> w' = w \<and> a' = a"
| "closes j w a (CallFailJob _ _ j' w' a' _ _ _) \<longleftrightarrow> j' = j \<and> w' = w \<and> a' = a"
| "closes j w a _ = False"

text \<open>A row of \<open>j\<close> with \<open>K\<close>; what an update must keep of \<open>K\<close>.\<close>

definition row_sat :: "string \<Rightarrow> (row \<Rightarrow> bool) \<Rightarrow> store \<Rightarrow> bool" where
  "row_sat j K s \<longleftrightarrow> (\<exists>r. find_row j s = Some r \<and> K r)"

lemma update_row_sat:
  assumes "row_sat j K s" and "\<And>r. r_job_id (f r) = r_job_id r"
    and "\<And>r. r_job_id r = j \<Longrightarrow> P r \<Longrightarrow> K r \<Longrightarrow> K (f r)"
  shows "row_sat j K (update_jobs P f s)"
proof -
  obtain r where r: "find_row j s = Some r" "K r" using assms(1) by (auto simp: row_sat_def)
  then show ?thesis using assms(3) [of r] find_row_updated [OF r(1) assms(2), of P] find_row_Some [OF r(1)]
    by (auto simp: row_sat_def)
qed

lemma ExecContext_row_sat:
  assumes "row_sat j K s" and "\<And>r. r_job_id (f r) = r_job_id r"
    and "\<And>r. r_job_id r = j \<Longrightarrow> P r \<Longrightarrow> K r \<Longrightarrow> K (f r)"
  shows "row_sat j K (snd (ExecContext flt n m P f s))"
  using update_row_sat [OF assms, of P] assms(1) by (auto simp: ExecContext_def split: option.splits)

lemma append_row_sat: "row_sat j K s \<Longrightarrow> row_sat j K (s\<lparr>jobs := jobs s @ [x]\<rparr>)"
  by (auto simp: row_sat_def find_row_def find_append split: option.splits)

lemma claim_loop_row_sat:
  assumes "claim_loop flt rnd u n k ids s = Inr (out, s')" and "row_sat j K s"
    and "\<And>u tk n r. K r \<Longrightarrow> K (claim_set u tk n r)"
  shows "row_sat j K s'"
  using assms(1,2)
proof (induction ids arbitrary: k s out)
  case (Cons jid ids)
  then obtain tk out' where l: "claim_loop flt rnd u n (Suc k) ids
      (update_jobs (\<lambda>r. r_job_id r = jid) (claim_set u tk n) s) = Inr (out', s')"
    by (auto simp: ExecContext_def split: sum.splits option.splits prod.splits)
  show ?case by (rule Cons.IH [OF l], rule update_row_sat [OF Cons.prems(2)])
    (auto simp: claim_set_def intro: assms(3) [unfolded claim_set_def])
qed simp

lemmas tenure_defs = in_tenure_def overtaken_def fence_defs set_defs

lemma exec_call_tenure:
  assumes t: "row_sat j (in_tenure j w a) s" and nc: "\<not> closes j w a c"
  shows "row_sat j (in_tenure j w a) (exec_call c s)"
proof (cases c)
  case (CallCreateJob H flt now req)
  then show ?thesis using CreateJob_cases [of H flt now req s] t append_row_sat [OF t] by auto
next
  case (CallLeaseJob flt now v ttl)
  have "row_sat j (in_tenure j w a) (update_jobs (\<lambda>x. r_job_id x = k) (lease_set now v ttl) s)" for k
    by (rule update_row_sat [OF t]) (auto simp: tenure_defs)
  then show ?thesis using CallLeaseJob LeaseJob_cases [of flt now v ttl s] t by auto
next
  case (CallClaimPendingDeliveries flt rnd now lim ttl)
  have "row_sat j (in_tenure j w a) s'" if "claim_loop flt rnd u n k ids s = Inr (out, s')" for u n k ids out s'
    using that t by (rule claim_loop_row_sat) (simp add: tenure_defs)
  then show ?thesis using CallClaimPendingDeliveries t
    by (auto simp: ClaimPendingDeliveries_def Let_def split: option.splits if_splits sum.splits prod.splits)
next
  case (CallEnsureExecution flt rnd now k)
  have "row_sat j (in_tenure j w a) (update_jobs (\<lambda>x. r_job_id x = k) (mint_set i now) s)" for i
    by (rule update_row_sat [OF t]) (auto simp: tenure_defs)
  then show ?thesis using CallEnsureExecution EnsureExecution_cases [of flt rnd now k s] t by auto
next
  case (CallCheckWritable flt now)
  then show ?thesis using t by (auto simp: CheckWritable_def row_sat_def find_row_def split: option.splits)
qed (use nc in \<open>auto simp: Heartbeat_def CompleteJob_def finishJob_def FailJob_def MarkFirstDeliveryPending_def
    MarkFirstDeliveryDeadLetter_def MarkResultDeliveryPending_def MarkResultDeliveryAcknowledged_def
    MarkResultDeliveryDeadLetter_def snd_claim_terminal snd_mark_terminal tenure_defs
    intro!: ExecContext_row_sat [OF t] split: prod.splits sum.splits\<close>)

lemma run_calls_tenure:
  "row_sat j (in_tenure j w a) s \<Longrightarrow> list_all (\<lambda>c. \<not> closes j w a c) cs \<Longrightarrow>
     row_sat j (in_tenure j w a) (run_calls cs s)"
  by (induction cs arbitrary: s) (auto intro: exec_call_tenure)

text \<open>An attempt count never falls.\<close>

lemma overtaken_stays:
  assumes "store_step\<^sup>*\<^sup>* s t" and "store_ok s" and "row_sat j (overtaken a) s"
  shows "row_sat j (overtaken a) t"
proof -
  obtain r where r: "find_row j s = Some r" "overtaken a r" using assms(3) by (auto simp: row_sat_def)
  obtain r' where "find_row j t = Some r'" "row_evolves r r'" using row_history [OF assms(1,2) r(1)] by blast
  then show ?thesis using r(2) by (auto simp: row_sat_def overtaken_def row_evolves_def lease_evolves_def)
qed

end
