(* ===== verification/Lease_Protocol.thy ===== *)
theory Lease_Protocol
  imports Store_Tenure
begin

text \<open>
  What the store promises about who works on a job (\<open>work.Store\<close>), as an abstract machine
  with one phase and one lease generation per job, and the refinement of that machine by
  the SQLite store.
\<close>

datatype phase = Waiting | Held string | Closed bool

text \<open>
  The moves of one job under a call. A grant opens a new generation, from the queue or over
  an expired holder; only the holder of the current generation closes the job or hands it
  back; every other call leaves the job where it is.
\<close>

inductive lease_spec :: "store_call \<Rightarrow> string \<Rightarrow> phase \<times> int \<Rightarrow> phase \<times> int \<Rightarrow> bool" where
  idle: "lease_spec c j x x"
| grant: "(\<forall>b. p \<noteq> Closed b) \<Longrightarrow> lease_spec (CallLeaseJob flt now w ttl) j (p, g) (Held w, g + 1)"
| finish: "lease_spec (CallCompleteJob flt now j w g res) j (Held w, g) (Closed True, g)"
| give_up: "lease_spec (CallFailJob flt now j w g e False d) j (Held w, g) (Closed False, g)"
| give_back: "lease_spec (CallFailJob flt now j w g e True d) j (Held w, g) (Waiting, g)"

inductive_cases lease_spec_closed: "lease_spec c j (Closed b, g) y"

lemma closed_final: "lease_spec c j (Closed b, g) y \<Longrightarrow> y = (Closed b, g)"
  by (erule lease_spec_closed) auto

lemma generation_grows: "lease_spec c j x y \<Longrightarrow> snd x \<le> snd y \<and> (snd x < snd y \<longrightarrow> (\<exists>w. fst y = Held w))"
  by (induction rule: lease_spec.induct) auto

fun phase_of :: "Status \<Rightarrow> string \<Rightarrow> phase" where
  "phase_of StatusQueued w = Waiting"
| "phase_of StatusLeased w = Held w"
| "phase_of StatusRunning w = Held w"
| "phase_of StatusSucceeded w = Closed True"
| "phase_of StatusFailed w = Closed False"

definition abs_row :: "row \<Rightarrow> phase \<times> int" where
  "abs_row r = (phase_of (r_status r) (r_lease_owner r), r_attempt r)"

lemma phase_of_active: "active st \<Longrightarrow> phase_of st w = Held w"
  by (auto simp: active_def)

lemma abs_row_kept [simp]:
  "abs_row (first_pending_set p e nx now r) = abs_row r" "abs_row (first_dead_set p e now r) = abs_row r"
  "abs_row (pending_set e nx now r) = abs_row r" "abs_row (acknowledged_set now r) = abs_row r"
  "abs_row (dead_set e now r) = abs_row r" "abs_row (claim_set u tk n r) = abs_row r"
  "abs_row (terminal_set w a now r) = abs_row r" "abs_row (mint_set i now r) = abs_row r"
  "abs_row (execution_terminal_set now r) = abs_row r"
  by (simp_all add: abs_row_def set_defs)

lemma abs_row_heartbeat: "owns_active_lease j w a r \<Longrightarrow> abs_row (heartbeat_set now ttl r) = abs_row r"
  by (auto simp: abs_row_def heartbeat_set_def owns_active_lease_def)

section \<open>The simulation\<close>

lemma ExecContext_row:
  assumes "find_row j s = Some r" and "\<And>r. r_job_id (f r) = r_job_id r"
  shows "\<exists>r'. find_row j (snd (ExecContext flt n m P f s)) = Some r' \<and> (r' = r \<or> P r \<and> r' = f r)"
proof (cases "flt n")
  case None
  then show ?thesis using find_row_updated [OF assms, of P] by (simp add: ExecContext_def)
next
  case (Some e)
  then show ?thesis using assms(1) by (simp add: ExecContext_def)
qed

lemma row_sat_abs:
  "row_sat j (\<lambda>x. abs_row x = abs_row r) t \<Longrightarrow> \<exists>r'. find_row j t = Some r' \<and> lease_spec c j (abs_row r) (abs_row r')"
  by (auto simp: row_sat_def intro: lease_spec.idle)

text \<open>Calls that do not touch the lease.\<close>

lemma ledger_call_idle:
  assumes r: "find_row j s = Some r"
    and c: "\<And>flt now w ttl. c \<noteq> CallLeaseJob flt now w ttl" "\<And>flt now k w a res. c \<noteq> CallCompleteJob flt now k w a res"
      "\<And>flt now k w a e rt d. c \<noteq> CallFailJob flt now k w a e rt d"
  shows "row_sat j (\<lambda>x. abs_row x = abs_row r) (exec_call c s)"
proof -
  have t: "row_sat j (\<lambda>x. abs_row x = abs_row r) s" using r by (simp add: row_sat_def)
  show ?thesis
  proof (cases c)
    case (CallCreateJob H flt now req)
    then show ?thesis using CreateJob_cases [of H flt now req s] t append_row_sat [OF t] by auto
  next
    case (CallClaimPendingDeliveries flt rnd now lim ttl)
    have "row_sat j (\<lambda>x. abs_row x = abs_row r) s'" if "claim_loop flt rnd u n k ids s = Inr (out, s')" for u n k ids out s'
      using that t by (rule claim_loop_row_sat) simp
    then show ?thesis using CallClaimPendingDeliveries t
      by (auto simp: ClaimPendingDeliveries_def Let_def split: option.splits if_splits sum.splits prod.splits)
  next
    case (CallEnsureExecution flt rnd now k)
    have "row_sat j (\<lambda>x. abs_row x = abs_row r) (update_jobs (\<lambda>x. r_job_id x = k) (mint_set i now) s)" for i
      by (rule update_row_sat [OF t]) (auto simp: mint_u.keeps_key)
    then show ?thesis using CallEnsureExecution EnsureExecution_cases [of flt rnd now k s] t by auto
  next
    case (CallCheckWritable flt now)
    then show ?thesis using t by (auto simp: CheckWritable_def row_sat_def find_row_def split: option.splits)
  qed (use c in \<open>auto simp: Heartbeat_def MarkFirstDeliveryPending_def
      MarkFirstDeliveryDeadLetter_def MarkResultDeliveryPending_def MarkResultDeliveryAcknowledged_def
      MarkResultDeliveryDeadLetter_def snd_claim_terminal snd_mark_terminal abs_row_heartbeat
      intro!: ExecContext_row_sat [OF t] split: prod.splits sum.splits\<close>, simp_all add: set_defs)
qed

lemma lease_call_refines:
  assumes ok: "store_ok s" and r: "find_row j s = Some r"
  shows "\<exists>r'. find_row j (snd (LeaseJob flt now w ttl s)) = Some r' \<and>
    lease_spec (CallLeaseJob flt now w ttl) j (abs_row r) (abs_row r')"
proof -
  have "\<exists>r'. find_row j (update_jobs (\<lambda>y. r_job_id y = r_job_id x) (lease_set now w ttl) s) = Some r' \<and>
      lease_spec (CallLeaseJob flt now w ttl) j (abs_row r) (abs_row r')"
    if x: "x \<in> set (jobs s)" "leaseable now x" for x
  proof (cases "r_job_id x = j")
    case True
    then have "x = r" using r find_row_unique [OF store_ok_distinct [OF ok] x(1)] by simp
    then have "lease_spec (CallLeaseJob flt now w ttl) j (abs_row r) (abs_row (lease_set now w ttl r))"
      using x(2) lease_spec.grant [of "phase_of (r_status r) (r_lease_owner r)" flt now w ttl j "r_attempt r"]
      by (auto simp: abs_row_def lease_set_def leaseable_def due_for_retry_def lease_expired_def)
    then show ?thesis using find_row_updated [OF r, of "lease_set now w ttl"] True find_row_Some [OF r]
      by (simp add: lease_set_def)
  next
    case False
    then show ?thesis using find_row_updated [OF r, of "lease_set now w ttl"] find_row_Some [OF r]
      by (auto simp: lease_set_def intro: lease_spec.idle)
  qed
  then show ?thesis using LeaseJob_cases [of flt now w ttl s] r lease_spec.idle by fastforce
qed

lemma closing_call_refines:
  assumes r: "find_row j s = Some r" and ok: "lease_ok r" and "w \<noteq> ''''"
    and f: "\<And>r. r_job_id (f r) = r_job_id r" "\<And>r. r_attempt (f r) = r_attempt r"
    and P: "\<And>r. P r \<Longrightarrow> owns_lease k w a r"
    and spec: "lease_spec c k (Held w, a) (phase_of (r_status (f r)) (r_lease_owner (f r)), a)"
  shows "\<exists>r'. find_row j (snd (ExecContext flt n m P f s)) = Some r' \<and> lease_spec c j (abs_row r) (abs_row r')"
proof -
  have "lease_spec c j (abs_row r) (abs_row (f r))" if "P r"
  proof -
    have o: "owns_lease k w a r" using P that .
    then have "abs_row r = (Held w, a)" "k = j"
      using owned_not_finished [OF ok o \<open>w \<noteq> ''''\<close>] find_row_Some [OF r]
      by (auto simp: abs_row_def phase_of_active owns_lease_def)
    then show ?thesis using spec o f(2) by (simp add: abs_row_def owns_lease_def)
  qed
  then show ?thesis using ExecContext_row [where P = P and f = f, OF r f(1), of flt n m] lease_spec.idle by blast
qed

lemma row_ok_find: "store_ok s \<Longrightarrow> find_row j s = Some r \<Longrightarrow> lease_ok r"
  using find_row_Some [of j s r] by (auto simp: store_ok_def row_ok_def)

text \<open>
  C6: the store implements the lease protocol. Under any call, by anyone, with a fault at
  any database call, every job makes a move the abstract machine allows for that call: a
  grant starts a new generation and is the only way to one; the job is closed or handed
  back only by a call naming its current holder and generation; nothing leaves the closed
  phases. A job that appears is waiting in generation 0.
\<close>

theorem store_refines_lease_spec:
  assumes ok: "store_ok s" and c: "valid_call c"
  shows "case find_row j s of
      Some r \<Rightarrow> \<exists>r'. find_row j (exec_call c s) = Some r' \<and> lease_spec c j (abs_row r) (abs_row r')
    | None \<Rightarrow> (\<forall>r'. find_row j (exec_call c s) = Some r' \<longrightarrow> abs_row r' = (Waiting, 0))"
proof (cases "find_row j s")
  case None
  have "abs_row r' = (Waiting, 0)" if r': "find_row j (exec_call c s) = Some r'" for r'
  proof -
    obtain rs ns where "jobs (exec_call c s) = rs @ ns" "list_all2 row_step (jobs s) rs"
      and ns: "ns = [] \<or> (\<exists>H now req. ns = [new_row H now req])"
      using exec_call_refines [OF store_ok_distinct [OF ok] c] unfolding rows_refine_def by blast
    moreover from this(2) None have "find (\<lambda>r. r_job_id r = j) rs = None"
      unfolding find_row_def by (induction rule: list_all2_induct) (auto dest: row_step_keys split: if_splits)
    ultimately have "r' \<in> set ns" using r' by (auto simp: find_row_def find_append find_Some_iff split: option.splits)
    with ns show ?thesis by (auto simp: abs_row_def new_row_def)
  qed
  with None show ?thesis by simp
next
  case (Some r)
  note lo = row_ok_find [OF ok Some]
  have "\<exists>r'. find_row j (exec_call c s) = Some r' \<and> lease_spec c j (abs_row r) (abs_row r')"
  proof (cases c)
    case (CallLeaseJob flt now w ttl)
    then show ?thesis using lease_call_refines [OF ok Some] by simp
  next
    case (CallCompleteJob flt now k w a res)
    then show ?thesis using c
        closing_call_refines [OF Some lo, where f = "finish_set StatusSucceeded '''' res now" and P = "owns_lease k w a" and k = k and w = w and a = a
          and c = c and flt = flt and n = 0 and m = "''finish job''"]
      by (auto simp: CompleteJob_def finishJob_def finish_set_def lease_spec.finish split: prod.splits sum.splits)
  next
    case (CallFailJob flt now k w a e rt d)
    then show ?thesis using c
        closing_call_refines [OF Some lo, where f = "requeue_set e d now" and P = "owns_active_lease k w a" and k = k and w = w and a = a
          and c = c and flt = flt and n = 0 and m = "''retryable fail''"]
        closing_call_refines [OF Some lo, where f = "fail_set e now" and P = "owns_lease k w a" and k = k and w = w and a = a
          and c = c and flt = flt and n = 0 and m = "''fail job''"]
      by (cases rt) (auto simp: FailJob_def requeue_set_def fail_set_def owns_active_lease_def lease_spec.give_back lease_spec.give_up
          split: prod.splits sum.splits)
  qed (rule row_sat_abs, rule ledger_call_idle [OF Some]; simp)+
  with Some show ?thesis by simp
qed

theorem store_refines_lease_spec_witness:
  "\<exists>r'. find_row ''job-1'' (exec_call (CallCompleteJob no_faults 1 ''job-1'' ''w1'' 1 ''ok'') (demo_store demo_leased)) = Some r' \<and>
     lease_spec (CallCompleteJob no_faults 1 ''job-1'' ''w1'' 1 ''ok'') ''job-1'' (Held ''w1'', 1) (abs_row r')"
  using store_refines_lease_spec [OF demo_store_ok [OF demo_leased_ok],
      of "CallCompleteJob no_faults 1 ''job-1'' ''w1'' 1 ''ok''" "''job-1''"] demo_find [of demo_leased]
  by (simp add: ts_ok_def abs_row_def)

end
