(* ===== verification/Schema.thy ===== *)
theory Schema
  imports Sqlite_Store
begin

text \<open>
  Opening a store (pkg/work/sqlite/store.go: \<open>initSchema\<close>, the \<open>migrate*\<close> functions and
  \<open>normalizeTimestamps\<close>). Here the database is untyped, as an older binary may have left
  it: the declared columns of the jobs table with their defaults, and every row as a map
  from column names to SQL values. A migration is one transaction; the schema text is a
  batch of autocommitted statements. \<open>flt\<close> gives the error of the i-th database call of
  a transaction, if it fails.
\<close>

section \<open>Untyped tables\<close>

datatype sql_value = NULL | TEXT string | INTEGER int

record database =
  jobs_columns :: "(string \<times> sql_value) list option"
  job_rows :: "(string \<Rightarrow> sql_value) list"
  db_indexes :: "string list"
  has_store_meta :: bool

definition col_names :: "database \<Rightarrow> string set" where
  "col_names db = (case jobs_columns db of None \<Rightarrow> {} | Some cs \<Rightarrow> fst ` set cs)"

definition schema_columns :: "(string \<times> sql_value) list" where
  "schema_columns =
    [(''job_id'', NULL), (''artifact_kind'', NULL), (''image_repository'', NULL), (''image_digest'', NULL),
     (''stable_ref'', NULL), (''tool_name'', NULL), (''version'', NULL), (''cas_hash'', NULL),
     (''requested_actions'', NULL), (''requested_fixture_set'', NULL),
     (''validation_request_id'', NULL), (''request_fingerprint'', TEXT ''''),
     (''result_delivery_status'', TEXT ''not_applicable''), (''result_delivery_payload'', TEXT ''''),
     (''result_delivery_attempts'', INTEGER 0), (''result_delivery_last_error'', TEXT ''''),
     (''next_attempt_at'', NULL), (''result_delivery_claimed_until'', NULL),
     (''result_delivery_claim_token'', TEXT ''''), (''terminal_submitted'', INTEGER 0),
     (''terminal_owner'', TEXT ''''), (''terminal_attempt'', INTEGER 0), (''execution_id'', TEXT ''''),
     (''execution_terminal'', INTEGER 0), (''retry_not_before'', NULL), (''status'', NULL),
     (''attempt'', INTEGER 0), (''lease_owner'', TEXT ''''), (''lease_until'', NULL),
     (''last_error'', TEXT ''''), (''result_summary'', TEXT ''''), (''created_at'', NULL), (''updated_at'', NULL)]"

section \<open>Statements\<close>

definition create_jobs_table :: "database \<Rightarrow> database" where
  "create_jobs_table db =
     (case jobs_columns db of None \<Rightarrow> db\<lparr>jobs_columns := Some schema_columns, job_rows := []\<rparr> | Some _ \<Rightarrow> db)"

text \<open>A plain index needs its columns; the unique one also needs unique nonempty values.\<close>

definition create_index :: "string \<Rightarrow> string list \<Rightarrow> database \<Rightarrow> string + database" where
  "create_index name cols db =
     (if name \<in> set (db_indexes db) then Inr db
      else if \<not> set cols \<subseteq> col_names db then Inl ''no such column''
      else Inr (db\<lparr>db_indexes := db_indexes db @ [name]\<rparr>))"

definition indexed_ids :: "database \<Rightarrow> sql_value list" where
  "indexed_ids db =
     filter (\<lambda>v. v \<noteq> NULL \<and> v \<noteq> TEXT '''') (map (\<lambda>r. r ''validation_request_id'') (job_rows db))"

definition create_unique_index :: "string \<Rightarrow> database \<Rightarrow> string + database" where
  "create_unique_index name db =
     (if name \<in> set (db_indexes db) then Inr db
      else if ''validation_request_id'' \<notin> col_names db then Inl ''no such column''
      else if \<not> distinct (indexed_ids db) then Inl ''UNIQUE constraint failed: jobs.validation_request_id''
      else Inr (db\<lparr>db_indexes := db_indexes db @ [name]\<rparr>))"

definition add_column :: "string \<Rightarrow> sql_value \<Rightarrow> database \<Rightarrow> string + database" where
  "add_column name dflt db =
     (case jobs_columns db of
        None \<Rightarrow> Inl ''no such table: jobs''
      | Some cs \<Rightarrow>
          if name \<in> fst ` set cs then Inl (''duplicate column name: '' @ name)
          else Inr (db\<lparr>jobs_columns := Some (cs @ [(name, dflt)]),
                      job_rows := map (\<lambda>r. r(name := dflt)) (job_rows db)\<rparr>))"

text \<open>A statement that may be refused by the driver, with its error prefix.\<close>

definition exec_stmt ::
  "faults \<Rightarrow> nat \<Rightarrow> string \<Rightarrow> (database \<Rightarrow> string + database) \<Rightarrow> database \<Rightarrow> string + database" where
  "exec_stmt flt i what f db =
     (case flt i of
        Some e \<Rightarrow> Inl (what @ '': '' @ e)
      | None \<Rightarrow> (case f db of Inl e \<Rightarrow> Inl (what @ '': '' @ e) | Inr db' \<Rightarrow> Inr db'))"

text \<open>\<open>BeginTx ... Commit\<close> with the deferred rollback.\<close>

definition in_tx ::
  "string \<Rightarrow> faults \<Rightarrow> (database \<Rightarrow> string + database) \<Rightarrow> database \<Rightarrow> (string + unit) \<times> database" where
  "in_tx what flt body db =
     (case flt 0 of
        Some e \<Rightarrow> (Inl (''begin '' @ what @ '' tx: '' @ e), db)
      | None \<Rightarrow>
          (case body db of
             Inl e \<Rightarrow> (Inl e, db)
           | Inr db' \<Rightarrow>
               (case flt 1 of
                  Some e \<Rightarrow> (Inl (''commit '' @ what @ '' tx: '' @ e), db)
                | None \<Rightarrow> (Inr (), db'))))"

section \<open>Migrations\<close>

text \<open>The early return on a match skips \<open>rows.Err\<close>.\<close>

definition hasColumn :: "faults \<Rightarrow> nat \<Rightarrow> string \<Rightarrow> database \<Rightarrow> string + bool" where
  "hasColumn flt i column db =
     (case flt i of
        Some e \<Rightarrow> Inl (''pragma table_info(jobs): '' @ e)
      | None \<Rightarrow>
          if column \<in> col_names db then Inr True
          else case flt (i + 1) of Some e \<Rightarrow> Inl e | None \<Rightarrow> Inr False)"

fun add_columns :: "faults \<Rightarrow> nat \<Rightarrow> (string \<times> sql_value) list \<Rightarrow> database \<Rightarrow> string + database" where
  "add_columns flt i [] db = Inr db"
| "add_columns flt i ((name, dflt) # cols) db =
     (case hasColumn flt i name db of
        Inl e \<Rightarrow> Inl e
      | Inr has \<Rightarrow>
          if has then add_columns flt (i + 3) cols db
          else case exec_stmt flt (i + 2) (''add '' @ name @ '' column'') (add_column name dflt) db of
                 Inl e \<Rightarrow> Inl e
               | Inr db' \<Rightarrow> add_columns flt (i + 3) cols db')"

definition validation_columns :: "(string \<times> sql_value) list" where
  "validation_columns = [(''validation_request_id'', NULL), (''request_fingerprint'', TEXT '''')]"

definition migrateValidationRequestID :: "faults \<Rightarrow> database \<Rightarrow> (string + unit) \<times> database" where
  "migrateValidationRequestID flt =
     in_tx ''migration'' flt (\<lambda>db.
       case add_columns flt 3 validation_columns db of
         Inl e \<Rightarrow> Inl e
       | Inr db' \<Rightarrow> exec_stmt flt 2 ''create validation_request_id index''
                     (create_unique_index ''idx_jobs_validation_request_id'') db')"

definition delivery_columns :: "(string \<times> sql_value) list" where
  "delivery_columns =
    [(''result_delivery_status'', TEXT ''not_applicable''), (''result_delivery_payload'', TEXT ''''),
     (''result_delivery_attempts'', INTEGER 0), (''result_delivery_last_error'', TEXT ''''),
     (''next_attempt_at'', NULL), (''result_delivery_claimed_until'', NULL)]"

definition migrateResultDelivery :: "faults \<Rightarrow> database \<Rightarrow> (string + unit) \<times> database" where
  "migrateResultDelivery flt =
     in_tx ''migration'' flt (\<lambda>db.
       case add_columns flt 3 delivery_columns db of
         Inl e \<Rightarrow> Inl e
       | Inr db' \<Rightarrow> exec_stmt flt 2 ''create result_delivery_status index''
           (create_index ''idx_jobs_result_delivery_status'' [''result_delivery_status'', ''next_attempt_at'']) db')"

definition migrateTerminalSubmitted :: "faults \<Rightarrow> database \<Rightarrow> (string + unit) \<times> database" where
  "migrateTerminalSubmitted flt =
     in_tx ''migration'' flt (add_columns flt 3 [(''terminal_submitted'', INTEGER 0)])"

definition execution_columns :: "(string \<times> sql_value) list" where
  "execution_columns = [(''execution_id'', TEXT ''''), (''execution_terminal'', INTEGER 0)]"

definition migrateExecutionIdentity :: "faults \<Rightarrow> database \<Rightarrow> (string + unit) \<times> database" where
  "migrateExecutionIdentity flt = in_tx ''migration'' flt (add_columns flt 3 execution_columns)"

definition migrateRetryNotBefore :: "faults \<Rightarrow> database \<Rightarrow> (string + unit) \<times> database" where
  "migrateRetryNotBefore flt =
     in_tx ''migration'' flt (\<lambda>db.
       case add_columns flt 3 [(''retry_not_before'', NULL)] db of
         Inl e \<Rightarrow> Inl e
       | Inr db' \<Rightarrow> exec_stmt flt 2 ''create retry_not_before index''
           (create_index ''idx_jobs_status_retry_not_before'' [''status'', ''retry_not_before'']) db')"

definition ownership_columns :: "(string \<times> sql_value) list" where
  "ownership_columns =
    [(''result_delivery_claim_token'', TEXT ''''), (''terminal_owner'', TEXT ''''),
     (''terminal_attempt'', INTEGER 0)]"

definition migrateDeliveryOwnership :: "faults \<Rightarrow> database \<Rightarrow> (string + unit) \<times> database" where
  "migrateDeliveryOwnership flt = in_tx ''migration'' flt (add_columns flt 3 ownership_columns)"

section \<open>Canonical timestamps\<close>

definition timestampColumns :: "string list" where
  "timestampColumns =
    [''created_at'', ''updated_at'', ''lease_until'', ''next_attempt_at'', ''result_delivery_claimed_until'']"

text \<open>
  A text value as \<open>Scan\<close> reads it into a string; NULL and the empty text are not selected.
  The timestamp columns have TEXT affinity, so an integer is stored as its digits.
\<close>

fun scanned :: "sql_value \<Rightarrow> string option" where
  "scanned NULL = None"
| "scanned (TEXT x) = (if x = '''' then None else Some x)"
| "scanned (INTEGER n) = Some (Itoa n)"

fun key_text :: "sql_value \<Rightarrow> string" where
  "key_text NULL = ''''"
| "key_text (TEXT x) = x"
| "key_text (INTEGER n) = Itoa n"

fun nonCanonicalTimestamps :: "string \<Rightarrow> (string \<Rightarrow> sql_value) list \<Rightarrow> string + (string \<times> string) list" where
  "nonCanonicalTimestamps col [] = Inr []"
| "nonCanonicalTimestamps col (r # rs) =
     (case scanned (r col) of
        None \<Rightarrow> nonCanonicalTimestamps col rs
      | Some raw \<Rightarrow>
          (case parseRFC3339Nano raw of
             None \<Rightarrow> Inl (''job '' @ key_text (r ''job_id'') @ '': parse '' @ col @ '' '' @ fmt_q raw)
           | Some ts \<Rightarrow>
               (case nonCanonicalTimestamps col rs of
                  Inl e \<Rightarrow> Inl e
                | Inr fixes \<Rightarrow>
                    Inr (if formatTS ts \<noteq> raw then (key_text (r ''job_id''), formatTS ts) # fixes else fixes))))"

definition rewrite :: "string \<Rightarrow> string \<times> string \<Rightarrow> (string \<Rightarrow> sql_value) list \<Rightarrow> (string \<Rightarrow> sql_value) list" where
  "rewrite col f rows = map (\<lambda>r. if key_text (r ''job_id'') = fst f then r(col := TEXT (snd f)) else r) rows"

fun apply_fixes :: "faults \<Rightarrow> nat \<Rightarrow> string \<Rightarrow> (string \<times> string) list \<Rightarrow> database \<Rightarrow> string + database" where
  "apply_fixes flt i col [] db = Inr db"
| "apply_fixes flt i col (f # fixes) db =
     (case flt i of
        Some e \<Rightarrow> Inl (''rewrite '' @ col @ '' for job '' @ fst f @ '': '' @ e)
      | None \<Rightarrow> apply_fixes flt (Suc i) col fixes (db\<lparr>job_rows := rewrite col f (job_rows db)\<rparr>))"

definition normalizeColumn :: "faults \<Rightarrow> string \<Rightarrow> database \<Rightarrow> string + database" where
  "normalizeColumn flt col db =
     (case flt 0 of
        Some e \<Rightarrow> Inl (''select '' @ col @ '': '' @ e)
      | None \<Rightarrow>
     (case nonCanonicalTimestamps col (job_rows db) of
        Inl e \<Rightarrow> Inl e
      | Inr fixes \<Rightarrow>
     (case flt 1 of
        Some e \<Rightarrow> Inl (''iterate '' @ col @ '': '' @ e)
      | None \<Rightarrow> apply_fixes flt 2 col fixes db)))"

fun normalize_columns :: "(nat \<Rightarrow> faults) \<Rightarrow> nat \<Rightarrow> string list \<Rightarrow> database \<Rightarrow> string + database" where
  "normalize_columns flt k [] db = Inr db"
| "normalize_columns flt k (col # cols) db =
     (case normalizeColumn (flt k) col db of
        Inl e \<Rightarrow> Inl e
      | Inr db' \<Rightarrow> normalize_columns flt (Suc k) cols db')"

text \<open>\<open>flt 0\<close> is the transaction's own calls, \<open>flt (1 + k)\<close> those on the k-th column.\<close>

definition normalizeTimestamps :: "(nat \<Rightarrow> faults) \<Rightarrow> database \<Rightarrow> (string + unit) \<times> database" where
  "normalizeTimestamps flt = in_tx ''normalize'' (flt 0) (normalize_columns flt 1 timestampColumns)"

section \<open>Opening\<close>

text \<open>The schema batch: each statement commits on its own.\<close>

fun exec_batch :: "faults \<Rightarrow> nat \<Rightarrow> (database \<Rightarrow> string + database) list \<Rightarrow> database \<Rightarrow> (string + unit) \<times> database" where
  "exec_batch flt i [] db = (Inr (), db)"
| "exec_batch flt i (f # fs) db =
     (case exec_stmt flt i ''init schema'' f db of
        Inl e \<Rightarrow> (Inl e, db)
      | Inr db' \<Rightarrow> exec_batch flt (Suc i) fs db')"

definition schema_batch :: "(database \<Rightarrow> string + database) list" where
  "schema_batch =
    [\<lambda>db. Inr (create_jobs_table db),
     create_index ''idx_jobs_status_updated_at'' [''status'', ''updated_at''],
     create_index ''idx_jobs_lease_until'' [''lease_until''],
     \<lambda>db. Inr (db\<lparr>has_store_meta := True\<rparr>)]"

fun run_migrations ::
  "(string \<times> (database \<Rightarrow> (string + unit) \<times> database)) list \<Rightarrow> database \<Rightarrow> (string + unit) \<times> database" where
  "run_migrations [] db = (Inr (), db)"
| "run_migrations ((what, m) # ms) db =
     (case m db of
        (Inl e, db') \<Rightarrow> (Inl (what @ '': '' @ e), db')
      | (Inr _, db') \<Rightarrow> run_migrations ms db')"

definition migrations :: "(nat \<Rightarrow> faults) \<Rightarrow> (string \<times> (database \<Rightarrow> (string + unit) \<times> database)) list" where
  "migrations flt =
    [(''migrate validation_request_id'', migrateValidationRequestID (flt 1)),
     (''migrate result_delivery'', migrateResultDelivery (flt 2)),
     (''migrate terminal_submitted'', migrateTerminalSubmitted (flt 3)),
     (''migrate execution_identity'', migrateExecutionIdentity (flt 4)),
     (''migrate retry_not_before'', migrateRetryNotBefore (flt 5)),
     (''migrate delivery ownership'', migrateDeliveryOwnership (flt 6)),
     (''normalize timestamps'', normalizeTimestamps (\<lambda>k. flt (7 + k)))]"

definition initSchema :: "(nat \<Rightarrow> faults) \<Rightarrow> database \<Rightarrow> (string + unit) \<times> database" where
  "initSchema flt db =
     (case exec_batch (flt 0) 0 schema_batch db of
        (Inl e, db') \<Rightarrow> (Inl e, db')
      | (Inr _, db') \<Rightarrow> run_migrations (migrations flt) db')"

section \<open>Migrations add what is missing and nothing else\<close>

definition clean :: "nat \<Rightarrow> faults" where "clean = (\<lambda>_. no_faults)"

definition add_col :: "string \<times> sql_value \<Rightarrow> database \<Rightarrow> database" where
  "add_col c db =
     (case jobs_columns db of
        None \<Rightarrow> db
      | Some cs \<Rightarrow> if fst c \<in> fst ` set cs then db
                   else db\<lparr>jobs_columns := Some (cs @ [c]), job_rows := map (\<lambda>r. r(fst c := snd c)) (job_rows db)\<rparr>)"

lemma add_columns_fold:
  "jobs_columns db \<noteq> None \<Longrightarrow> add_columns no_faults i cols db = Inr (fold add_col cols db)"
proof (induction cols arbitrary: i db)
  case (Cons c cols)
  obtain name dflt where c: "c = (name, dflt)" by fastforce
  obtain cs where cs: "jobs_columns db = Some cs" using Cons.prems by blast
  have ne: "jobs_columns (add_col c db) \<noteq> None" using cs by (simp add: add_col_def)
  show ?case
  proof (cases "name \<in> fst ` set cs")
    case True
    then have "add_col c db = db" by (simp add: add_col_def cs c)
    with True show ?thesis using Cons.IH [OF Cons.prems] by (simp add: c hasColumn_def col_names_def cs)
  next
    case False
    then have "add_column name dflt db = Inr (add_col c db)" by (simp add: add_column_def add_col_def cs c)
    with False show ?thesis using Cons.IH [OF ne] by (simp add: c hasColumn_def col_names_def cs exec_stmt_def)
  qed
qed simp

lemma col_names_add_col: "jobs_columns db \<noteq> None \<Longrightarrow> col_names (add_col c db) = insert (fst c) (col_names db)"
proof -
  assume "jobs_columns db \<noteq> None"
  then obtain cs where cs: "jobs_columns db = Some cs" by blast
  show ?thesis by (cases "fst c \<in> fst ` set cs") (auto simp: add_col_def col_names_def cs)
qed

lemma fold_add_col:
  "jobs_columns db \<noteq> None \<Longrightarrow> distinct (map fst cols) \<Longrightarrow>
     jobs_columns (fold add_col cols db) \<noteq> None \<and>
     col_names (fold add_col cols db) = col_names db \<union> fst ` set cols \<and>
     db_indexes (fold add_col cols db) = db_indexes db \<and>
     has_store_meta (fold add_col cols db) = has_store_meta db \<and>
     job_rows (fold add_col cols db) = map (\<lambda>r n. if n \<in> col_names db then r n
        else case map_of cols n of None \<Rightarrow> r n | Some v \<Rightarrow> v) (job_rows db)"
proof (induction cols arbitrary: db)
  case Nil
  then show ?case by (simp add: map_idI fun_eq_iff)
next
  case (Cons c cols)
  have ne: "jobs_columns (add_col c db) \<noteq> None" using Cons.prems(1) by (auto simp: add_col_def)
  have names: "col_names (add_col c db) = insert (fst c) (col_names db)"
    using col_names_add_col [OF Cons.prems(1)] .
  have rows: "job_rows (add_col c db) =
      map (\<lambda>r n. if n \<in> col_names db then r n else if n = fst c then snd c else r n) (job_rows db)"
  proof -
    obtain cs where cs: "jobs_columns db = Some cs" using Cons.prems(1) by blast
    show ?thesis
    proof (cases "fst c \<in> fst ` set cs")
      case True
      then have "(\<lambda>r n. if n \<in> col_names db then r n else if n = fst c then snd c else r n) = (\<lambda>r. r)"
        by (auto simp: col_names_def cs fun_eq_iff)
      with True show ?thesis by (simp add: add_col_def cs)
    qed (auto simp: add_col_def col_names_def cs fun_eq_iff)
  qed
  have frame: "db_indexes (add_col c db) = db_indexes db" "has_store_meta (add_col c db) = has_store_meta db"
    by (auto simp: add_col_def split: option.splits)
  have fresh: "map_of cols (fst c) = None" using Cons.prems(2) by (simp add: map_of_eq_None_iff)
  have dc: "distinct (map fst cols)" using Cons.prems(2) by simp
  note IH = Cons.IH [OF ne dc]
  have mo: "map_of (c # cols) n = (if n = fst c then Some (snd c) else map_of cols n)" for n by (cases c) auto
  have "job_rows (fold add_col (c # cols) db) = map (\<lambda>r n. if n \<in> col_names db then r n
        else case map_of (c # cols) n of None \<Rightarrow> r n | Some v \<Rightarrow> v) (job_rows db)"
    using IH fresh by (auto simp: names rows mo fun_eq_iff)
  then show ?case using IH by (simp add: names frame)
qed

definition add_index :: "string \<Rightarrow> database \<Rightarrow> database" where
  "add_index name db = (if name \<in> set (db_indexes db) then db else db\<lparr>db_indexes := db_indexes db @ [name]\<rparr>)"

lemma add_index_fields [simp]:
  "jobs_columns (add_index n db) = jobs_columns db" "job_rows (add_index n db) = job_rows db"
  "col_names (add_index n db) = col_names db" "has_store_meta (add_index n db) = has_store_meta db"
  "n \<in> set (db_indexes (add_index n db))" "set (db_indexes db) \<subseteq> set (db_indexes (add_index n db))"
  by (auto simp: add_index_def col_names_def)

lemma create_index_add: "set cols \<subseteq> col_names db \<Longrightarrow> create_index name cols db = Inr (add_index name db)"
  by (simp add: create_index_def add_index_def)

lemma create_unique_index_add:
  "''validation_request_id'' \<in> col_names db \<Longrightarrow> distinct (indexed_ids db) \<Longrightarrow>
     create_unique_index name db = Inr (add_index name db)"
  by (simp add: create_unique_index_def add_index_def)

lemma in_tx_clean: "body db = Inr db' \<Longrightarrow> in_tx what no_faults body db = (Inr (), db')"
  by (simp add: in_tx_def)

lemma fold_add_col_present: "fst ` set cols \<subseteq> col_names db \<Longrightarrow> fold add_col cols db = db"
proof (induction cols)
  case (Cons c cols)
  then have "add_col c db = db" by (auto simp: add_col_def col_names_def split: option.splits)
  with Cons show ?case by simp
qed simp

text \<open>What one migration with columns \<open>cols\<close> and index \<open>name\<close> does, whatever was there.\<close>

lemma migrate_index_clean:
  assumes "jobs_columns db \<noteq> None" and "distinct (map fst cols)"
    and "set icols \<subseteq> col_names db \<union> fst ` set cols"
  shows "in_tx ''migration'' no_faults (\<lambda>db.
       case add_columns no_faults i cols db of Inl e \<Rightarrow> Inl e
       | Inr db' \<Rightarrow> exec_stmt no_faults k what (create_index name icols) db') db
     = (Inr (), add_index name (fold add_col cols db))"
  using assms fold_add_col [OF assms(1,2)]
  by (intro in_tx_clean) (simp add: add_columns_fold exec_stmt_def create_index_add)

section \<open>Rewriting timestamps\<close>

definition norm_value :: "sql_value \<Rightarrow> sql_value" where
  "norm_value v =
     (case scanned v of
        None \<Rightarrow> v
      | Some raw \<Rightarrow>
          (case parseRFC3339Nano raw of
             None \<Rightarrow> v
           | Some t \<Rightarrow> if formatTS t \<noteq> raw then TEXT (formatTS t) else v))"

text \<open>A timestamp value that reads as an instant of the years 0 to 9999, if it is set.\<close>

definition parses :: "sql_value \<Rightarrow> bool" where
  "parses v =
     (case scanned v of
        None \<Rightarrow> True
      | Some raw \<Rightarrow> (case parseRFC3339Nano raw of None \<Rightarrow> False | Some t \<Rightarrow> ts_ok t))"

definition row_key :: "(string \<Rightarrow> sql_value) \<Rightarrow> string" where
  "row_key r = key_text (r ''job_id'')"

definition row_fix :: "string \<Rightarrow> (string \<Rightarrow> sql_value) \<Rightarrow> (string \<times> string) list" where
  "row_fix col r =
     (case scanned (r col) of
        None \<Rightarrow> []
      | Some raw \<Rightarrow>
          (case parseRFC3339Nano raw of
             None \<Rightarrow> []
           | Some t \<Rightarrow> if formatTS t \<noteq> raw then [(row_key r, formatTS t)] else []))"

lemma nonCanonical_fixes:
  "\<forall>r \<in> set rs. parses (r col) \<Longrightarrow> nonCanonicalTimestamps col rs = Inr (concat (map (row_fix col) rs))"
  by (induction rs) (auto simp: row_fix_def parses_def row_key_def split: option.splits)

lemma apply_fixes_clean:
  "apply_fixes no_faults i col fs db = Inr (db\<lparr>job_rows := fold (rewrite col) fs (job_rows db)\<rparr>)"
  by (induction fs arbitrary: i db) simp_all

definition fix_row :: "string \<Rightarrow> string \<times> string \<Rightarrow> (string \<Rightarrow> sql_value) \<Rightarrow> (string \<Rightarrow> sql_value)" where
  "fix_row col f r = (if row_key r = fst f then r(col := TEXT (snd f)) else r)"

lemma fold_rewrite: "fold (rewrite col) fs rows = map (fold (fix_row col) fs) rows"
  by (induction fs arbitrary: rows) (simp_all add: rewrite_def fix_row_def row_key_def comp_def)

lemma fold_fix_other:
  "col \<noteq> ''job_id'' \<Longrightarrow> row_key r \<notin> fst ` set fs \<Longrightarrow> fold (fix_row col) fs r = r"
  by (induction fs) (auto simp: fix_row_def)

lemma row_fix_keys: "fst ` set (row_fix col r) \<subseteq> {row_key r}"
  by (auto simp: row_fix_def split: option.splits if_splits)

lemma fold_fix_own: "fold (fix_row col) (row_fix col r) r = r(col := norm_value (r col))"
  by (auto simp: row_fix_def fix_row_def norm_value_def split: option.splits)

lemma fold_fix_all:
  assumes col: "col \<noteq> ''job_id''" and d: "distinct (map row_key rows)" and r: "r \<in> set rows"
  shows "fold (fix_row col) (concat (map (row_fix col) rows)) r = r(col := norm_value (r col))"
proof -
  obtain xs ys where rows: "rows = xs @ r # ys" using r by (meson split_list)
  have other: "row_key r' \<notin> fst ` set (concat (map (row_fix col) zs))"
    if k: "row_key r' = row_key r" and sub: "set zs \<subseteq> set xs \<union> set ys" for zs r'
  proof
    assume "row_key r' \<in> fst ` set (concat (map (row_fix col) zs))"
    then obtain z f where z: "z \<in> set zs" "f \<in> set (row_fix col z)" "fst f = row_key r" using k by auto
    then have "row_key z = row_key r" using row_fix_keys [of col z] by auto
    moreover have "row_key r \<notin> row_key ` (set xs \<union> set ys)" using d by (auto simp: rows)
    ultimately show False using z(1) sub by (metis imageI subsetD)
  qed
  have "row_key (r(col := norm_value (r col))) = row_key r" using col by (simp add: row_key_def)
  then show ?thesis
    by (simp add: rows fold_fix_other [OF col other] fold_fix_own)
qed

lemma normalizeColumn_clean:
  assumes "col \<noteq> ''job_id''" and "distinct (map row_key (job_rows db))" and "\<forall>r \<in> set (job_rows db). parses (r col)"
  shows "normalizeColumn no_faults col db =
    Inr (db\<lparr>job_rows := map (\<lambda>r. r(col := norm_value (r col))) (job_rows db)\<rparr>)"
  using assms fold_fix_all [OF assms(1,2)]
  by (simp add: normalizeColumn_def nonCanonical_fixes apply_fixes_clean fold_rewrite cong: map_cong)

lemma fold_norm_rows:
  "''job_id'' \<notin> set cols \<Longrightarrow> distinct cols \<Longrightarrow> distinct (map row_key (job_rows db)) \<Longrightarrow>
   \<forall>r \<in> set (job_rows db). \<forall>c \<in> set cols. parses (r c) \<Longrightarrow>
   normalize_columns clean k cols db =
     Inr (db\<lparr>job_rows := map (\<lambda>r n. if n \<in> set cols then norm_value (r n) else r n) (job_rows db)\<rparr>)"
proof (induction cols arbitrary: k db)
  case Nil
  then show ?case by simp
next
  case (Cons c cols)
  let ?db = "db\<lparr>job_rows := map (\<lambda>r. r(c := norm_value (r c))) (job_rows db)\<rparr>"
  have c: "c \<noteq> ''job_id''" using Cons.prems(1) by auto
  have "normalizeColumn (clean k) c db = Inr ?db"
    unfolding clean_def by (rule normalizeColumn_clean [OF c Cons.prems(3)]) (use Cons.prems(4) in simp)
  moreover have "map row_key (job_rows ?db) = map row_key (job_rows db)" using c by (simp add: row_key_def)
  then have "distinct (map row_key (job_rows ?db))" using Cons.prems(3) by metis
  moreover have "\<forall>r \<in> set (job_rows ?db). \<forall>c \<in> set cols. parses (r c)"
    using Cons.prems(2,4) by auto
  moreover have "(\<lambda>n. if n \<in> set cols then norm_value ((r(c := norm_value (r c))) n) else (r(c := norm_value (r c))) n)
      = (\<lambda>n. if n \<in> set (c # cols) then norm_value (r n) else r n)" for r :: "string \<Rightarrow> sql_value"
    using Cons.prems(2) by (auto simp: fun_eq_iff)
  ultimately show ?case
    using Cons.IH [of ?db "Suc k"] Cons.prems(1,2) by (simp add: comp_def)
qed

lemma norm_value_idem: "parses v \<Longrightarrow> parses (norm_value v) \<and> norm_value (norm_value v) = norm_value v"
proof (cases "scanned v")
  case None
  moreover assume "parses v"
  ultimately show ?thesis by (simp add: norm_value_def)
next
  case (Some raw)
  moreover assume "parses v"
  ultimately obtain t where t: "parseRFC3339Nano raw = Some t" "ts_ok t" by (auto simp: parses_def split: option.splits)
  have "parses (TEXT (formatTS t)) \<and> norm_value (TEXT (formatTS t)) = TEXT (formatTS t)"
    using parse_formatTS [OF t(2)] t(2) by (simp add: norm_value_def parses_def)
  with Some t show ?thesis by (cases "formatTS t = raw") (simp_all add: norm_value_def [of v] parses_def [of v])
qed

section \<open>Opening a database of any age\<close>

definition base_columns :: "string set" where
  "base_columns = {''job_id'', ''artifact_kind'', ''image_repository'', ''image_digest'', ''stable_ref'',
     ''tool_name'', ''version'', ''cas_hash'', ''requested_actions'', ''requested_fixture_set'', ''status'',
     ''attempt'', ''lease_owner'', ''lease_until'', ''last_error'', ''result_summary'', ''created_at'', ''updated_at''}"

definition migrated_columns :: "(string \<times> sql_value) list" where
  "migrated_columns = validation_columns @ delivery_columns @ [(''terminal_submitted'', INTEGER 0)] @
     execution_columns @ [(''retry_not_before'', NULL)] @ ownership_columns"

text \<open>
  A database some earlier binary left: the columns of the first schema, any of the later
  ones, unique job ids and validation request ids, and timestamps that can be read.
\<close>

definition legacy_db :: "database \<Rightarrow> bool" where
  "legacy_db db \<longleftrightarrow>
     jobs_columns db \<noteq> None \<and> base_columns \<subseteq> col_names db \<and>
     (\<forall>r \<in> set (job_rows db). \<forall>n. n \<notin> col_names db \<longrightarrow> r n = NULL) \<and>
     distinct (map row_key (job_rows db)) \<and> distinct (indexed_ids db) \<and>
     (\<forall>r \<in> set (job_rows db). \<forall>c \<in> set timestampColumns. parses (r c))"

text \<open>
  What the columns added since the first schema hold for a row written before: no delivery
  is due, nothing has been claimed, counted or executed, and no time is set.
\<close>

definition new_default :: "string \<Rightarrow> sql_value" where
  "new_default n =
     (if n = ''result_delivery_status'' then TEXT ''not_applicable''
      else if n \<in> {''result_delivery_attempts'', ''terminal_submitted'', ''terminal_attempt'', ''execution_terminal''} then INTEGER 0
      else if n \<in> {''request_fingerprint'', ''result_delivery_payload'', ''result_delivery_last_error'',
        ''result_delivery_claim_token'', ''terminal_owner'', ''execution_id''} then TEXT ''''
      else NULL)"

text \<open>The row an open is to make of a legacy row: these defaults, and canonical timestamps.\<close>

definition upgraded_row :: "database \<Rightarrow> (string \<Rightarrow> sql_value) \<Rightarrow> (string \<Rightarrow> sql_value)" where
  "upgraded_row db r = (\<lambda>n.
     if n \<in> {''created_at'', ''updated_at'', ''lease_until'', ''next_attempt_at'', ''result_delivery_claimed_until''}
     then norm_value (r n)
     else if n \<in> col_names db then r n
     else new_default n)"

text \<open>The row the migrations make of it, by their own lists of columns.\<close>

definition migrated_row :: "database \<Rightarrow> (string \<Rightarrow> sql_value) \<Rightarrow> (string \<Rightarrow> sql_value)" where
  "migrated_row db r = (\<lambda>n.
     if n \<in> set timestampColumns then norm_value (r n)
     else if n \<in> col_names db then r n
     else case map_of migrated_columns n of None \<Rightarrow> r n | Some v \<Rightarrow> v)"


definition defaulted :: "database \<Rightarrow> (string \<times> sql_value) list \<Rightarrow> (string \<Rightarrow> sql_value) \<Rightarrow> (string \<Rightarrow> sql_value)" where
  "defaulted db cols r =
     (\<lambda>n. if n \<in> col_names db then r n else case map_of cols n of None \<Rightarrow> r n | Some v \<Rightarrow> v)"

text \<open>\<open>db'\<close> is \<open>db\<close> with the missing columns of \<open>cols\<close> and the indexes \<open>ix\<close> added.\<close>

definition grown :: "database \<Rightarrow> (string \<times> sql_value) list \<Rightarrow> string set \<Rightarrow> database \<Rightarrow> bool" where
  "grown db cols ix db' \<longleftrightarrow>
     jobs_columns db' \<noteq> None \<and> col_names db' = col_names db \<union> fst ` set cols \<and>
     job_rows db' = map (defaulted db cols) (job_rows db) \<and>
     set (db_indexes db) \<union> ix \<subseteq> set (db_indexes db') \<and> has_store_meta db' = has_store_meta db"

lemma grown_trans:
  "grown db cs ix db1 \<Longrightarrow> grown db1 ds iy db2 \<Longrightarrow> distinct (map fst (cs @ ds)) \<Longrightarrow> grown db (cs @ ds) (ix \<union> iy) db2"
proof -
  assume g: "grown db cs ix db1" "grown db1 ds iy db2" and d: "distinct (map fst (cs @ ds))"
  have "defaulted db1 ds (defaulted db cs r) = defaulted db (cs @ ds) r" for r
  proof
    fix n
    show "defaulted db1 ds (defaulted db cs r) n = defaulted db (cs @ ds) r n"
    proof (cases "map_of cs n")
      case None
      then have "n \<in> col_names db1 \<longleftrightarrow> n \<in> col_names db" using g(1) by (simp add: grown_def map_of_eq_None_iff)
      then show ?thesis using None by (simp add: defaulted_def map_add_def split: option.splits)
    next
      case (Some v)
      then have n: "n \<in> fst ` set cs" by (metis map_of_eq_None_iff option.distinct(1))
      then have "map_of ds n = None" using d by (auto simp: map_of_eq_None_iff)
      moreover have "n \<in> col_names db1" using n g(1) by (simp add: grown_def)
      ultimately show ?thesis using Some by (simp add: defaulted_def map_add_def)
    qed
  qed
  then show ?thesis using g by (auto simp: grown_def)
qed

lemma grown_fold:
  assumes "jobs_columns db \<noteq> None" and "distinct (map fst cols)"
  shows "grown db cols {} (fold add_col cols db)"
    "grown db cols {n} (add_index n (fold add_col cols db))"
  using fold_add_col [OF assms] add_index_fields(6) [of "fold add_col cols db" n]
  unfolding grown_def defaulted_def by auto

lemma migrate_columns_clean:
  assumes "jobs_columns db \<noteq> None"
  shows "in_tx ''migration'' no_faults (add_columns no_faults i cols) db = (Inr (), fold add_col cols db)"
  by (rule in_tx_clean) (rule add_columns_fold [OF assms])

lemma migrateValidation_clean:
  assumes ne: "jobs_columns db \<noteq> None" and d: "distinct (indexed_ids db)"
    and nul: "\<forall>r \<in> set (job_rows db). \<forall>n. n \<notin> col_names db \<longrightarrow> r n = NULL"
  shows "migrateValidationRequestID no_faults db =
    (Inr (), add_index ''idx_jobs_validation_request_id'' (fold add_col validation_columns db))"
proof -
  let ?db = "fold add_col validation_columns db"
  have dist: "distinct (map fst validation_columns)" by (simp add: validation_columns_def)
  note f = fold_add_col [OF ne dist]
  have "r ''validation_request_id'' = defaulted db validation_columns r ''validation_request_id''"
    if "r \<in> set (job_rows db)" for r
    using nul that by (auto simp: defaulted_def validation_columns_def)
  then have "indexed_ids ?db = indexed_ids db"
    using f by (simp add: indexed_ids_def defaulted_def comp_def cong: map_cong)
  moreover have "''validation_request_id'' \<in> col_names ?db" using f by (simp add: validation_columns_def)
  ultimately show ?thesis unfolding migrateValidationRequestID_def
    using d by (intro in_tx_clean) (simp add: add_columns_fold [OF ne] exec_stmt_def create_unique_index_add)
qed

definition all_indexes :: "string set" where
  "all_indexes = {''idx_jobs_status_updated_at'', ''idx_jobs_lease_until'', ''idx_jobs_validation_request_id'',
     ''idx_jobs_result_delivery_status'', ''idx_jobs_status_retry_not_before''}"

lemma schema_batch_clean:
  assumes "jobs_columns db \<noteq> None" and "base_columns \<subseteq> col_names db"
  shows "\<exists>db'. exec_batch no_faults 0 schema_batch db = (Inr (), db') \<and> has_store_meta db' \<and>
    jobs_columns db' = jobs_columns db \<and> job_rows db' = job_rows db \<and>
    {''idx_jobs_status_updated_at'', ''idx_jobs_lease_until''} \<subseteq> set (db_indexes db')"
proof -
  let ?a = "add_index ''idx_jobs_status_updated_at'' db"
  let ?b = "add_index ''idx_jobs_lease_until'' ?a"
  have t: "create_jobs_table db = db" using assms(1) by (auto simp: create_jobs_table_def)
  have c: "create_index ''idx_jobs_status_updated_at'' [''status'', ''updated_at''] db = Inr ?a"
    "create_index ''idx_jobs_lease_until'' [''lease_until''] ?a = Inr ?b"
    using assms(2) by (auto intro!: create_index_add simp: base_columns_def)
  have "exec_batch no_faults 0 schema_batch db = (Inr (), ?b\<lparr>has_store_meta := True\<rparr>)"
    by (simp add: schema_batch_def exec_stmt_def t c)
  moreover have "{''idx_jobs_status_updated_at'', ''idx_jobs_lease_until''} \<subseteq> set (db_indexes ?b)"
    by (auto intro: subsetD [OF add_index_fields(6)])
  ultimately show ?thesis by simp
qed


lemma column_migrations_clean:
  assumes ne: "jobs_columns db \<noteq> None" and base: "base_columns \<subseteq> col_names db"
    and d: "distinct (indexed_ids db)"
    and nul: "\<forall>r \<in> set (job_rows db). \<forall>n. n \<notin> col_names db \<longrightarrow> r n = NULL"
  shows "\<exists>db'. run_migrations (migrations clean) db =
      run_migrations [(''normalize timestamps'', normalizeTimestamps (\<lambda>k. clean (7 + k)))] db' \<and>
    grown db migrated_columns {''idx_jobs_validation_request_id'', ''idx_jobs_result_delivery_status'',
      ''idx_jobs_status_retry_not_before''} db'"
proof -
  define d1 where "d1 = add_index ''idx_jobs_validation_request_id'' (fold add_col validation_columns db)"
  define d2 where "d2 = add_index ''idx_jobs_result_delivery_status'' (fold add_col delivery_columns d1)"
  define d3 where "d3 = fold add_col [(''terminal_submitted'', INTEGER 0)] d2"
  define d4 where "d4 = fold add_col execution_columns d3"
  define d5 where "d5 = add_index ''idx_jobs_status_retry_not_before'' (fold add_col [(''retry_not_before'', NULL)] d4)"
  define d6 where "d6 = fold add_col ownership_columns d5"
  have dist: "distinct (map fst validation_columns)" "distinct (map fst delivery_columns)"
    "distinct (map fst execution_columns)" "distinct (map fst ownership_columns)"
    by (simp_all add: validation_columns_def delivery_columns_def execution_columns_def ownership_columns_def)
  have g1: "grown db validation_columns {''idx_jobs_validation_request_id''} d1"
    unfolding d1_def by (rule grown_fold [OF ne dist(1)])
  have n1: "jobs_columns d1 \<noteq> None" using g1 by (simp add: grown_def)
  have g2: "grown d1 delivery_columns {''idx_jobs_result_delivery_status''} d2"
    unfolding d2_def by (rule grown_fold [OF n1 dist(2)])
  have n2: "jobs_columns d2 \<noteq> None" using g2 by (simp add: grown_def)
  have g3: "grown d2 [(''terminal_submitted'', INTEGER 0)] {} d3"
    unfolding d3_def by (rule grown_fold [OF n2]) simp
  have n3: "jobs_columns d3 \<noteq> None" using g3 by (simp add: grown_def)
  have g4: "grown d3 execution_columns {} d4" unfolding d4_def by (rule grown_fold [OF n3 dist(3)])
  have n4: "jobs_columns d4 \<noteq> None" using g4 by (simp add: grown_def)
  have g5: "grown d4 [(''retry_not_before'', NULL)] {''idx_jobs_status_retry_not_before''} d5"
    unfolding d5_def by (rule grown_fold [OF n4]) simp
  have n5: "jobs_columns d5 \<noteq> None" using g5 by (simp add: grown_def)
  have g6: "grown d5 ownership_columns {} d6" unfolding d6_def by (rule grown_fold [OF n5 dist(4)])
  have st: "''status'' \<in> col_names d4"
    using base g1 g2 g3 g4 by (auto simp: grown_def base_columns_def)
  have r1: "migrateValidationRequestID no_faults db = (Inr (), d1)"
    unfolding d1_def by (rule migrateValidation_clean [OF ne d nul])
  have r2: "migrateResultDelivery no_faults d1 = (Inr (), d2)"
    unfolding migrateResultDelivery_def d2_def
    by (rule migrate_index_clean [OF n1 dist(2)]) (simp add: delivery_columns_def)
  have r3: "migrateTerminalSubmitted no_faults d2 = (Inr (), d3)"
    unfolding migrateTerminalSubmitted_def d3_def by (rule migrate_columns_clean [OF n2])
  have r4: "migrateExecutionIdentity no_faults d3 = (Inr (), d4)"
    unfolding migrateExecutionIdentity_def d4_def by (rule migrate_columns_clean [OF n3])
  have r5: "migrateRetryNotBefore no_faults d4 = (Inr (), d5)"
    unfolding migrateRetryNotBefore_def d5_def by (rule migrate_index_clean [OF n4]) (use st in simp_all)
  have r6: "migrateDeliveryOwnership no_faults d5 = (Inr (), d6)"
    unfolding migrateDeliveryOwnership_def d6_def by (rule migrate_columns_clean [OF n5])
  have "grown db migrated_columns ({''idx_jobs_validation_request_id''} \<union> ({''idx_jobs_result_delivery_status''} \<union>
      ({} \<union> ({} \<union> ({''idx_jobs_status_retry_not_before''} \<union> {}))))) d6"
    unfolding migrated_columns_def
    by (rule grown_trans [OF g1 grown_trans [OF g2 grown_trans [OF g3 grown_trans [OF g4 grown_trans [OF g5 g6]]]]])
      (simp_all add: validation_columns_def delivery_columns_def execution_columns_def ownership_columns_def)
  then have "grown db migrated_columns {''idx_jobs_validation_request_id'', ''idx_jobs_result_delivery_status'',
      ''idx_jobs_status_retry_not_before''} d6" by (simp add: insert_commute)
  moreover have "run_migrations (migrations clean) db =
      run_migrations [(''normalize timestamps'', normalizeTimestamps (\<lambda>k. clean (7 + k)))] d6"
    by (simp add: migrations_def clean_def r1 r2 r3 r4 r5 r6)
  ultimately show ?thesis by blast
qed

lemma timestampColumns_facts: "''job_id'' \<notin> set timestampColumns" "distinct timestampColumns"
  by (simp_all add: timestampColumns_def)

lemma timestampColumns_default:
  "\<forall>c \<in> set timestampColumns. c \<in> base_columns \<or> map_of migrated_columns c = Some NULL"
  by code_simp

lemma initSchema_clean:
  assumes l: "legacy_db db"
  shows "\<exists>db'. initSchema clean db = (Inr (), db') \<and> jobs_columns db' \<noteq> None \<and>
    col_names db' = col_names db \<union> fst ` set migrated_columns \<and>
    job_rows db' = map (migrated_row db) (job_rows db) \<and> has_store_meta db' \<and> all_indexes \<subseteq> set (db_indexes db')"
proof -
  have ne: "jobs_columns db \<noteq> None" and base: "base_columns \<subseteq> col_names db" using l by (simp_all add: legacy_db_def)
  obtain d0 where d0: "exec_batch no_faults 0 schema_batch db = (Inr (), d0)" "has_store_meta d0"
    "jobs_columns d0 = jobs_columns db" "job_rows d0 = job_rows db"
    "{''idx_jobs_status_updated_at'', ''idx_jobs_lease_until''} \<subseteq> set (db_indexes d0)"
    using schema_batch_clean [OF ne base] by blast
  have names: "col_names d0 = col_names db" using d0(3) by (simp add: col_names_def)
  have ids: "indexed_ids d0 = indexed_ids db" using d0(4) by (simp add: indexed_ids_def)
  obtain d1 where run: "run_migrations (migrations clean) d0 =
      run_migrations [(''normalize timestamps'', normalizeTimestamps (\<lambda>k. clean (7 + k)))] d1"
    and g: "grown d0 migrated_columns {''idx_jobs_validation_request_id'', ''idx_jobs_result_delivery_status'',
      ''idx_jobs_status_retry_not_before''} d1"
    using column_migrations_clean [of d0] l d0 names ids by (auto simp: legacy_db_def)
  have rows: "job_rows d1 = map (defaulted db migrated_columns) (job_rows db)"
    using g d0(4) names by (simp add: grown_def defaulted_def fun_eq_iff)
  have key: "row_key (defaulted db migrated_columns r) = row_key r" for r
    using base by (auto simp: row_key_def defaulted_def base_columns_def)
  have ts: "defaulted db migrated_columns r c = r c" if "c \<in> set timestampColumns" "r \<in> set (job_rows db)" for r c
  proof (cases "c \<in> col_names db")
    case False
    then have "r c = NULL" "map_of migrated_columns c = Some NULL"
      using l that timestampColumns_default base unfolding legacy_db_def by blast+
    with False show ?thesis by (simp add: defaulted_def)
  qed (simp add: defaulted_def)
  have k1: "distinct (map row_key (job_rows d1))" using l by (simp add: rows comp_def key legacy_db_def)
  have p1: "\<forall>r \<in> set (job_rows d1). \<forall>c \<in> set timestampColumns. parses (r c)"
    using l ts by (auto simp: rows legacy_db_def)
  have cl: "(\<lambda>k. clean (7 + k)) = clean" by (simp add: clean_def)
  define d2 where "d2 = d1\<lparr>job_rows := map (migrated_row db) (job_rows db)\<rparr>"
  have up: "(\<lambda>n. if n \<in> set timestampColumns then norm_value (defaulted db migrated_columns r n)
      else defaulted db migrated_columns r n) = migrated_row db r" if "r \<in> set (job_rows db)" for r
    using ts [OF _ that] by (auto simp: fun_eq_iff migrated_row_def defaulted_def)
  have "normalize_columns clean 1 timestampColumns d1 = Inr d2"
    using fold_norm_rows [OF timestampColumns_facts k1 p1, of 1] up
    by (simp add: d2_def rows comp_def cong: map_cong)
  then have "normalizeTimestamps clean d1 = (Inr (), d2)"
    unfolding normalizeTimestamps_def by (simp add: clean_def in_tx_def)
  then have "initSchema clean db = (Inr (), d2)" using d0(1) run cl by (simp add: initSchema_def clean_def)
  moreover have "jobs_columns d2 \<noteq> None \<and> col_names d2 = col_names db \<union> fst ` set migrated_columns \<and> has_store_meta d2 \<and>
      all_indexes \<subseteq> set (db_indexes d2)"
    using g d0(2,5) names by (auto simp: grown_def d2_def col_names_def all_indexes_def)
  ultimately show ?thesis by (auto simp: d2_def)
qed


section \<open>Reopening and refusing\<close>

definition up_to_date :: "database \<Rightarrow> bool" where
  "up_to_date db \<longleftrightarrow>
     jobs_columns db \<noteq> None \<and> base_columns \<union> fst ` set migrated_columns \<subseteq> col_names db \<and>
     all_indexes \<subseteq> set (db_indexes db) \<and> has_store_meta db \<and> distinct (map row_key (job_rows db)) \<and>
     (\<forall>r \<in> set (job_rows db). \<forall>c \<in> set timestampColumns. parses (r c) \<and> norm_value (r c) = r c)"

lemma add_columns_present:
  "jobs_columns db \<noteq> None \<Longrightarrow> fst ` set cols \<subseteq> col_names db \<Longrightarrow> add_columns no_faults i cols db = Inr db"
  by (simp add: add_columns_fold fold_add_col_present)

lemma column_migrations_noop:
  assumes ne: "jobs_columns db \<noteq> None" and cols: "fst ` set migrated_columns \<subseteq> col_names db"
    and ix: "all_indexes \<subseteq> set (db_indexes db)"
  shows "migrateValidationRequestID no_faults db = (Inr (), db)" "migrateResultDelivery no_faults db = (Inr (), db)"
    "migrateTerminalSubmitted no_faults db = (Inr (), db)" "migrateExecutionIdentity no_faults db = (Inr (), db)"
    "migrateRetryNotBefore no_faults db = (Inr (), db)" "migrateDeliveryOwnership no_faults db = (Inr (), db)"
proof -
  have sub: "fst ` set validation_columns \<subseteq> col_names db" "fst ` set delivery_columns \<subseteq> col_names db"
    "fst ` set [(''terminal_submitted'', INTEGER 0)] \<subseteq> col_names db" "fst ` set execution_columns \<subseteq> col_names db"
    "fst ` set [(''retry_not_before'', NULL)] \<subseteq> col_names db" "fst ` set ownership_columns \<subseteq> col_names db"
    using cols by (auto simp: migrated_columns_def)
  have i: "''idx_jobs_validation_request_id'' \<in> set (db_indexes db)" "''idx_jobs_result_delivery_status'' \<in> set (db_indexes db)"
    "''idx_jobs_status_retry_not_before'' \<in> set (db_indexes db)"
    using ix by (auto simp: all_indexes_def)
  note a = add_columns_present [OF ne sub(1)] add_columns_present [OF ne sub(2)] add_columns_present [OF ne sub(3)]
    add_columns_present [OF ne sub(4)] add_columns_present [OF ne sub(5)] add_columns_present [OF ne sub(6)]
  show "migrateValidationRequestID no_faults db = (Inr (), db)" unfolding migrateValidationRequestID_def
    by (rule in_tx_clean) (simp add: a i exec_stmt_def create_unique_index_def)
  show "migrateResultDelivery no_faults db = (Inr (), db)" unfolding migrateResultDelivery_def
    by (rule in_tx_clean) (simp add: a i exec_stmt_def create_index_def)
  show "migrateTerminalSubmitted no_faults db = (Inr (), db)" unfolding migrateTerminalSubmitted_def
    by (rule in_tx_clean) (rule a)
  show "migrateExecutionIdentity no_faults db = (Inr (), db)" unfolding migrateExecutionIdentity_def
    by (rule in_tx_clean) (rule a)
  show "migrateRetryNotBefore no_faults db = (Inr (), db)" unfolding migrateRetryNotBefore_def
    by (rule in_tx_clean) (simp only: a sum.case, simp add: i exec_stmt_def create_index_def)
  show "migrateDeliveryOwnership no_faults db = (Inr (), db)" unfolding migrateDeliveryOwnership_def
    by (rule in_tx_clean) (rule a)
qed

lemma schema_batch_noop:
  assumes "jobs_columns db \<noteq> None" and "all_indexes \<subseteq> set (db_indexes db)" and "has_store_meta db"
  shows "exec_batch no_faults 0 schema_batch db = (Inr (), db)"
proof -
  have "create_jobs_table db = db" using assms(1) by (auto simp: create_jobs_table_def)
  moreover have "create_index ''idx_jobs_status_updated_at'' cs db = Inr db" "create_index ''idx_jobs_lease_until'' cs db = Inr db" for cs
    using assms(2) by (auto simp: create_index_def all_indexes_def)
  ultimately show ?thesis using assms(3) by (simp add: schema_batch_def exec_stmt_def)
qed

lemma initSchema_noop: "up_to_date db \<Longrightarrow> initSchema clean db = (Inr (), db)"
proof -
  assume u: "up_to_date db"
  have u': "jobs_columns db \<noteq> None" "fst ` set migrated_columns \<subseteq> col_names db"
    "all_indexes \<subseteq> set (db_indexes db)" "has_store_meta db" using u by (simp_all add: up_to_date_def)
  have "map (\<lambda>r n. if n \<in> set timestampColumns then norm_value (r n) else r n) (job_rows db) = job_rows db"
    using u by (intro map_idI) (auto simp: up_to_date_def fun_eq_iff)
  then have "normalize_columns clean 1 timestampColumns db = Inr db"
    using fold_norm_rows [OF timestampColumns_facts, of db 1] u by (simp add: up_to_date_def)
  then have "normalizeTimestamps (\<lambda>k. no_faults) db = (Inr (), db)"
    unfolding normalizeTimestamps_def by (simp add: clean_def in_tx_def)
  then show ?thesis
    using schema_batch_noop [OF u'(1,3,4)] column_migrations_noop [OF u'(1,2,3)]
    by (simp add: initSchema_def migrations_def clean_def)
qed

lemma upgraded_up_to_date:
  assumes l: "legacy_db db" and "jobs_columns db' \<noteq> None" "col_names db' = col_names db \<union> fst ` set migrated_columns"
    "job_rows db' = map (migrated_row db) (job_rows db)" "has_store_meta db'" "all_indexes \<subseteq> set (db_indexes db')"
  shows "up_to_date db'"
proof -
  have base: "base_columns \<subseteq> col_names db" using l by (simp add: legacy_db_def)
  have "row_key (migrated_row db r) = row_key r" for r
    using base timestampColumns_facts(1) by (auto simp: row_key_def migrated_row_def base_columns_def)
  then have "distinct (map row_key (job_rows db'))" using l assms(4) by (simp add: legacy_db_def comp_def)
  moreover have "parses (migrated_row db r c) \<and> norm_value (migrated_row db r c) = migrated_row db r c"
    if "r \<in> set (job_rows db)" "c \<in> set timestampColumns" for r c
  proof -
    have "parses (r c)" using l that by (simp add: legacy_db_def)
    then show ?thesis using that(2) norm_value_idem by (simp add: migrated_row_def)
  qed
  ultimately show ?thesis using assms base by (auto simp: up_to_date_def)
qed

lemma new_defaults:
  "list_all (\<lambda>c. snd c = new_default (fst c)) migrated_columns"
  "list_all (\<lambda>c. fst c \<in> base_columns \<or> snd c = new_default (fst c)) schema_columns"
  by code_simp+

lemma new_default_null: "n \<notin> fst ` set migrated_columns \<Longrightarrow> new_default n = NULL"
  by (auto simp: new_default_def migrated_columns_def validation_columns_def delivery_columns_def execution_columns_def ownership_columns_def)

lemma migrated_upgraded:
  assumes "legacy_db db" and "r \<in> set (job_rows db)"
  shows "migrated_row db r = upgraded_row db r"
proof
  fix n
  have ts: "set timestampColumns = {''created_at'', ''updated_at'', ''lease_until'', ''next_attempt_at'', ''result_delivery_claimed_until''}"
    by (simp add: timestampColumns_def)
  have "(case map_of migrated_columns n of None \<Rightarrow> r n | Some v \<Rightarrow> v) = new_default n" if "n \<notin> col_names db"
  proof (cases "map_of migrated_columns n")
    case None
    then have "new_default n = NULL" by (intro new_default_null) (simp add: map_of_eq_None_iff)
    moreover have "r n = NULL" using assms that by (simp add: legacy_db_def)
    ultimately show ?thesis using None by simp
  next
    case (Some v)
    then have "(n, v) \<in> set migrated_columns" by (rule map_of_SomeD)
    then show ?thesis using Some new_defaults(1) by (auto simp: list_all_iff)
  qed
  then show "migrated_row db r n = upgraded_row db r n"
    unfolding migrated_row_def upgraded_row_def ts by simp
qed

text \<open>
  C31: opening a database left by any earlier version succeeds when the database answers,
  adds every column of the current schema, keeps every value that was there, and rewrites
  each set timestamp to canonical text. In a row written before the column existed the
  delivery status is not_applicable, the delivery and terminal counters and the two flags
  are 0, the fingerprint, payload, delivery error, claim token, terminal owner and execution
  id are empty, and every other new column is NULL; CREATE TABLE gives a new row the same.
  Opening the result again changes nothing.
\<close>

theorem open_upgrades_any_version:
  assumes l: "legacy_db db"
  shows "\<exists>db'. initSchema clean db = (Inr (), db') \<and> fst ` set schema_columns \<subseteq> col_names db' \<and>
    job_rows db' = map (upgraded_row db) (job_rows db) \<and>
    list_all (\<lambda>c. fst c \<in> base_columns \<or> snd c = new_default (fst c)) schema_columns \<and>
    initSchema clean db' = (Inr (), db')"
proof -
  obtain db' where db': "initSchema clean db = (Inr (), db')" "jobs_columns db' \<noteq> None"
    "col_names db' = col_names db \<union> fst ` set migrated_columns" "job_rows db' = map (migrated_row db) (job_rows db)"
    "has_store_meta db'" "all_indexes \<subseteq> set (db_indexes db')"
    using initSchema_clean [OF l] by blast
  have "fst ` set schema_columns \<subseteq> base_columns \<union> fst ` set migrated_columns" by code_simp
  then have cols: "fst ` set schema_columns \<subseteq> col_names db'" using l db'(3) by (auto simp: legacy_db_def)
  have "job_rows db' = map (upgraded_row db) (job_rows db)" using migrated_upgraded [OF l] by (simp add: db'(4))
  then show ?thesis using db'(1) cols new_defaults(2) initSchema_noop [OF upgraded_up_to_date [OF l db'(2-6)]] by blast
qed

definition demo_legacy :: database where
  "demo_legacy = \<lparr>jobs_columns = Some (filter (\<lambda>c. fst c \<in> base_columns) schema_columns),
     job_rows = [(\<lambda>_. NULL)(''job_id'' := TEXT ''job-1'', ''created_at'' := TEXT ''2024-05-01T10:00:05.5+02:00'',
       ''updated_at'' := TEXT ''2024-05-01T08:00:06Z'')], db_indexes = [], has_store_meta = False\<rparr>"

lemma demo_legacy_ok: "legacy_db demo_legacy"
proof -
  have names: "col_names demo_legacy = fst ` set (filter (\<lambda>c. fst c \<in> base_columns) schema_columns)"
    by (simp add: demo_legacy_def col_names_def)
  have b: "base_columns \<subseteq> fst ` set (filter (\<lambda>c. fst c \<in> base_columns) schema_columns)" by code_simp
  have k: "''job_id'' \<in> base_columns" "''created_at'' \<in> base_columns" "''updated_at'' \<in> base_columns"
    by (simp_all add: base_columns_def)
  have p: "list_all (\<lambda>c. parses (hd (job_rows demo_legacy) c)) timestampColumns" by code_simp
  show ?thesis unfolding legacy_db_def names
    using b k p by (auto simp: demo_legacy_def indexed_ids_def list_all_iff)
qed

theorem open_upgrades_any_version_witness:
  "\<exists>db'. initSchema clean demo_legacy = (Inr (), db') \<and>
     map (\<lambda>r. (r ''created_at'', r ''result_delivery_status'')) (job_rows db') =
       [(TEXT ''2024-05-01T08:00:05.500000000Z'', TEXT ''not_applicable'')]"
proof -
  have "map (\<lambda>r. (r ''created_at'', r ''result_delivery_status'')) (map (upgraded_row demo_legacy) (job_rows demo_legacy))
      = [(TEXT ''2024-05-01T08:00:05.500000000Z'', TEXT ''not_applicable'')]" by code_simp
  then show ?thesis using open_upgrades_any_version [OF demo_legacy_ok] by metis
qed


definition unreadable :: "string \<Rightarrow> database \<Rightarrow> bool" where
  "unreadable c db \<longleftrightarrow>
     (\<exists>r \<in> set (job_rows db). case scanned (r c) of None \<Rightarrow> False | Some raw \<Rightarrow> parseRFC3339Nano raw = None)"

lemma nonCanonical_unreadable:
  "r \<in> set rs \<Longrightarrow> scanned (r c) = Some raw \<Longrightarrow> parseRFC3339Nano raw = None \<Longrightarrow>
     \<exists>e. nonCanonicalTimestamps c rs = Inl e"
proof (induction rs)
  case (Cons x rs)
  then show ?case by (auto split: option.splits sum.splits)
qed simp

lemma apply_fixes_unreadable:
  "apply_fixes flt i col fs db = Inr db' \<Longrightarrow> col \<noteq> c \<Longrightarrow> unreadable c db \<Longrightarrow> unreadable c db'"
proof (induction fs arbitrary: i db)
  case (Cons f fs)
  have "unreadable c (db\<lparr>job_rows := rewrite col f (job_rows db)\<rparr>)"
  proof -
    obtain r where r: "r \<in> set (job_rows db)"
      "case scanned (r c) of None \<Rightarrow> False | Some raw \<Rightarrow> parseRFC3339Nano raw = None"
      using Cons.prems(3) by (auto simp: unreadable_def)
    let ?r = "if key_text (r ''job_id'') = fst f then r(col := TEXT (snd f)) else r"
    have "?r \<in> set (rewrite col f (job_rows db))" using r(1) by (simp add: rewrite_def)
    moreover have "?r c = r c" using Cons.prems(2) by simp
    ultimately show ?thesis using r(2) unfolding unreadable_def by (intro bexI [of _ ?r]) simp_all
  qed
  then show ?case using Cons by (auto split: option.splits)
qed simp

lemma normalizeColumn_unreadable:
  "normalizeColumn flt col db = Inr db' \<Longrightarrow> unreadable c db \<Longrightarrow> col \<noteq> c \<and> unreadable c db'"
proof
  assume n: "normalizeColumn flt col db = Inr db'" and u: "unreadable c db"
  show ne: "col \<noteq> c"
  proof
    assume "col = c"
    with u obtain e where "nonCanonicalTimestamps col (job_rows db) = Inl e"
      using nonCanonical_unreadable unfolding unreadable_def by (fastforce split: option.splits)
    with n show False by (auto simp: normalizeColumn_def split: option.splits)
  qed
  show "unreadable c db'"
    using n apply_fixes_unreadable [OF _ ne u] by (auto simp: normalizeColumn_def split: option.splits sum.splits)
qed

lemma normalize_columns_unreadable:
  "c \<in> set cols \<Longrightarrow> unreadable c db \<Longrightarrow> \<exists>e. normalize_columns flt k cols db = Inl e"
proof (induction cols arbitrary: k db)
  case (Cons col cols)
  then show ?case using normalizeColumn_unreadable by (fastforce split: sum.splits)
qed simp

text \<open>
  C32: a timestamp that cannot be read fails the open and destroys nothing: whatever the
  database faults, \<open>normalizeTimestamps\<close> returns an error and no value of any row changes,
  also when columns before the bad one had values to rewrite.
\<close>

theorem unreadable_timestamp_refused:
  assumes "c \<in> set timestampColumns" and "unreadable c db"
  shows "\<exists>e. normalizeTimestamps flt db = (Inl e, db)"
  using normalize_columns_unreadable [OF assms, of flt 1]
  by (auto simp: normalizeTimestamps_def in_tx_def split: option.splits)

theorem unreadable_timestamp_refused_witness:
  "\<exists>e. normalizeTimestamps clean (demo_legacy\<lparr>job_rows :=
      [(\<lambda>_. NULL)(''job_id'' := TEXT ''job-1'', ''created_at'' := TEXT ''2024-05-01T10:00:05.5Z'',
         ''lease_until'' := TEXT ''tomorrow'')]\<rparr>)
    = (Inl e, demo_legacy\<lparr>job_rows :=
      [(\<lambda>_. NULL)(''job_id'' := TEXT ''job-1'', ''created_at'' := TEXT ''2024-05-01T10:00:05.5Z'',
         ''lease_until'' := TEXT ''tomorrow'')]\<rparr>)"
proof (rule unreadable_timestamp_refused [of "''lease_until''"])
  show "''lease_until'' \<in> set timestampColumns" by (simp add: timestampColumns_def)
  have "parseRFC3339Nano ''tomorrow'' = None" by code_simp
  then show "unreadable ''lease_until'' (demo_legacy\<lparr>job_rows :=
      [(\<lambda>_. NULL)(''job_id'' := TEXT ''job-1'', ''created_at'' := TEXT ''2024-05-01T10:00:05.5Z'',
         ''lease_until'' := TEXT ''tomorrow'')]\<rparr>)"
    by (simp add: unreadable_def)
qed

end
