(* ===== verification/Store_Open.thy ===== *)
theory Store_Open
  imports Schema
begin

text \<open>
  Opening the work store (pkg/work/sqlite/store.go: \<open>New\<close>, \<open>acquireWriterLock\<close>,
  \<open>checkDirWritable\<close>). Errors are values by their cause; the wording around the cause is
  left out.
\<close>

section \<open>The directory\<close>

text \<open>The answers of the file system: \<open>fs_stat\<close> says whether the path is a directory.\<close>

record dir_answers =
  fs_stat :: "string + bool"
  fs_temp :: "string option"
  fs_close :: "string option"
  fs_remove :: "string option"

datatype open_error =
    DirNotUsable string | ParentNotDirectory | DirNotWritable string | ProbeNotClosed string | ProbeNotRemoved string
  | OpenFailed string | ErrWriterLocked string | LockNotTaken string | ConnectionNotReturned string | SchemaFailed string

definition checkDirWritable :: "dir_answers \<Rightarrow> open_error option" where
  "checkDirWritable fs =
     (case fs_stat fs of
        Inl e \<Rightarrow> Some (DirNotUsable e)
      | Inr isDir \<Rightarrow>
          if \<not> isDir then Some ParentNotDirectory
          else case fs_temp fs of
                 Some e \<Rightarrow> Some (DirNotWritable e)
               | None \<Rightarrow>
                   (case fs_close fs of
                      Some e \<Rightarrow> Some (ProbeNotClosed e)
                    | None \<Rightarrow> map_option ProbeNotRemoved (fs_remove fs)))"

section \<open>The writer lock\<close>

text \<open>
  What the program has a connection execute: the statements of \<open>acquireWriterLock\<close>, the
  \<open>BEGIN IMMEDIATE\<close> that \<open>_txlock=immediate\<close> makes of every transaction, any other statement
  (none of which sets the locking mode), and the closing of the connection.
\<close>

datatype lock_sql =
    PragmaNormal | BeginExclusive | PragmaExclusive | Rollback | Commit | BeginImmediate | Statement string | CloseConn

datatype sql_error = SqliteBusy string | SqliteLocked string | SqlError string

fun sql_text :: "sql_error \<Rightarrow> string" where
  "sql_text (SqliteBusy e) = e"
| "sql_text (SqliteLocked e) = e"
| "sql_text (SqlError e) = e"

fun writerLockError :: "sql_error \<Rightarrow> open_error" where
  "writerLockError (SqliteBusy e) = ErrWriterLocked e"
| "writerLockError (SqliteLocked e) = ErrWriterLocked e"
| "writerLockError (SqlError e) = LockNotTaken e"

text \<open>
  \<open>exec c q l\<close> is SQLite executing \<open>q\<close> on connection \<open>c\<close> in lock state \<open>l\<close>. \<open>conn\<close> and \<open>put\<close>
  are the errors of getting the connection from the pool and of returning it.
\<close>

type_synonym 'l sqlite = "nat \<Rightarrow> lock_sql \<Rightarrow> 'l \<Rightarrow> sql_error option \<times> 'l"

definition take_lock :: "'l sqlite \<Rightarrow> nat \<Rightarrow> 'l \<Rightarrow> open_error option \<times> 'l" where
  "take_lock exec c l =
     (case exec c PragmaNormal l of
        (Some e, l1) \<Rightarrow> (Some (LockNotTaken (sql_text e)), l1)
      | (None, l1) \<Rightarrow>
     (case exec c BeginExclusive l1 of
        (Some e, l2) \<Rightarrow> (Some (writerLockError e), l2)
      | (None, l2) \<Rightarrow>
     (case exec c PragmaExclusive l2 of
        (Some e, l3) \<Rightarrow> (Some (LockNotTaken (sql_text e)), snd (exec c Rollback l3))
      | (None, l3) \<Rightarrow>
     (case exec c Commit l3 of
        (Some e, l4) \<Rightarrow> (Some (LockNotTaken (sql_text e)), l4)
      | (None, l4) \<Rightarrow> (None, l4)))))"

definition acquireWriterLock ::
  "'l sqlite \<Rightarrow> sql_error option \<Rightarrow> string option \<Rightarrow> nat \<Rightarrow> 'l \<Rightarrow> open_error option \<times> 'l" where
  "acquireWriterLock exec conn put c l =
     (case conn of
        Some e \<Rightarrow> (Some (writerLockError e), l)
      | None \<Rightarrow>
          (case take_lock exec c l of
             (None, l') \<Rightarrow> (map_option ConnectionNotReturned put, l')
           | (Some e, l') \<Rightarrow> (Some e, l')))"

section \<open>Opening\<close>

text \<open>
  The statements of \<open>initSchema\<close> on the locked connection: the schema text, then for each
  migration a transaction, whose body is one \<open>Statement\<close> here. A transaction whose begin
  fails has no more; one that fails later is rolled back.
\<close>

fun migrations_sql ::
  "(nat \<Rightarrow> faults) \<Rightarrow> nat \<Rightarrow> (string \<times> (database \<Rightarrow> (string + unit) \<times> database)) list \<Rightarrow> database \<Rightarrow> lock_sql list" where
  "migrations_sql flt k [] db = []"
| "migrations_sql flt k ((what, m) # ms) db =
     BeginImmediate #
       (if flt k 0 \<noteq> None then []
        else Statement what #
          (case m db of
             (Inl _, _) \<Rightarrow> [Rollback]
           | (Inr _, db') \<Rightarrow> Commit # migrations_sql flt (Suc k) ms db'))"

definition schema_sql :: "(nat \<Rightarrow> faults) \<Rightarrow> database \<Rightarrow> lock_sql list" where
  "schema_sql flt db =
     Statement ''init schema'' #
       (case exec_batch (flt 0) 0 schema_batch db of
          (Inl _, _) \<Rightarrow> []
        | (Inr _, db') \<Rightarrow> migrations_sql flt 1 (migrations flt) db')"

definition run_sql :: "'l sqlite \<Rightarrow> nat \<Rightarrow> lock_sql list \<Rightarrow> 'l \<Rightarrow> 'l" where
  "run_sql exec c qs l = fold (\<lambda>q l. snd (exec c q l)) qs l"

text \<open>\<open>New\<close>; the store it returns is the migrated database. \<open>db.Close\<close> closes the pool's one connection \<open>c\<close>.\<close>

definition New_store ::
  "dir_answers \<Rightarrow> string option \<Rightarrow> 'l sqlite \<Rightarrow> sql_error option \<Rightarrow> string option \<Rightarrow> nat \<Rightarrow> (nat \<Rightarrow> faults)
     \<Rightarrow> 'l \<Rightarrow> database \<Rightarrow> (open_error + unit) \<times> 'l \<times> database" where
  "New_store fs opn exec conn put c flt l db =
     (case checkDirWritable fs of
        Some e \<Rightarrow> (Inl e, l, db)
      | None \<Rightarrow>
     (case opn of
        Some e \<Rightarrow> (Inl (OpenFailed e), l, db)
      | None \<Rightarrow>
     (case acquireWriterLock exec conn put c l of
        (Some e, l1) \<Rightarrow> (Inl e, snd (exec c CloseConn l1), db)
      | (None, l1) \<Rightarrow>
          let l2 = run_sql exec c (schema_sql flt db) l1
          in case initSchema flt db of
               (Inl e, db') \<Rightarrow> (Inl (SchemaFailed e), snd (exec c CloseConn l2), db')
             | (Inr _, db') \<Rightarrow> (Inr (), l2, db'))))"

section \<open>One writer\<close>

text \<open>
  What SQLite documents of its locks. A successful \<open>BEGIN EXCLUSIVE\<close> holds the file's
  exclusive lock and is not granted while another connection holds it. \<open>PRAGMA
  locking_mode = EXCLUSIVE\<close> sets the connection's mode and keeps its lock. A connection in
  exclusive mode that holds the lock keeps both, whatever it executes and whether it succeeds
  or not, until its mode is set back or it is closed. No connection's statement changes the
  lock or the mode of another one.
\<close>

definition sqlite_locking :: "'l sqlite \<Rightarrow> (nat \<Rightarrow> 'l \<Rightarrow> bool) \<Rightarrow> (nat \<Rightarrow> 'l \<Rightarrow> bool) \<Rightarrow> bool" where
  "sqlite_locking exec holds exclusive \<longleftrightarrow>
     (\<forall>c l l'. exec c BeginExclusive l = (None, l') \<longrightarrow> holds c l' \<and> (\<forall>d. d \<noteq> c \<longrightarrow> \<not> holds d l)) \<and>
     (\<forall>c l l'. exec c PragmaExclusive l = (None, l') \<longrightarrow> exclusive c l' \<and> (holds c l \<longrightarrow> holds c l')) \<and>
     (\<forall>c q l. q \<notin> {PragmaNormal, CloseConn} \<longrightarrow> exclusive c l \<longrightarrow> holds c l \<longrightarrow>
        exclusive c (snd (exec c q l)) \<and> holds c (snd (exec c q l))) \<and>
     (\<forall>c d q l. d \<noteq> c \<longrightarrow> (holds d l \<longrightarrow> holds d (snd (exec c q l))) \<and> (exclusive d l \<longrightarrow> exclusive d (snd (exec c q l))))"

lemma lock_laws:
  assumes "sqlite_locking exec holds exclusive"
  shows "exec c BeginExclusive l = (None, l') \<Longrightarrow> holds c l'"
    and "exec c BeginExclusive l = (None, l') \<Longrightarrow> d \<noteq> c \<Longrightarrow> \<not> holds d l"
    and "exec c PragmaExclusive l = (None, l') \<Longrightarrow> exclusive c l'"
    and "exec c PragmaExclusive l = (None, l') \<Longrightarrow> holds c l \<Longrightarrow> holds c l'"
    and "d \<noteq> c \<Longrightarrow> holds d l \<Longrightarrow> holds d (snd (exec c q l))"
    and "d \<noteq> c \<Longrightarrow> exclusive d l \<Longrightarrow> exclusive d (snd (exec c q l))"
    and "q \<notin> {PragmaNormal, CloseConn} \<Longrightarrow> exclusive c l \<Longrightarrow> holds c l \<Longrightarrow>
      exclusive c (snd (exec c q l)) \<and> holds c (snd (exec c q l))"
  using assms unfolding sqlite_locking_def by blast+

text \<open>The connection holds the lock for as long as it is open.\<close>

abbreviation locked_by :: "(nat \<Rightarrow> 'l \<Rightarrow> bool) \<Rightarrow> (nat \<Rightarrow> 'l \<Rightarrow> bool) \<Rightarrow> nat \<Rightarrow> 'l \<Rightarrow> bool" where
  "locked_by holds exclusive c l \<equiv> exclusive c l \<and> holds c l"

lemma lock_kept:
  assumes "sqlite_locking exec holds exclusive" and "locked_by holds exclusive d l" and "c = d \<Longrightarrow> q \<notin> {PragmaNormal, CloseConn}"
  shows "locked_by holds exclusive d (snd (exec c q l))"
proof (cases "c = d")
  case True
  then show ?thesis using lock_laws(7) [OF assms(1)] assms(2,3) by simp
next
  case False
  then show ?thesis using lock_laws(5,6) [OF assms(1), of d c l q] assms(2) by simp
qed

lemma take_lock_holds:
  assumes s: "sqlite_locking exec holds exclusive" and "take_lock exec c l = (None, l')"
  shows "locked_by holds exclusive c l'"
proof -
  obtain l1 l2 l3 where e: "exec c BeginExclusive l1 = (None, l2)" "exec c PragmaExclusive l2 = (None, l3)" "exec c Commit l3 = (None, l')"
    using assms(2) by (auto simp: take_lock_def split: prod.splits option.splits)
  then have "locked_by holds exclusive c l3" using lock_laws [OF s] by metis
  then show ?thesis using lock_kept [OF s, of c l3 c Commit] e(3) by simp
qed

lemma run_sql_kept:
  assumes s: "sqlite_locking exec holds exclusive"
  shows "locked_by holds exclusive c l \<Longrightarrow> PragmaNormal \<notin> set qs \<Longrightarrow> CloseConn \<notin> set qs \<Longrightarrow>
    locked_by holds exclusive c (run_sql exec c qs l)"
proof (induction qs arbitrary: l)
  case (Cons q qs)
  have "locked_by holds exclusive c (snd (exec c q l))" by (rule lock_kept [OF s]) (use Cons.prems in auto)
  then show ?case using Cons.IH Cons.prems by (simp add: run_sql_def)
qed (simp add: run_sql_def)

lemma schema_sql_keeps_mode: "PragmaNormal \<notin> set (schema_sql flt db)" "CloseConn \<notin> set (schema_sql flt db)"
proof -
  have m: "PragmaNormal \<notin> set (migrations_sql flt k ms d) \<and> CloseConn \<notin> set (migrations_sql flt k ms d)" for k ms d
  proof (induction ms arbitrary: k d)
    case (Cons x ms)
    obtain what m r d' where x: "x = (what, m)" "m d = (r, d')" by (metis surj_pair)
    show ?case using Cons.IH [of "Suc k" d'] by (cases r) (simp_all add: x)
  qed simp
  obtain r d' where b: "exec_batch (flt 0) 0 schema_batch db = (r, d')" by fastforce
  show "PragmaNormal \<notin> set (schema_sql flt db)" "CloseConn \<notin> set (schema_sql flt db)"
    using m [of 1 "migrations flt" d'] by (cases r; simp add: schema_sql_def b)+
qed

text \<open>What all connections, the first one included, execute meanwhile.\<close>

definition meanwhile :: "'l sqlite \<Rightarrow> (nat \<times> lock_sql) list \<Rightarrow> 'l \<Rightarrow> 'l" where
  "meanwhile exec qs l = fold (\<lambda>(c, q) l. snd (exec c q l)) qs l"

lemma meanwhile_kept:
  assumes s: "sqlite_locking exec holds exclusive"
  shows "locked_by holds exclusive d l \<Longrightarrow> (d, PragmaNormal) \<notin> set qs \<Longrightarrow> (d, CloseConn) \<notin> set qs \<Longrightarrow>
    locked_by holds exclusive d (meanwhile exec qs l)"
proof (induction qs arbitrary: l)
  case (Cons q qs)
  obtain c p where q: "q = (c, p)" by fastforce
  have "locked_by holds exclusive d (snd (exec c p l))" by (rule lock_kept [OF s Cons.prems(1)]) (use Cons.prems q in auto)
  then have "locked_by holds exclusive d (meanwhile exec qs (snd (exec c p l)))" using Cons.IH Cons.prems by simp
  then show ?case by (simp add: meanwhile_def q)
qed (simp add: meanwhile_def)

lemma held_refused:
  assumes s: "sqlite_locking exec holds exclusive" and "holds d l" and "c \<noteq> d"
  shows "fst (acquireWriterLock exec conn put c l) \<noteq> None"
proof -
  have "holds d (snd (exec c PragmaNormal l))" by (rule lock_laws(5) [OF s assms(3) [symmetric] assms(2)])
  then have "fst (exec c BeginExclusive (snd (exec c PragmaNormal l))) \<noteq> None"
    using lock_laws(2) [OF s] assms(3) by (metis prod.collapse)
  then show ?thesis
    by (auto simp: acquireWriterLock_def take_lock_def split: option.splits prod.splits)
qed

lemma New_store_locks:
  assumes s: "sqlite_locking exec holds exclusive" and "New_store fs opn exec conn put c flt l db = (Inr (), l1, db1)"
  shows "locked_by holds exclusive c l1"
proof -
  obtain l0 where "take_lock exec c l = (None, l0)" "l1 = run_sql exec c (schema_sql flt db) l0"
    using assms(2) by (auto simp: New_store_def acquireWriterLock_def Let_def split: option.splits prod.splits sum.splits)
  then show ?thesis using run_sql_kept [OF s take_lock_holds [OF s] schema_sql_keeps_mode] by simp
qed

text \<open>
  C28: a work store has one writer. After one process has opened the store, it and any other
  connection may execute whatever statements they like; as long as the first connection is
  neither closed nor set back to normal locking mode, which the program does only before it
  takes the lock, every other opening fails and leaves the database as it was.
\<close>

theorem second_opening_refused:
  assumes s: "sqlite_locking exec holds exclusive"
    and first: "New_store fs opn exec conn put c flt l db = (Inr (), l1, db1)"
    and "(c, CloseConn) \<notin> set qs" and "(c, PragmaNormal) \<notin> set qs" and "d \<noteq> c"
  shows "\<exists>e l2. New_store fs' opn' exec conn' put' d flt' (meanwhile exec qs l1) db2 = (Inl e, l2, db2)"
proof -
  have "holds c (meanwhile exec qs l1)" using meanwhile_kept [OF s New_store_locks [OF s first]] assms(3,4) by blast
  then have "fst (acquireWriterLock exec conn' put' d (meanwhile exec qs l1)) \<noteq> None" using held_refused [OF s] assms(5) by metis
  then show ?thesis by (auto simp: New_store_def split: option.splits prod.splits)
qed

text \<open>A lock state with the holder and the connections in exclusive mode.\<close>

type_synonym demo_locks = "nat option \<times> nat list"

fun demo_sqlite :: "nat \<Rightarrow> lock_sql \<Rightarrow> demo_locks \<Rightarrow> sql_error option \<times> demo_locks" where
  "demo_sqlite c PragmaNormal (h, xs) = (None, h, removeAll c xs)"
| "demo_sqlite c PragmaExclusive (h, xs) = (None, h, c # xs)"
| "demo_sqlite c BeginExclusive (h, xs) =
     (if h = None \<or> h = Some c then (None, Some c, xs) else (Some (SqliteBusy ''database is locked''), h, xs))"
| "demo_sqlite c Commit (h, xs) = (None, if h = Some c \<and> c \<notin> set xs then None else h, xs)"
| "demo_sqlite c Rollback (h, xs) = (None, if h = Some c \<and> c \<notin> set xs then None else h, xs)"
| "demo_sqlite c BeginImmediate (h, xs) =
     (if h = None \<or> h = Some c then (None, Some c, xs) else (Some (SqliteBusy ''database is locked''), h, xs))"
| "demo_sqlite c (Statement _) (h, xs) = (None, h, xs)"
| "demo_sqlite c CloseConn (h, xs) = (None, if h = Some c then None else h, removeAll c xs)"

lemma demo_sqlite_locking: "sqlite_locking demo_sqlite (\<lambda>c l. fst l = Some c) (\<lambda>c l. c \<in> set (snd l))"
proof -
  have other: "d \<noteq> c \<longrightarrow> (fst l = Some d \<longrightarrow> fst (snd (demo_sqlite c q l)) = Some d) \<and>
      (d \<in> set (snd l) \<longrightarrow> d \<in> set (snd (snd (demo_sqlite c q l))))" for c d q l
    by (cases l; cases q) auto
  have begin_ok: "demo_sqlite c BeginExclusive l = (None, l') \<longrightarrow> fst l' = Some c \<and> (\<forall>d. d \<noteq> c \<longrightarrow> fst l \<noteq> Some d)" for c l l'
    by (cases l) auto
  have pragma: "demo_sqlite c PragmaExclusive l = (None, l') \<longrightarrow> c \<in> set (snd l') \<and> (fst l = Some c \<longrightarrow> fst l' = Some c)" for c l l'
    by (cases l) auto
  have own: "q \<notin> {PragmaNormal, CloseConn} \<longrightarrow> c \<in> set (snd l) \<longrightarrow> fst l = Some c \<longrightarrow>
      c \<in> set (snd (snd (demo_sqlite c q l))) \<and> fst (snd (demo_sqlite c q l)) = Some c" for c q l
    by (cases l; cases q) auto
  show ?thesis unfolding sqlite_locking_def by (intro conjI allI other begin_ok pragma own)
qed

definition demo_dir :: dir_answers where
  "demo_dir = \<lparr>fs_stat = Inr True, fs_temp = None, fs_close = None, fs_remove = None\<rparr>"

text \<open>The first connection works on, another one tries to begin, and then the second opening fails.\<close>

definition demo_meanwhile :: "(nat \<times> lock_sql) list" where
  "demo_meanwhile = [(1, BeginImmediate), (1, Statement ''UPDATE jobs''), (3, BeginExclusive), (1, Commit)]"

theorem second_opening_refused_witness:
  "\<exists>db l1 e l2. New_store demo_dir None demo_sqlite None None 1 clean (None, []) demo_legacy = (Inr (), l1, db) \<and>
     New_store demo_dir None demo_sqlite None None 2 clean (meanwhile demo_sqlite demo_meanwhile l1) db = (Inl e, l2, db)"
proof -
  obtain db where "initSchema clean demo_legacy = (Inr (), db)" using initSchema_clean [OF demo_legacy_ok] by blast
  then obtain l1 where f: "New_store demo_dir None demo_sqlite None None 1 clean (None, []) demo_legacy = (Inr (), l1, db)"
    by (simp add: New_store_def checkDirWritable_def demo_dir_def acquireWriterLock_def take_lock_def)
  then show ?thesis
    using second_opening_refused [OF demo_sqlite_locking f, of demo_meanwhile 2 demo_dir None None None clean db]
    by (auto simp: demo_meanwhile_def)
qed

end
