(* ===== verification/Store_Create.thy ===== *)
theory Store_Create
  imports Store_Claims "HOL-Library.Multiset"
begin

text \<open>
  Creating jobs: idempotence on the validation request id, and what the request
  fingerprint identifies.
\<close>

section \<open>Idempotent creation\<close>

lemma CreateJob_fresh:
  assumes res: "CreateJob H flt now req s = (Inr job, s')" and v: "req_ValidationRequestID req \<noteq> ''''"
    and new: "\<forall>x \<in> set (jobs s). r_validation_request_id x \<noteq> Some (req_ValidationRequestID req)"
  shows "find_row (JobID job) s' = Some (new_row H now req) \<and> jobs s' = jobs s @ [new_row H now req]"
proof -
  have fresh: "\<forall>x \<in> set (jobs s). r_job_id x \<noteq> req_JobID req"
    and s': "s' = s\<lparr>jobs := jobs s @ [new_row H now req]\<rparr>" and j: "JobID job = req_JobID req"
    using res v new
    by (auto simp: CreateJob_def insert_job_def new_row_def RowsAffected_def
        dest: GetJob_JobID split: option.splits if_splits)
  have "find (\<lambda>r. r_job_id r = req_JobID req) (jobs s) = None" using fresh by (simp add: find_None_iff)
  then show ?thesis by (simp add: s' j find_row_def find_append new_row_def)
qed

lemma CreateJob_cases_result:
  assumes ok: "store_ok s" and res: "CreateJob H flt now req s = (Inr job, s')" and v: "req_ValidationRequestID req \<noteq> ''''"
  shows "\<exists>r. find_row (JobID job) s' = Some r \<and> r_validation_request_id r = Some (req_ValidationRequestID req) \<and>
    r_request_fingerprint r = requestFingerprint H req"
proof (cases "\<exists>x \<in> set (jobs s). r_validation_request_id x = Some (req_ValidationRequestID req)")
  case True
  then obtain x where x: "find (\<lambda>r. r_validation_request_id r = Some (req_ValidationRequestID req)) (jobs s) = Some x"
    and xin: "x \<in> set (jobs s)" "r_validation_request_id x = Some (req_ValidationRequestID req)"
    using find_ex [where P = "\<lambda>r. r_validation_request_id r = Some (req_ValidationRequestID req)"] by blast
  have "s' = s \<and> r_request_fingerprint x = requestFingerprint H req \<and> JobID job = r_job_id x"
    using res v True x
    by (auto simp: CreateJob_def insert_job_def new_row_def jobByValidationRequestID_def RowsAffected_def
        dest: GetJob_JobID split: option.splits if_splits)
  then show ?thesis using xin find_row_unique [OF store_ok_distinct [OF ok] xin(1)] by auto
next
  case False
  then show ?thesis using CreateJob_fresh [OF res v] v by (auto simp: new_row_def)
qed

lemma keys_ok_vrid_unique:
  "keys_ok s \<Longrightarrow> x \<in> set (jobs s) \<Longrightarrow> y \<in> set (jobs s) \<Longrightarrow> r_validation_request_id x = Some v \<Longrightarrow>
     r_validation_request_id y = Some v \<Longrightarrow> x = y"
proof -
  assume k: "keys_ok s" and x: "x \<in> set (jobs s)" "r_validation_request_id x = Some v"
    and y: "y \<in> set (jobs s)" "r_validation_request_id y = Some v"
  have "distinct (filter (\<lambda>v. v \<noteq> None) (map r_validation_request_id xs)) \<Longrightarrow> x \<in> set xs \<Longrightarrow> y \<in> set xs \<Longrightarrow> x = y" for xs
  proof (induction xs)
    case (Cons z zs)
    have "Some v \<notin> r_validation_request_id ` set zs" if "z = x \<or> z = y"
    proof -
      have "r_validation_request_id z = Some v" using that x(2) y(2) by auto
      then show ?thesis using Cons.prems(1) by auto
    qed
    then have "z = x \<Longrightarrow> y \<notin> set zs" "z = y \<Longrightarrow> x \<notin> set zs" using x(2) y(2) by force+
    moreover have "distinct (filter (\<lambda>v. v \<noteq> None) (map r_validation_request_id zs))"
      using Cons.prems(1) by (auto split: if_splits)
    ultimately show ?case using Cons.IH Cons.prems(2,3) by auto
  qed simp
  then show ?thesis using k x(1) y(1) unfolding keys_ok_def by blast
qed

lemma CreateJob_replay:
  assumes ok: "store_ok s" and r: "r \<in> set (jobs s)" "r_validation_request_id r = Some (req_ValidationRequestID req)"
    and v: "req_ValidationRequestID req \<noteq> ''''"
  shows "if r_request_fingerprint r = requestFingerprint H req
    then \<exists>job. CreateJob H no_faults now req s = (Inr job, s) \<and> JobID job = r_job_id r
    else CreateJob H no_faults now req s = (Inl ErrValidationRequestConflict, s)"
proof -
  have ks: "keys_ok s" using ok by (simp add: store_ok_def)
  obtain x where x: "find (\<lambda>x. r_validation_request_id x = Some (req_ValidationRequestID req)) (jobs s) = Some x"
    and xin: "x \<in> set (jobs s)" "r_validation_request_id x = Some (req_ValidationRequestID req)"
    using find_ex [where P = "\<lambda>r. r_validation_request_id r = Some (req_ValidationRequestID req)", OF r] by blast
  have xr: "x = r" by (rule keys_ok_vrid_unique [OF ks xin(1) r(1) xin(2) r(2)])
  have f: "find_row (r_job_id r) s = Some r" by (rule find_row_unique [OF store_ok_distinct [OF ok] r(1)])
  have "stamps_ok r" using ok r(1) by (auto simp: store_ok_def row_ok_def)
  then obtain job where job: "scanJob r = Inr job" "JobID job = r_job_id r" by (rule scanJob_ok)
  have ins: "insert_job (new_row H now req) s = (Inr 0, s)"
    using r v by (auto simp: insert_job_def new_row_def)
  have "GetJob no_faults 5 (r_job_id r) s = Inr job"
    by (rule GetJob_row [OF _ f job(1)]) (simp add: no_faults_def)
  then show ?thesis using ins v x xr job(2)
    by (auto simp: CreateJob_def RowsAffected_def no_faults_def jobByValidationRequestID_def)
qed

lemma CreateJob_again:
  assumes ok: "store_ok s" and now: "ts_ok now" and first: "CreateJob H flt now req s = (Inr job, s')"
    and v: "req_ValidationRequestID req \<noteq> ''''" and same: "req_ValidationRequestID req' = req_ValidationRequestID req"
    and st: "store_step\<^sup>*\<^sup>* s' t"
  shows "if requestFingerprint H req' = requestFingerprint H req
    then \<exists>job'. CreateJob H no_faults now' req' t = (Inr job', t) \<and> JobID job' = JobID job
    else CreateJob H no_faults now' req' t = (Inl ErrValidationRequestConflict, t)"
proof -
  have ok': "store_ok s'" using exec_call_ok [OF ok, of "CallCreateJob H flt now req"] now first by simp
  obtain r where r: "find_row (JobID job) s' = Some r" "r_validation_request_id r = Some (req_ValidationRequestID req)"
    "r_request_fingerprint r = requestFingerprint H req"
    using CreateJob_cases_result [OF ok first v] by blast
  obtain r' where r': "find_row (JobID job) t = Some r'" "request_kept r r'"
    using row_history [OF st ok' r(1)] by (auto simp: row_evolves_def)
  have "r' \<in> set (jobs t)" "r_job_id r' = JobID job" using find_row_Some [OF r'(1)] by auto
  with CreateJob_replay [OF store_inv.inv_reach [OF st ok'], of r' req' H now'] r' r v same
  show ?thesis unfolding request_kept_def by auto
qed

text \<open>
  Creation is idempotent on the validation request id. Once a request was accepted,
  a later request with the same id, in any state further calls lead to and whatever fresh
  job id it proposes, creates nothing: it returns the accepted job if the two fingerprints
  agree and \<open>ErrValidationRequestConflict\<close> if they differ.
\<close>

theorem CreateJob_idempotent:
  assumes ok: "store_ok s" and now: "ts_ok now" and first: "CreateJob H flt now req s = (Inr job, s')"
    and v: "req_ValidationRequestID req \<noteq> ''''" and same: "req_ValidationRequestID req' = req_ValidationRequestID req"
    and st: "store_step\<^sup>*\<^sup>* s' t"
  shows "if requestFingerprint H req' = requestFingerprint H req
    then \<exists>job'. CreateJob H no_faults now' req' t = (Inr job', t) \<and> JobID job' = JobID job
    else CreateJob H no_faults now' req' t = (Inl ErrValidationRequestConflict, t)"
  by (rule CreateJob_again [OF assms])

theorem CreateJob_idempotent_witness:
  "\<exists>job s'. CreateJob (\<lambda>x. x) no_faults 0 demo_request empty_store = (Inr job, s') \<and>
     (\<exists>job'. CreateJob (\<lambda>x. x) no_faults 5 (demo_request\<lparr>req_JobID := ''job-2''\<rparr>) s' = (Inr job', s') \<and> JobID job' = JobID job)"
proof -
  let ?s' = "empty_store\<lparr>jobs := [demo_row]\<rparr>"
  have "stamps_ok demo_row" using demo_row_ok by (simp add: row_ok_def)
  then obtain job where job: "scanJob demo_row = Inr job" by (rule scanJob_ok)
  have first: "CreateJob (\<lambda>x. x) no_faults 0 demo_request empty_store = (Inr job, ?s')"
    using job by (simp add: CreateJob_def no_faults_def insert_job_def empty_store_def RowsAffected_def GetJob_def
        find_row_def demo_row_def [symmetric] demo_request_def [symmetric])
      (simp add: demo_row_def new_row_def demo_request_def)
  have "requestFingerprint (\<lambda>x. x) (demo_request\<lparr>req_JobID := ''job-2''\<rparr>) = requestFingerprint (\<lambda>x. x) demo_request"
    by (simp add: requestFingerprint_def fingerprint_input_def fingerprint_fields_def)
  with CreateJob_idempotent [OF store_ok_empty _ first _ _ rtranclp.rtrancl_refl,
      of "demo_request\<lparr>req_JobID := ''job-2''\<rparr>" 5] first
  show ?thesis by (simp add: demo_request_def ts_ok_def)
qed

section \<open>The request fingerprint\<close>

definition nul_free :: "string \<Rightarrow> bool" where
  "nul_free x \<longleftrightarrow> char_of (0::nat) \<notin> set x"

definition request_nul_free :: "JobRequest \<Rightarrow> bool" where
  "request_nul_free req \<longleftrightarrow> list_all nul_free (fingerprint_fields req)"

lemma split_at_sep:
  "c \<notin> set a \<Longrightarrow> c \<notin> set b \<Longrightarrow> a @ c # xs = b @ c # ys \<Longrightarrow> a = b \<and> xs = ys"
proof (induction a arbitrary: b)
  case Nil
  then show ?case by (cases b) auto
next
  case (Cons x a)
  then show ?case by (cases b) auto
qed

lemma separated_inject:
  "list_all nul_free fs \<Longrightarrow> list_all nul_free gs \<Longrightarrow>
   concat (map (\<lambda>field. field @ [char_of (0::nat)]) fs) = concat (map (\<lambda>field. field @ [char_of (0::nat)]) gs) \<Longrightarrow> fs = gs"
proof (induction fs arbitrary: gs)
  case Nil
  then show ?case by (cases gs) auto
next
  case (Cons f fs)
  then obtain g gs' where gs: "gs = g # gs'" by (cases gs) auto
  let ?c = "char_of (0::nat)"
  have "f @ ?c # concat (map (\<lambda>field. field @ [?c]) fs) = g @ ?c # concat (map (\<lambda>field. field @ [?c]) gs')"
    using Cons.prems(3) gs by simp
  then have "f = g" "concat (map (\<lambda>field. field @ [?c]) fs) = concat (map (\<lambda>field. field @ [?c]) gs')"
    using split_at_sep [of ?c f g] Cons.prems(1,2) gs by (auto simp: nul_free_def)
  then show ?case using Cons.IH [of gs'] Cons.prems(1,2) gs by simp
qed

lemma sort_eq_iff: "sort xs = sort ys \<longleftrightarrow> mset xs = mset (ys :: string list)"
proof
  assume "mset xs = mset ys"
  then show "sort xs = sort ys" by (intro properties_for_sort) simp_all
qed (metis mset_sort)

text \<open>
  For requests without zero bytes the hashed text identifies the request: two requests
  hash the same text exactly when they agree on every descriptive field, on the fixture set
  and on the multiset of requested actions. The order of the actions and the job id do not
  matter, and no concatenation of fields collides.
\<close>

theorem fingerprint_identifies_request:
  assumes "request_nul_free a" and "request_nul_free b"
  shows "fingerprint_input a = fingerprint_input b \<longleftrightarrow>
    req_ArtifactKind a = req_ArtifactKind b \<and> req_ImageRepository a = req_ImageRepository b \<and>
    req_ImageDigest a = req_ImageDigest b \<and> req_StableRef a = req_StableRef b \<and>
    req_ToolName a = req_ToolName b \<and> req_Version a = req_Version b \<and> req_CasHash a = req_CasHash b \<and>
    mset (req_RequestedActions a) = mset (req_RequestedActions b) \<and>
    req_RequestedFixtureSet a = req_RequestedFixtureSet b"
proof -
  have "fingerprint_input a = fingerprint_input b \<longleftrightarrow> fingerprint_fields a = fingerprint_fields b"
    using separated_inject assms unfolding request_nul_free_def fingerprint_input_def by metis
  also have "\<dots> \<longleftrightarrow> req_ArtifactKind a = req_ArtifactKind b \<and> req_ImageRepository a = req_ImageRepository b \<and>
    req_ImageDigest a = req_ImageDigest b \<and> req_StableRef a = req_StableRef b \<and>
    req_ToolName a = req_ToolName b \<and> req_Version a = req_Version b \<and> req_CasHash a = req_CasHash b \<and>
    sort (req_RequestedActions a) = sort (req_RequestedActions b) \<and>
    req_RequestedFixtureSet a = req_RequestedFixtureSet b"
    by (auto simp: fingerprint_fields_def)
  finally show ?thesis by (simp only: sort_eq_iff)
qed

theorem fingerprint_identifies_request_witness:
  "fingerprint_input (demo_request\<lparr>req_RequestedActions := [''profile'', ''smoke_run'']\<rparr>) =
   fingerprint_input (demo_request\<lparr>req_JobID := ''job-2'', req_RequestedActions := [''smoke_run'', ''profile'']\<rparr>)"
proof -
  have n: "request_nul_free (demo_request\<lparr>req_RequestedActions := [''profile'', ''smoke_run'']\<rparr>)"
    "request_nul_free (demo_request\<lparr>req_JobID := ''job-2'', req_RequestedActions := [''smoke_run'', ''profile'']\<rparr>)"
    by code_simp+
  show ?thesis using fingerprint_identifies_request [OF n] by simp
qed

text \<open>
  A zero byte inside an action defeats the separator. The actions \<open>a, b\<close> and the one
  action \<open>a\\0b\<close> give the same hashed text for every hash, so the second request is taken
  for a retry of the first although the action sets differ.
\<close>

theorem fingerprint_nul_collision:
  "requestFingerprint H (demo_request\<lparr>req_RequestedActions := [''a'', ''b'']\<rparr>) =
   requestFingerprint H (demo_request\<lparr>req_RequestedActions := [''a'' @ [char_of (0::nat)] @ ''b'']\<rparr>)"
  by (simp add: requestFingerprint_def fingerprint_input_def fingerprint_fields_def)

end
