(* ===== verification/Retry_Policy.thy ===== *)
theory Retry_Policy
  imports Work_Types
begin

text \<open>
  pkg/worker/failureclass.go and pkg/worker/classify.go: how a stage failure is classified
  from what Kubernetes reports, which classes are retried and how often, and the wire
  fields each class maps to; and the stage plan of a job (worker.go, \<open>planStages\<close>).
\<close>

section \<open>Failure classes\<close>

datatype FailureClass =
    FailureClassDeterministic
  | FailureClassTransientInfra
  | FailureClassResourceObservation
  | FailureClassUnknown

definition FailureKindInfrastructure :: string where "FailureKindInfrastructure = ''infrastructure''"
definition FailureKindApplication :: string where "FailureKindApplication = ''application''"

fun wireStatus :: "FailureClass \<Rightarrow> string \<times> string" where
  "wireStatus FailureClassDeterministic = (''failed'', FailureKindApplication)"
| "wireStatus FailureClassResourceObservation = (''failed'', FailureKindApplication)"
| "wireStatus FailureClassTransientInfra = (''infra_failed'', FailureKindInfrastructure)"
| "wireStatus FailureClassUnknown = (''infra_failed'', FailureKindInfrastructure)"

section \<open>The retry decision\<close>

definition maxAttempts :: int where "maxAttempts = 5"
definition retryExhaustedReason :: string where "retryExhaustedReason = ''RETRY_EXHAUSTED''"
definition unknownRetryLimitReason :: string where "unknownRetryLimitReason = ''UNKNOWN_RETRY_LIMIT''"
definition unknownRetryMarker :: string where "unknownRetryMarker = ''[unknown-retry]''"

record RetryDecision =
  Class :: FailureClass
  Retry :: bool
  Reason :: string
  Delay :: duration

definition retryDelayFor :: "(int \<Rightarrow> int) \<Rightarrow> int \<Rightarrow> duration" where
  "retryDelayFor randInt63n attempt = RetryDelay attempt randInt63n"

text \<open>\<open>strings.Contains\<close>\<close>

definition Contains :: "string \<Rightarrow> string \<Rightarrow> bool" where
  "Contains s sub \<longleftrightarrow> sublist sub s"

definition decideRetry :: "(int \<Rightarrow> int) \<Rightarrow> FailureClass \<Rightarrow> Job \<Rightarrow> string \<Rightarrow> RetryDecision" where
  "decideRetry rnd cls job reason =
     (case cls of
        FailureClassDeterministic \<Rightarrow> \<lparr>Class = cls, Retry = False, Reason = reason, Delay = 0\<rparr>
      | FailureClassResourceObservation \<Rightarrow> \<lparr>Class = cls, Retry = False, Reason = reason, Delay = 0\<rparr>
      | FailureClassUnknown \<Rightarrow>
          if Contains (LastError job) unknownRetryMarker
          then \<lparr>Class = cls, Retry = False,
                 Reason = unknownRetryLimitReason @
                   '': UNKNOWN failure recurred immediately after its one permitted retry: '' @ reason,
                 Delay = 0\<rparr>
          else if Attempt job \<ge> maxAttempts
          then \<lparr>Class = cls, Retry = False, Reason = retryExhaustedReason @ '': '' @ reason, Delay = 0\<rparr>
          else \<lparr>Class = cls, Retry = True, Reason = reason @ '' '' @ unknownRetryMarker,
                 Delay = retryDelayFor rnd (Attempt job)\<rparr>
      | FailureClassTransientInfra \<Rightarrow>
          if Attempt job \<ge> maxAttempts
          then \<lparr>Class = cls, Retry = False, Reason = retryExhaustedReason @ '': '' @ reason, Delay = 0\<rparr>
          else \<lparr>Class = cls, Retry = True, Reason = reason, Delay = retryDelayFor rnd (Attempt job)\<rparr>)"

section \<open>Classification\<close>

record outcome =
  out_success :: bool
  out_retryable :: bool
  out_class :: FailureClass
  out_reason :: string

text \<open>
  The class of a successful outcome is the empty string in the code and never read; here
  it is an arbitrary fixed class.
\<close>

definition succeeded :: outcome where
  "succeeded = \<lparr>out_success = True, out_retryable = False, out_class = FailureClassUnknown, out_reason = ''''\<rparr>"

definition failed :: "bool \<Rightarrow> FailureClass \<Rightarrow> string \<Rightarrow> outcome" where
  "failed rt c why = \<lparr>out_success = False, out_retryable = rt, out_class = c, out_reason = why\<rparr>"

text \<open>What the code reads of a Job and of its Pods.\<close>

record job_condition =
  cond_type :: string
  cond_status :: string
  cond_reason :: string
  cond_message :: string

record terminated_state =
  term_reason :: string
  term_exit_code :: int

record container_status =
  waiting :: "(string \<times> string) option"
  terminated :: "terminated_state option"

record pod =
  pod_phase :: string
  pod_reason :: string
  container_statuses :: "container_status list"

text \<open>One container: \<^const>\<open>None\<close> when its state decides nothing.\<close>

definition classify_container :: "container_status \<Rightarrow> outcome option" where
  "classify_container cs =
     (case waiting cs of
        Some (why, message) \<Rightarrow>
          if why \<in> {''ImagePullBackOff'', ''ErrImagePull''}
          then Some (failed True FailureClassTransientInfra (''image pull failure: '' @ message))
          else None
      | None \<Rightarrow> None)"

definition classify_terminated :: "container_status \<Rightarrow> outcome option" where
  "classify_terminated cs =
     (case terminated cs of
        None \<Rightarrow> None
      | Some t \<Rightarrow>
          if term_reason t = ''OOMKilled'' then Some (failed True FailureClassResourceObservation ''OOMKilled'')
          else if term_reason t = ''DeadlineExceeded''
          then Some (failed True FailureClassTransientInfra ''timeout: activeDeadlineSeconds exceeded'')
          else if term_exit_code t = 0 then None
          else if term_reason t \<in> {''Error'', ''Completed''}
          then Some (failed False FailureClassDeterministic
                 (''application-level failure: container exited with code '' @ Itoa (term_exit_code t)))
          else Some (failed False FailureClassDeterministic
                 (''application-level failure: container exited with code '' @ Itoa (term_exit_code t) @
                  '' ('' @ term_reason t @ '')'')))"

fun classify_containers :: "container_status list \<Rightarrow> outcome option" where
  "classify_containers [] = None"
| "classify_containers (cs # css) =
     (case classify_container cs of
        Some out \<Rightarrow> Some out
      | None \<Rightarrow>
          (case classify_terminated cs of
             Some out \<Rightarrow> Some out
           | None \<Rightarrow> classify_containers css))"

fun classify_pods :: "pod list \<Rightarrow> outcome option" where
  "classify_pods [] = None"
| "classify_pods (p # ps) =
     (if pod_phase p = ''Pending''
      then Some (failed True FailureClassTransientInfra ''scheduling failure: pod did not start running'')
      else case classify_containers (container_statuses p) of
        Some out \<Rightarrow> Some out
      | None \<Rightarrow>
          if pod_phase p = ''Failed'' \<and> pod_reason p \<noteq> ''''
          then Some (failed True FailureClassTransientInfra (''infra-level failure: '' @ pod_reason p))
          else classify_pods ps)"

text \<open>\<open>pods\<close> is the result of the Pod List call: \<^const>\<open>None\<close> when it failed.\<close>

definition classifyFromPods :: "pod list option \<Rightarrow> string \<Rightarrow> string \<Rightarrow> outcome" where
  "classifyFromPods pods fallbackReason fallbackMessage =
     (let fallback = failed True FailureClassUnknown (fallbackReason @ '': '' @ fallbackMessage)
      in case pods of
           None \<Rightarrow> fallback
         | Some ps \<Rightarrow> (case classify_pods ps of Some out \<Rightarrow> out | None \<Rightarrow> fallback))"

definition cond_true :: "string \<Rightarrow> job_condition \<Rightarrow> bool" where
  "cond_true ty c \<longleftrightarrow> cond_type c = ty \<and> cond_status c = ''True''"

text \<open>\<open>deadlineExceeded\<close> is \<open>errors.Is(ctx.Err(), context.DeadlineExceeded)\<close>.\<close>

definition classifySmokeRun :: "bool \<Rightarrow> pod list option \<Rightarrow> job_condition list \<Rightarrow> outcome" where
  "classifySmokeRun deadlineExceeded pods conds =
     (if list_ex (cond_true ''Complete'') conds then succeeded
      else if deadlineExceeded
      then failed True FailureClassTransientInfra
             ''timeout: smoke-run did not complete within the allotted time''
      else case find (cond_true ''Failed'') conds of
        Some c \<Rightarrow> classifyFromPods pods (cond_reason c) (cond_message c)
      | None \<Rightarrow> classifyFromPods pods ''Unknown'' ''smoke-run ended without a terminal Job condition'')"

section \<open>The stage plan\<close>

record stagePlan =
  plan_runL5a :: bool
  plan_runL5b :: bool

fun plan_actions :: "Action list \<Rightarrow> stagePlan \<Rightarrow> string + stagePlan" where
  "plan_actions [] plan = Inr plan"
| "plan_actions (a # as) plan =
     (if a = ActionSmokeRun then plan_actions as plan
      else if a = ActionProfile then plan_actions as (plan\<lparr>plan_runL5a := True\<rparr>)
      else if a = ActionSecurityScan then plan_actions as (plan\<lparr>plan_runL5b := True\<rparr>)
      else Inl (''unknown requested action '' @ fmt_q a))"

definition planStages :: "Action list \<Rightarrow> string + stagePlan" where
  "planStages requested =
     (if requested = [] then Inr \<lparr>plan_runL5a = True, plan_runL5b = True\<rparr>
      else plan_actions requested \<lparr>plan_runL5a = False, plan_runL5b = False\<rparr>)"

section \<open>The policy is bounded\<close>

lemma RetryDelay_pos:
  assumes "int63n_ok rnd"
  shows "0 < RetryDelay a rnd \<and> RetryDelay a rnd \<le> RetryMaxDelay"
proof -
  have c: "RetryBaseDelay \<le> retry_cap a" "retry_cap a \<le> RetryMaxDelay" by (rule retry_cap_bounds)+
  have "retry_cap a div 2 \<le> RetryDelay a rnd \<and> RetryDelay a rnd \<le> retry_cap a"
    using RetryDelay_range [OF assms, of a] by (simp add: retry_cap_eq)
  moreover have "0 < retry_cap a div 2" using c(1) by (simp add: RetryBaseDelay_def)
  ultimately show ?thesis using c(2) by linarith
qed


definition demo_job :: Job where
  "demo_job = \<lparr>JobID = ''job-1'', ArtifactKind = ''tool'', ImageRepository = ''repo'', ImageDigest = ''sha256:1'',
     StableRef = ''ref'', ToolName = ''bwa'', Version = ''1'', CasHash = ''c1'', RequestedActions = [''smoke_run''],
     RequestedFixtureSet = '''', ValidationRequestID = ''v1'', JobStatus = StatusLeased, Attempt = 1,
     LeaseOwner = ''w1'', LeaseUntil = None, LastError = '''', ResultSummary = '''', CreatedAt = 0, UpdatedAt = 0,
     ResultDeliveryStatus = DeliveryNotApplicable, ResultDeliveryPayload = '''', ResultDeliveryAttempts = 0,
     ResultDeliveryLastError = '''', NextAttemptAt = None, ResultDeliveryClaimToken = '''',
     TerminalSubmitted = False, ExecutionID = '''', ExecutionTerminal = False, RetryNotBefore = None\<rparr>"


text \<open>
  An unknown failure gets exactly one retry in a row. Whatever reason the granted retry
  persisted as the job's last error, an unknown failure of the next attempt is final.
\<close>

theorem unknown_retried_once:
  assumes "Retry (decideRetry rnd FailureClassUnknown job why)"
    and "LastError job' = Reason (decideRetry rnd FailureClassUnknown job why)"
  shows "\<not> Retry (decideRetry rnd' FailureClassUnknown job' why')"
proof -
  have "Reason (decideRetry rnd FailureClassUnknown job why) = why @ '' '' @ unknownRetryMarker"
    using assms(1) by (simp add: decideRetry_def split: if_splits)
  then have "Contains (LastError job') unknownRetryMarker"
    using assms(2) sublist_appendI [of unknownRetryMarker "why @ '' ''" "[]"] by (simp add: Contains_def)
  then show ?thesis by (simp add: decideRetry_def)
qed

theorem unknown_retried_once_witness:
  "\<not> Retry (decideRetry (\<lambda>n. 0) FailureClassUnknown
      (demo_job\<lparr>Attempt := 2, LastError := Reason (decideRetry (\<lambda>n. 0) FailureClassUnknown demo_job ''no pods'')\<rparr>) ''no pods'')"
proof -
  have "\<not> Contains (LastError demo_job) unknownRetryMarker"
    by (simp add: demo_job_def Contains_def unknownRetryMarker_def)
  then have "Retry (decideRetry (\<lambda>n. 0) FailureClassUnknown demo_job ''no pods'')"
    by (simp add: decideRetry_def maxAttempts_def) (simp add: demo_job_def)
  then show ?thesis by (rule unknown_retried_once) simp
qed

section \<open>Classification is the first decisive signal\<close>

text \<open>
  What Kubernetes' report on a container means: an image that cannot be pulled and a
  container ended at the deadline are the environment's fault, an OOM kill is an observation
  of the resources, any other exit with a code that is not zero is the tool's own, and
  anything else says nothing.
\<close>

definition container_class :: "container_status \<Rightarrow> FailureClass option" where
  "container_class cs =
     (if map_option fst (waiting cs) \<in> {Some ''ImagePullBackOff'', Some ''ErrImagePull''} then Some FailureClassTransientInfra
      else case terminated cs of
        None \<Rightarrow> None
      | Some t \<Rightarrow>
          if term_reason t = ''OOMKilled'' then Some FailureClassResourceObservation
          else if term_reason t = ''DeadlineExceeded'' then Some FailureClassTransientInfra
          else if term_exit_code t \<noteq> 0 then Some FailureClassDeterministic else None)"

text \<open>A Pod that never ran, its containers in order, and a Pod that failed for a reason of its own.\<close>

definition pod_classes :: "pod \<Rightarrow> FailureClass list" where
  "pod_classes p =
     (if pod_phase p = ''Pending'' then [FailureClassTransientInfra]
      else List.map_filter container_class (container_statuses p) @
        (if pod_phase p = ''Failed'' \<and> pod_reason p \<noteq> '''' then [FailureClassTransientInfra] else []))"

definition first :: "'a list \<Rightarrow> 'a option" where
  "first xs = (case xs of [] \<Rightarrow> None | x # _ \<Rightarrow> Some x)"

lemma first_simps [simp]: "first [] = None" "first (x # xs) = Some x"
  by (simp_all add: first_def)

lemma first_append: "first (xs @ ys) = (case first xs of None \<Rightarrow> first ys | Some x \<Rightarrow> Some x)"
  by (cases xs) simp_all

lemma classify_one:
  "map_option out_class (case classify_container cs of Some out \<Rightarrow> Some out | None \<Rightarrow> classify_terminated cs) = container_class cs"
  by (cases "waiting cs"; cases "terminated cs")
    (auto simp: classify_container_def classify_terminated_def container_class_def failed_def)

lemma classify_containers_first: "map_option out_class (classify_containers css) = first (List.map_filter container_class css)"
proof (induction css)
  case (Cons cs css)
  show ?case using Cons classify_one [of cs] by (auto simp: map_filter_simps split: option.splits)
qed (simp add: map_filter_simps)

lemma classify_pods_first: "map_option out_class (classify_pods ps) = first (concat (map pod_classes ps))"
proof (induction ps)
  case (Cons p ps)
  show ?case using Cons classify_containers_first [of "container_statuses p"]
    by (auto simp: pod_classes_def first_append failed_def split: option.splits)
qed simp

definition policy_consistent :: "outcome \<Rightarrow> bool" where
  "policy_consistent out \<longleftrightarrow> \<not> out_success out \<and> (out_retryable out \<longleftrightarrow> out_class out \<noteq> FailureClassDeterministic)"

lemma container_consistent:
  "classify_container cs = Some out \<Longrightarrow> policy_consistent out"
  "classify_terminated cs = Some out \<Longrightarrow> policy_consistent out"
  by (auto simp: classify_container_def classify_terminated_def failed_def policy_consistent_def
      split: if_splits option.splits prod.splits)

lemma containers_consistent: "classify_containers css = Some out \<Longrightarrow> policy_consistent out"
  by (induction css) (auto dest: container_consistent split: option.splits)

lemma pods_consistent: "classify_pods ps = Some out \<Longrightarrow> policy_consistent out"
  by (induction ps) (auto dest: containers_consistent simp: failed_def policy_consistent_def split: option.splits if_splits)

lemma classifyFromPods_verdict:
  "policy_consistent (classifyFromPods pods a b)"
  "out_class (classifyFromPods pods a b) =
     (case first (concat (map pod_classes (case pods of None \<Rightarrow> [] | Some ps \<Rightarrow> ps))) of None \<Rightarrow> FailureClassUnknown | Some c \<Rightarrow> c)"
proof -
  have unknown: "policy_consistent (failed True FailureClassUnknown why)" for why
    by (simp add: policy_consistent_def failed_def)
  show "policy_consistent (classifyFromPods pods a b)"
    using unknown pods_consistent by (auto simp: classifyFromPods_def Let_def split: option.splits)
  show "out_class (classifyFromPods pods a b) =
     (case first (concat (map pod_classes (case pods of None \<Rightarrow> [] | Some ps \<Rightarrow> ps))) of None \<Rightarrow> FailureClassUnknown | Some c \<Rightarrow> c)"
    by (cases pods) (auto simp: classifyFromPods_def classify_pods_first [symmetric] failed_def split: option.splits)
qed

text \<open>
  C36: the verdict of a smoke-run. It succeeds exactly when the Job has a true Complete
  condition. Otherwise a passed deadline is a transient failure; before the deadline the Pods
  decide by the first decisive report in Pod and container order: a Pod that is still pending
  and an image that cannot be pulled are transient, so are a container ended at its deadline
  and a Pod that failed for a reason of its own, an OOM kill is a resource observation, and
  any other exit with a nonzero code is deterministic. A container that exited with zero
  decides nothing, and without a decisive report, or when the Pods cannot be listed, the
  failure is unknown. Exactly the deterministic failures are marked as not retryable.
\<close>

theorem classifySmokeRun_verdict:
  "let out = classifySmokeRun ddl pods conds;
       completed = (\<exists>c. c \<in> set conds \<and> cond_type c = ''Complete'' \<and> cond_status c = ''True'')
   in (out_success out \<longleftrightarrow> completed) \<and>
      (completed \<or> (out_retryable out \<longleftrightarrow> out_class out \<noteq> FailureClassDeterministic) \<and>
        out_class out =
          (if ddl then FailureClassTransientInfra
           else case first (concat (map pod_classes (case pods of None \<Rightarrow> [] | Some ps \<Rightarrow> ps))) of
                  Some c \<Rightarrow> c | None \<Rightarrow> FailureClassUnknown))"
proof -
  have completed: "list_ex (cond_true ''Complete'') conds \<longleftrightarrow> (\<exists>c. c \<in> set conds \<and> cond_type c = ''Complete'' \<and> cond_status c = ''True'')"
    by (auto simp: list_ex_iff cond_true_def)
  show ?thesis
  proof (cases "list_ex (cond_true ''Complete'') conds \<or> ddl")
    case True
    then show ?thesis unfolding completed [symmetric] Let_def
      by (auto simp: classifySmokeRun_def succeeded_def failed_def)
  next
    case False
    then obtain a b where "classifySmokeRun ddl pods conds = classifyFromPods pods a b"
      by (cases "find (cond_true ''Failed'') conds") (auto simp: classifySmokeRun_def)
    then show ?thesis unfolding completed [symmetric] Let_def
      using False classifyFromPods_verdict [of pods a b] by (auto simp: policy_consistent_def split: option.splits)
  qed
qed

text \<open>A container that exited with zero beside one that was OOM killed.\<close>

definition demo_pods :: "pod list" where
  "demo_pods = [\<lparr>pod_phase = ''Failed'', pod_reason = '''', container_statuses =
     [\<lparr>waiting = None, terminated = Some \<lparr>term_reason = ''Completed'', term_exit_code = 0\<rparr>\<rparr>,
      \<lparr>waiting = None, terminated = Some \<lparr>term_reason = ''OOMKilled'', term_exit_code = 137\<rparr>\<rparr>]\<rparr>]"

theorem classifySmokeRun_verdict_witness:
  "let out = classifySmokeRun False (Some demo_pods) []
   in \<not> out_success out \<and> out_class out = FailureClassResourceObservation"
proof -
  have "first (concat (map pod_classes demo_pods)) = Some FailureClassResourceObservation" by code_simp
  then show ?thesis using classifySmokeRun_verdict [of False "Some demo_pods" "[]"] by (simp add: Let_def)
qed

text \<open>
  The validation flow specification counts an OOM kill and a SIGKILL as infrastructure
  failures that are retried. Neither is: an OOM kill is a resource observation, and a
  container killed with signal 9 for another reason exits with code 137, which is
  deterministic; both end the job at the first attempt.
\<close>

lemma killed_not_retried:
  fixes a b :: string
  assumes "why \<in> {''OOMKilled'', ''Error''}"
  defines "out \<equiv> classifyFromPods (Some [\<lparr>pod_phase = ''Failed'', pod_reason = '''', container_statuses =
      [\<lparr>waiting = None, terminated = Some \<lparr>term_reason = why, term_exit_code = 137\<rparr>\<rparr>]\<rparr>]) a b"
  shows "\<not> Retry (decideRetry rnd (out_class out) job (out_reason out)) \<and>
    wireStatus (out_class out) = (''failed'', ''application'')"
proof -
  have "out_class out \<in> {FailureClassResourceObservation, FailureClassDeterministic}"
    using assms(1) by (auto simp: out_def classifyFromPods_def classify_container_def classify_terminated_def failed_def)
  then show ?thesis by (auto simp: decideRetry_def FailureKindApplication_def)
qed

section \<open>The plan\<close>

lemma plan_actions_spec:
  "plan_actions as plan =
     (case find (\<lambda>a. a \<notin> {ActionSmokeRun, ActionProfile, ActionSecurityScan}) as of
        Some a \<Rightarrow> Inl (''unknown requested action '' @ fmt_q a)
      | None \<Rightarrow> Inr \<lparr>plan_runL5a = plan_runL5a plan \<or> ActionProfile \<in> set as, plan_runL5b = plan_runL5b plan \<or> ActionSecurityScan \<in> set as\<rparr>)"
proof (induction as arbitrary: plan)
  case (Cons a as)
  show ?case
    by (simp add: Cons.IH split: option.splits) (auto simp: ActionSmokeRun_def ActionProfile_def ActionSecurityScan_def)
qed simp

text \<open>
  The stage plan depends only on the set of requested actions. An unknown action rejects
  the request, naming the first one; otherwise profile selects L5-a, security_scan selects
  L5-b, and an empty list selects both.
\<close>

theorem planStages_spec:
  "planStages as =
     (case find (\<lambda>a. a \<notin> {''smoke_run'', ''profile'', ''security_scan''}) as of
        Some a \<Rightarrow> Inl (''unknown requested action '' @ fmt_q a)
      | None \<Rightarrow> Inr \<lparr>plan_runL5a = (as = [] \<or> ''profile'' \<in> set as), plan_runL5b = (as = [] \<or> ''security_scan'' \<in> set as)\<rparr>)"
  unfolding planStages_def plan_actions_spec
  by (cases as) (simp_all add: ActionSmokeRun_def ActionProfile_def ActionSecurityScan_def split: option.splits)

end
