(* ===== verification/Job_Names.thy ===== *)
theory Job_Names
  imports Sqlite_Store Retry_Policy
begin

text \<open>
  The names of Kubernetes Jobs and of NodeVault records (pkg/worker/jobspec.go, l5a.go and
  \<open>isLegacyJobName\<close> of worker.go), and the Job manifests.
\<close>

section \<open>Names\<close>

definition isLower :: "char \<Rightarrow> bool" where
  "isLower c \<longleftrightarrow> CHR ''a'' \<le> c \<and> c \<le> CHR ''z''"

definition isUpper :: "char \<Rightarrow> bool" where
  "isUpper c \<longleftrightarrow> CHR ''A'' \<le> c \<and> c \<le> CHR ''Z''"

definition sanitize_byte :: "char \<Rightarrow> char" where
  "sanitize_byte c =
     (if isLower c \<or> isDigit c \<or> c = CHR ''-'' then c
      else if isUpper c then char_of (of_char c - of_char (CHR ''A'') + of_char (CHR ''a'') :: nat)
      else CHR ''-'')"

definition sanitizeDNSLabelMax :: "string \<Rightarrow> nat \<Rightarrow> string" where
  "sanitizeDNSLabelMax s maxLen = take maxLen (map sanitize_byte s)"

definition sanitizeDNSLabel :: "string \<Rightarrow> string" where
  "sanitizeDNSLabel s = sanitizeDNSLabelMax s 30"

definition legacySanitizedIDMaxLen :: nat where "legacySanitizedIDMaxLen = 50"

definition recordIDLabel :: "string \<Rightarrow> string" where
  "recordIDLabel jobID = sanitizeDNSLabelMax jobID legacySanitizedIDMaxLen"

definition smokeJobName :: "Job \<Rightarrow> string" where
  "smokeJobName job = ''smoke-'' @ sanitizeDNSLabel (JobID job) @ ''-'' @ ExecutionID job"

definition l5aJobName :: "Job \<Rightarrow> string" where
  "l5aJobName job = ''l5a-'' @ sanitizeDNSLabel (JobID job) @ ''-'' @ ExecutionID job"

text \<open>\<open>strings.CutPrefix\<close>\<close>

definition CutPrefix :: "string \<Rightarrow> string \<Rightarrow> string option" where
  "CutPrefix s p = (if prefix p s then Some (drop (length p) s) else None)"

text \<open>\<open>strings.Trim(x, digits) == empty\<close> holds exactly when every byte is a digit.\<close>

definition isLegacyJobName :: "string \<Rightarrow> string \<Rightarrow> bool" where
  "isLegacyJobName name jobID \<longleftrightarrow>
     list_ex (\<lambda>i. list_ex (\<lambda>p. case CutPrefix name (p @ i @ ''-'') of
         None \<Rightarrow> False
       | Some attempt \<Rightarrow> attempt \<noteq> '''' \<and> list_all isDigit attempt) [''smoke-'', ''l5a-''])
       [sanitizeDNSLabelMax jobID legacySanitizedIDMaxLen, sanitizeDNSLabel jobID]"

section \<open>Manifests\<close>

text \<open>The fields of a Job the worker sets.\<close>

record job_spec =
  spec_Name :: string
  spec_Namespace :: string
  spec_Labels :: "(string \<times> string) list"
  spec_BackoffLimit :: int
  spec_ActiveDeadlineSeconds :: int
  spec_TTLSecondsAfterFinished :: int
  spec_RestartPolicy :: string
  spec_ContainerName :: string
  spec_Image :: string
  spec_Command :: "string list"

definition smokeNamespace :: string where "smokeNamespace = ''nodevault-smoke''"
definition jobIDLabel :: string where "jobIDLabel = ''nodesentinel.io/job''"
definition smokeRunTimeout :: int where "smokeRunTimeout = 5 * 60"
definition l5aJobTimeout :: int where "l5aJobTimeout = 10 * 60"
definition l5aCommand :: string where "l5aCommand = ''/bin/sh -c true''"

text \<open>\<open>strings.Fields\<close> on ASCII text: the maximal runs without white space.\<close>

definition isSpace :: "char \<Rightarrow> bool" where
  "isSpace c \<longleftrightarrow> of_char c \<in> {9, 10, 11, 12, 13, 32 :: nat}"

fun fields_from :: "string \<Rightarrow> string \<Rightarrow> string list" where
  "fields_from cur [] = (if cur = [] then [] else [cur])"
| "fields_from cur (c # cs) =
     (if isSpace c then (if cur = [] then fields_from [] cs else cur # fields_from [] cs)
      else fields_from (cur @ [c]) cs)"

definition l5aCommandSlice :: "string list" where
  "l5aCommandSlice = fields_from [] l5aCommand"

definition buildSmokeJobSpec :: "Job \<Rightarrow> job_spec" where
  "buildSmokeJobSpec job =
     \<lparr>spec_Name = smokeJobName job, spec_Namespace = smokeNamespace,
      spec_Labels = [(''app'', ''nodevault-smoke''), (jobIDLabel, JobID job)],
      spec_BackoffLimit = 0, spec_ActiveDeadlineSeconds = smokeRunTimeout,
      spec_TTLSecondsAfterFinished = 120, spec_RestartPolicy = ''Never'',
      spec_ContainerName = ''smoke'', spec_Image = ImageRepository job @ ''@'' @ ImageDigest job,
      spec_Command = []\<rparr>"

definition buildL5aJobSpec :: "Job \<Rightarrow> job_spec" where
  "buildL5aJobSpec job =
     \<lparr>spec_Name = l5aJobName job, spec_Namespace = smokeNamespace,
      spec_Labels = [(''app'', ''nodevault-l5a''), (jobIDLabel, JobID job)],
      spec_BackoffLimit = 0, spec_ActiveDeadlineSeconds = l5aJobTimeout,
      spec_TTLSecondsAfterFinished = 120, spec_RestartPolicy = ''Never'',
      spec_ContainerName = ''validate'', spec_Image = ImageRepository job @ ''@'' @ ImageDigest job,
      spec_Command = l5aCommandSlice\<rparr>"

section \<open>Names are DNS labels\<close>

definition label_char :: "char \<Rightarrow> bool" where
  "label_char c \<longleftrightarrow> isLower c \<or> isDigit c \<or> c = CHR ''-''"

definition dns_label :: "string \<Rightarrow> bool" where
  "dns_label s \<longleftrightarrow>
     s \<noteq> '''' \<and> length s \<le> 63 \<and> list_all label_char s \<and> hd s \<noteq> CHR ''-'' \<and> last s \<noteq> CHR ''-''"

lemma sanitize_byte_label: "label_char (sanitize_byte c)"
proof (cases "isUpper c")
  case True
  have "of_char (CHR ''A'') = (65::nat)" "of_char (CHR ''Z'') = (90::nat)" "of_char (CHR ''a'') = (97::nat)"
    "of_char (CHR ''z'') = (122::nat)" by simp_all
  then have "65 \<le> (of_char c :: nat)" "(of_char c :: nat) \<le> 90"
    using True by (simp_all add: isUpper_def less_eq_char_def)
  then show ?thesis
    by (auto simp: sanitize_byte_def label_char_def isLower_def less_eq_char_def)
qed (auto simp: sanitize_byte_def label_char_def)

lemma sanitize_label: "list_all label_char (sanitizeDNSLabelMax s n)" "length (sanitizeDNSLabelMax s n) \<le> n"
  by (auto simp: sanitizeDNSLabelMax_def list_all_iff take_map sanitize_byte_label)

lemma digit_char_label: "d < 16 \<Longrightarrow> label_char (digit_char d) \<and> digit_char d \<noteq> CHR ''-''"
proof
  assume d: "d < 16"
  show "label_char (digit_char d)"
    using d by (cases "d < 10") (simp_all add: label_char_def isLower_def less_eq_char_def of_char_digit_char)
  have "of_char (digit_char d) \<noteq> (of_char (CHR ''-'') :: nat)" using d by (simp add: of_char_digit_char)
  then show "digit_char d \<noteq> CHR ''-''" by metis
qed

lemma length_itoa: "0 \<le> n \<Longrightarrow> n < 10 ^ d \<Longrightarrow> 0 < d \<Longrightarrow> length (itoa n) \<le> d"
proof (induction n arbitrary: d rule: itoa.induct)
  case (1 n)
  show ?case
  proof (cases "n < 10")
    case False
    then obtain e where d: "d = Suc e" "0 < e"
      using "1.prems" by (cases d; cases "d - 1") auto
    then have "n div 10 < 10 ^ e" using "1.prems" by (simp add: d)
    then have "length (itoa (n div 10)) \<le> e"
      using "1.IH" [OF False, of e] "1.prems"(1) d(2) by (simp add: pos_imp_zdiv_nonneg_iff)
    then show ?thesis using False d by (simp add: itoa.simps [of n])
  qed (use "1.prems" in \<open>simp add: itoa.simps [of n]\<close>)
qed

text \<open>The shape of a minted identity.\<close>

lemma newExecutionID_shape:
  assumes "newExecutionID rd a = Inr i" and "0 \<le> a"
  obtains bs where "i = ''a'' @ itoa a @ ''-'' @ EncodeToString bs" "length bs = 8"
  using assms by (auto simp: newExecutionID_def Itoa_def rand_bytes_def split: sum.splits)

lemma hex_label: "list_all label_char (EncodeToString bs)" "\<And>c. c \<in> set (EncodeToString bs) \<Longrightarrow> c \<noteq> CHR ''-''"
  using EncodeToString_chars digit_char_label by (fastforce simp: list_all_iff)+

lemma itoa_label: "list_all label_char (itoa n)"
  using itoa_digits by (auto simp: list_all_iff label_char_def)

text \<open>
  C39: every Job the worker creates has a valid Kubernetes name. For an identity minted at
  an attempt below one hundred million, the smoke-run and the L5-a name are at most 63
  characters long, use only lower-case letters, digits and hyphens, and neither start nor
  end with a hyphen, whatever the job id is.
\<close>

theorem job_names_are_dns_labels:
  assumes mint: "newExecutionID rd a = Inr (ExecutionID job)" and a: "0 \<le> a" "a < 10 ^ 8"
  shows "dns_label (smokeJobName job) \<and> dns_label (l5aJobName job)"
proof -
  obtain bs where i: "ExecutionID job = ''a'' @ itoa a @ ''-'' @ EncodeToString bs" and l: "length bs = 8"
    using newExecutionID_shape [OF mint a(1)] by blast
  have len: "length (itoa a) \<le> 8" by (rule length_itoa [OF a(1,2)]) simp
  have id: "length (sanitizeDNSLabel (JobID job)) \<le> 30" "list_all label_char (sanitizeDNSLabel (JobID job))"
    unfolding sanitizeDNSLabel_def by (rule sanitize_label)+
  have ne: "EncodeToString bs \<noteq> []" using l length_EncodeToString [of bs] by (metis list.size(3) mult_is_0 zero_neq_numeral)
  have la: "last (EncodeToString bs) \<noteq> CHR ''-''" using hex_label(2) last_in_set [OF ne] by blast
  have ch: "list_all label_char (''a'' @ itoa a @ ''-'' @ EncodeToString bs)"
    using itoa_label [of a] hex_label(1) [of bs] by (simp add: label_char_def isLower_def less_eq_char_def)
  have pre: "list_all label_char ''smoke-''" "list_all label_char ''l5a-''" by code_simp+
  have "dns_label (p @ sanitizeDNSLabel (JobID job) @ ''-'' @ ExecutionID job)"
    if "list_all label_char p" "p \<noteq> ''''" "hd p \<noteq> CHR ''-''" "length p \<le> 6" for p
    using that id ch ne la len l unfolding dns_label_def i by (simp add: label_char_def)
  from this [OF pre(1)] this [OF pre(2)] show ?thesis by (simp add: smokeJobName_def l5aJobName_def)
qed

theorem job_names_are_dns_labels_witness:
  "dns_label (smokeJobName (demo_job\<lparr>JobID := ''job-0123456789abcdef0123456789abcdef'', ExecutionID := ''a1-0707070707070707''\<rparr>))"
proof -
  have "newExecutionID (Inr (\<lambda>k. 7)) 1 = Inr ''a1-0707070707070707''" by code_simp
  then show ?thesis
    using job_names_are_dns_labels [of "Inr (\<lambda>k. 7)" 1
        "demo_job\<lparr>JobID := ''job-0123456789abcdef0123456789abcdef'', ExecutionID := ''a1-0707070707070707''\<rparr>"]
    by simp
qed


section \<open>Telling old names from current ones\<close>

lemma CutPrefix_Some: "CutPrefix s p = Some x \<longleftrightarrow> s = p @ x"
  by (auto simp: CutPrefix_def prefix_def)

definition attempt_name :: "string \<Rightarrow> string \<Rightarrow> string \<Rightarrow> bool" where
  "attempt_name name p i \<longleftrightarrow> (\<exists>att. name = (p @ i @ ''-'') @ att \<and> att \<noteq> '''' \<and> list_all isDigit att)"

lemma legacy_iff:
  "isLegacyJobName name jobID \<longleftrightarrow>
     (\<exists>p \<in> {''smoke-'', ''l5a-''}. \<exists>i \<in> {sanitizeDNSLabelMax jobID 50, sanitizeDNSLabelMax jobID 30}. attempt_name name p i)"
proof -
  have "(case CutPrefix name (p @ i @ ''-'') of None \<Rightarrow> False | Some attempt \<Rightarrow> attempt \<noteq> '''' \<and> list_all isDigit attempt)
      \<longleftrightarrow> attempt_name name p i" for p i
    unfolding attempt_name_def CutPrefix_Some [symmetric] by (simp split: option.split)
  then show ?thesis
    by (simp only: isLegacyJobName_def legacySanitizedIDMaxLen_def sanitizeDNSLabel_def list_ex_iff set_simps) blast
qed

lemma sanitize_50_30:
  "length s \<le> 30 \<Longrightarrow> sanitizeDNSLabelMax s 50 = sanitizeDNSLabelMax s 30"
  "30 < length s \<Longrightarrow> \<exists>t. sanitizeDNSLabelMax s 50 = sanitizeDNSLabelMax s 30 @ sanitize_byte (s ! 30) # t"
proof -
  show "length s \<le> 30 \<Longrightarrow> sanitizeDNSLabelMax s 50 = sanitizeDNSLabelMax s 30" by (simp add: sanitizeDNSLabelMax_def)
  assume l: "30 < length s"
  have "take 50 (map sanitize_byte s) = take 30 (map sanitize_byte s) @ take 20 (drop 30 (map sanitize_byte s))"
    using take_add [of 30 20 "map sanitize_byte s"] by simp
  also have "drop 30 (map sanitize_byte s) = sanitize_byte (s ! 30) # drop 31 (map sanitize_byte s)"
    using Cons_nth_drop_Suc [of 30 "map sanitize_byte s"] l by simp
  finally show "\<exists>t. sanitizeDNSLabelMax s 50 = sanitizeDNSLabelMax s 30 @ sanitize_byte (s ! 30) # t"
    by (simp add: sanitizeDNSLabelMax_def)
qed

lemma current_not_legacy:
  assumes e: "hd e = CHR ''a''" "e \<noteq> []" and q: "q \<in> {''smoke-'', ''l5a-''}"
    and c: "length jobID \<le> 30 \<or> sanitize_byte (jobID ! 30) \<noteq> CHR ''-''"
  shows "\<not> isLegacyJobName (q @ sanitizeDNSLabel jobID @ ''-'' @ e) jobID"
proof
  assume "isLegacyJobName (q @ sanitizeDNSLabel jobID @ ''-'' @ e) jobID"
  then obtain p i att where p: "p \<in> {''smoke-'', ''l5a-''}"
    and i: "i \<in> {sanitizeDNSLabelMax jobID 50, sanitizeDNSLabelMax jobID 30}"
    and eq: "q @ sanitizeDNSLabel jobID @ ''-'' @ e = (p @ i @ ''-'') @ att" and att: "att \<noteq> ''''" "list_all isDigit att"
    unfolding legacy_iff attempt_name_def by blast
  have "hd p = hd q" using p q arg_cong [OF eq, of hd] by auto
  then have "p = q" using p q by auto
  then have eq': "sanitizeDNSLabelMax jobID 30 @ ''-'' @ e = i @ ''-'' @ att"
    using eq by (simp add: sanitizeDNSLabel_def)
  have same: "i = sanitizeDNSLabelMax jobID 30"
  proof (rule ccontr)
    assume n: "i \<noteq> sanitizeDNSLabelMax jobID 30"
    with i sanitize_50_30(1) [of jobID] have l: "30 < length jobID" by fastforce
    with i n sanitize_50_30(2) [OF l] obtain t where "i = sanitizeDNSLabelMax jobID 30 @ sanitize_byte (jobID ! 30) # t" by auto
    then show False using eq' c l by simp
  qed
  then have "e = att" using eq' by simp
  then have "isDigit (CHR ''a'')" using att e by (cases att) auto
  then show False by (simp add: isDigit_def less_eq_char_def)
qed

lemma newExecutionID_hd: "newExecutionID rd a = Inr i \<Longrightarrow> hd i = CHR ''a'' \<and> i \<noteq> []"
  by (auto simp: newExecutionID_def split: sum.splits)

text \<open>
  Telling old Job names from current ones. Every attempt-derived name an old worker gave
  a Job is recognised as such, and no name of a current Job is, provided the job id has at
  most thirty characters or its thirty-first is not mapped to a hyphen, as for every id the
  ingress issues. So retiring old Jobs never deletes a current one.
\<close>

theorem legacy_names_recognised_exactly:
  assumes mint: "newExecutionID rd a = Inr (ExecutionID job)"
    and id: "length (JobID job) \<le> 30 \<or> sanitize_byte (JobID job ! 30) \<noteq> CHR ''-''" and n: "0 \<le> n"
  shows "\<not> isLegacyJobName (smokeJobName job) (JobID job) \<and> \<not> isLegacyJobName (l5aJobName job) (JobID job) \<and>
    isLegacyJobName (''smoke-'' @ sanitizeDNSLabelMax (JobID job) 50 @ ''-'' @ Itoa n) (JobID job) \<and>
    isLegacyJobName (''l5a-'' @ sanitizeDNSLabelMax (JobID job) 50 @ ''-'' @ Itoa n) (JobID job)"
proof -
  have "list_all isDigit (Itoa n)" "Itoa n \<noteq> ''''" using n itoa_digits by (auto simp: Itoa_def list_all_iff)
  then have "attempt_name (p @ i @ ''-'' @ Itoa n) p i" for p i by (simp add: attempt_name_def)
  then have "isLegacyJobName (''smoke-'' @ sanitizeDNSLabelMax (JobID job) 50 @ ''-'' @ Itoa n) (JobID job)"
    "isLegacyJobName (''l5a-'' @ sanitizeDNSLabelMax (JobID job) 50 @ ''-'' @ Itoa n) (JobID job)"
    unfolding legacy_iff by blast+
  moreover have "\<not> isLegacyJobName (smokeJobName job) (JobID job)" "\<not> isLegacyJobName (l5aJobName job) (JobID job)"
    unfolding smokeJobName_def l5aJobName_def using newExecutionID_hd [OF mint]
    by (intro current_not_legacy [OF _ _ _ id]; blast)+
  ultimately show ?thesis by blast
qed

theorem legacy_names_recognised_exactly_witness:
  "\<not> isLegacyJobName ''smoke-job-0123456789abcdef0123456789-a1-0707070707070707'' ''job-0123456789abcdef0123456789abcdef''"
proof -
  have m: "newExecutionID (Inr (\<lambda>k. 7)) 1 = Inr ''a1-0707070707070707''" by code_simp
  have c: "sanitize_byte (''job-0123456789abcdef0123456789abcdef'' ! 30) \<noteq> CHR ''-''" by code_simp
  have nm: "smokeJobName (demo_job\<lparr>JobID := ''job-0123456789abcdef0123456789abcdef'', ExecutionID := ''a1-0707070707070707''\<rparr>)
      = ''smoke-job-0123456789abcdef0123456789-a1-0707070707070707''" by code_simp
  show ?thesis
    using legacy_names_recognised_exactly [of "Inr (\<lambda>k. 7)" 1
        "demo_job\<lparr>JobID := ''job-0123456789abcdef0123456789abcdef'', ExecutionID := ''a1-0707070707070707''\<rparr>" 1] m c nm
    by simp
qed

text \<open>
  Without that proviso a current name can be taken for an old one: the id continues after its
  thirtieth character the way an identity starts.
\<close>

lemma current_name_taken_for_legacy:
  "let jobID = ''aaaaaaaaaaaaaaaaaaaaaaaaaaaaaa-a1'';
       job = demo_job\<lparr>JobID := jobID, ExecutionID := ''a1-1234567812345678''\<rparr>
   in newExecutionID (Inr (\<lambda>k. [0x12, 0x34, 0x56, 0x78] ! (k mod 4))) 1 = Inr (ExecutionID job) \<and>
      isLegacyJobName (smokeJobName job) jobID"
  by code_simp

end
