(* ===== verification/Ingress.thy ===== *)
theory Ingress
  imports Store_Create Job_Names
begin

text \<open>
  pkg/ingress/server.go: the gRPC handler that validates a request and enqueues it. The
  order in which Go walks the map of required fields is not fixed, so it is a parameter.
\<close>

section \<open>Blank text\<close>

text \<open>
  \<open>strings.TrimSpace(x)\<close> is empty exactly when \<open>x\<close> is a sequence of UTF-8 encoded white
  space: the ASCII spaces, U+0085, U+00A0, U+1680, U+2000 to U+200A, U+2028, U+2029, U+202F,
  U+205F and U+3000.
\<close>

definition byte :: "char \<Rightarrow> nat" where "byte c = of_char c"

definition space3 :: "nat \<Rightarrow> nat \<Rightarrow> nat \<Rightarrow> bool" where
  "space3 a b c \<longleftrightarrow>
     a = 0xE1 \<and> b = 0x9A \<and> c = 0x80 \<or>
     a = 0xE2 \<and> b = 0x80 \<and> (0x80 \<le> c \<and> c \<le> 0x8A \<or> c \<in> {0xA8, 0xA9, 0xAF}) \<or>
     a = 0xE2 \<and> b = 0x81 \<and> c = 0x9F \<or>
     a = 0xE3 \<and> b = 0x80 \<and> c = 0x80"

fun blank :: "string \<Rightarrow> bool" where
  "blank [] = True"
| "blank (a # s) =
     (if isSpace a then blank s
      else case s of
        [] \<Rightarrow> False
      | b # s2 \<Rightarrow>
          if byte a = 0xC2 \<and> byte b \<in> {0x85, 0xA0} then blank s2
          else case s2 of
            [] \<Rightarrow> False
          | c # s3 \<Rightarrow> space3 (byte a) (byte b) (byte c) \<and> blank s3)"

section \<open>The handler\<close>

record EnqueueValidationWorkRequest =
  pb_ArtifactKind :: string
  pb_ImageRepository :: string
  pb_ImageDigest :: string
  pb_StableRef :: string
  pb_ToolName :: string
  pb_Version :: string
  pb_CasHash :: string
  pb_RequestedActions :: "string list"
  pb_RequestedFixtureSet :: string
  pb_ValidationRequestId :: string

record EnqueueValidationWorkResponse =
  pb_JobId :: string
  pb_Status :: string

datatype grpc_error = InvalidArgument string | FailedPrecondition string | Internal string

definition required_fields :: "EnqueueValidationWorkRequest \<Rightarrow> (string \<times> string) list" where
  "required_fields req =
     [(''artifact_kind'', pb_ArtifactKind req), (''image_repository'', pb_ImageRepository req),
      (''tool_name'', pb_ToolName req), (''version'', pb_Version req),
      (''validation_request_id'', pb_ValidationRequestId req)]"

text \<open>\<open>range\<close> over the map visits \<open>order (required_fields req)\<close>.\<close>

definition validate ::
  "((string \<times> string) list \<Rightarrow> (string \<times> string) list) \<Rightarrow> EnqueueValidationWorkRequest \<Rightarrow> grpc_error option" where
  "validate order req =
     (case find (\<lambda>(field, value). blank value) (order (required_fields req)) of
        Some (field, _) \<Rightarrow> Some (InvalidArgument (field @ '' must not be empty''))
      | None \<Rightarrow>
          if pb_RequestedActions req = [] then Some (InvalidArgument ''requested_actions must not be empty'')
          else if list_ex blank (pb_RequestedActions req)
          then Some (InvalidArgument ''requested_actions must not contain blank entries'')
          else None)"

text \<open>On a failed read the array holds whatever was written so far, \<open>partial\<close>.\<close>

definition newJobID :: "8 word list \<Rightarrow> string + (nat \<Rightarrow> 8 word) \<Rightarrow> string" where
  "newJobID partial rd =
     (case rd of
        Inl _ \<Rightarrow> ''job-fallback-'' @ EncodeToString partial
      | Inr f \<Rightarrow> ''job-'' @ EncodeToString (rand_bytes f 16))"

definition job_request :: "string \<Rightarrow> EnqueueValidationWorkRequest \<Rightarrow> JobRequest" where
  "job_request jobID req =
     \<lparr>req_JobID = jobID, req_ArtifactKind = pb_ArtifactKind req, req_ImageRepository = pb_ImageRepository req,
      req_ImageDigest = pb_ImageDigest req, req_StableRef = pb_StableRef req, req_ToolName = pb_ToolName req,
      req_Version = pb_Version req, req_CasHash = pb_CasHash req, req_RequestedActions = pb_RequestedActions req,
      req_RequestedFixtureSet = pb_RequestedFixtureSet req, req_ValidationRequestID = pb_ValidationRequestId req\<rparr>"

text \<open>A nil request is \<^const>\<open>None\<close>.\<close>

definition EnqueueValidationWork ::
  "(string \<Rightarrow> string) \<Rightarrow> ((string \<times> string) list \<Rightarrow> (string \<times> string) list) \<Rightarrow> string \<Rightarrow> faults \<Rightarrow> time \<Rightarrow>
     EnqueueValidationWorkRequest option \<Rightarrow> store \<Rightarrow> (grpc_error + EnqueueValidationWorkResponse) \<times> store" where
  "EnqueueValidationWork H order jobID flt now reqOpt s =
     (case reqOpt of
        None \<Rightarrow> (Inl (InvalidArgument ''request must not be nil''), s)
      | Some req \<Rightarrow>
     (case validate order req of
        Some e \<Rightarrow> (Inl e, s)
      | None \<Rightarrow>
     (case CreateJob H flt now (job_request jobID req) s of
        (Inl ErrValidationRequestConflict, s') \<Rightarrow>
          (Inl (FailedPrecondition (''validation_request_id '' @ fmt_q (pb_ValidationRequestId req) @
                  '' already used with a different request'')), s')
      | (Inl e, s') \<Rightarrow> (Inl (Internal (''create job: '' @ store_error_text e)), s')
      | (Inr job, s') \<Rightarrow>
          (Inr \<lparr>pb_JobId = JobID job, pb_Status = Status_string (JobStatus job)\<rparr>, s'))))"

section \<open>Validation\<close>

definition acceptable :: "EnqueueValidationWorkRequest \<Rightarrow> bool" where
  "acceptable req \<longleftrightarrow>
     \<not> blank (pb_ArtifactKind req) \<and> \<not> blank (pb_ImageRepository req) \<and> \<not> blank (pb_ToolName req) \<and>
     \<not> blank (pb_Version req) \<and> \<not> blank (pb_ValidationRequestId req) \<and>
     pb_RequestedActions req \<noteq> [] \<and> \<not> list_ex blank (pb_RequestedActions req)"

lemma validate_None:
  assumes perm: "set (order (required_fields req)) = set (required_fields req)"
  shows "validate order req = None \<longleftrightarrow> acceptable req"
proof (cases "find (\<lambda>(field, value). blank value) (order (required_fields req))")
  case None
  then have "\<forall>(f, v) \<in> set (required_fields req). \<not> blank v" using perm by (auto simp: find_None_iff)
  then show ?thesis using None by (auto simp: validate_def acceptable_def required_fields_def split: if_splits)
next
  case (Some x)
  then have "x \<in> set (required_fields req)" "blank (snd x)" using perm by (auto simp: find_Some_iff dest: nth_mem)
  then show ?thesis using Some by (auto simp: validate_def acceptable_def required_fields_def split: prod.splits)
qed

text \<open>
  C40: the handler refuses a request exactly when a required field or an action is blank or
  no action is requested, whatever order the fields are visited in; a refused request is an
  InvalidArgument and leaves the store as it was.
\<close>

theorem ingress_validation:
  assumes perm: "\<And>fs. set (order fs) = set fs"
  shows "(\<not> acceptable req \<longrightarrow> (\<exists>m. EnqueueValidationWork H order jobID flt now (Some req) s = (Inl (InvalidArgument m), s))) \<and>
    (acceptable req \<longrightarrow> (\<forall>m. fst (EnqueueValidationWork H order jobID flt now (Some req) s) \<noteq> Inl (InvalidArgument m)))"
proof (cases "validate order req")
  case None
  then have "acceptable req" using validate_None [of order req, OF perm] by blast
  then show ?thesis using None
    by (auto simp: EnqueueValidationWork_def split: prod.splits sum.splits store_error.splits)
next
  case (Some e)
  then have "\<not> acceptable req" using validate_None [of order req, OF perm] by simp
  moreover obtain m where "e = InvalidArgument m"
    using Some by (auto simp: validate_def split: option.splits if_splits prod.splits)
  ultimately show ?thesis using Some by (simp add: EnqueueValidationWork_def)
qed

definition demo_pb :: EnqueueValidationWorkRequest where
  "demo_pb = \<lparr>pb_ArtifactKind = ''tool'', pb_ImageRepository = ''repo'', pb_ImageDigest = ''sha256:1'', pb_StableRef = '''',
     pb_ToolName = ''bwa'', pb_Version = ''1'', pb_CasHash = ''c'', pb_RequestedActions = [''smoke_run''],
     pb_RequestedFixtureSet = '''', pb_ValidationRequestId = ''v1''\<rparr>"

theorem ingress_validation_witness:
  "\<exists>m. EnqueueValidationWork (\<lambda>x. x) rev ''job-1'' no_faults 0 (Some (demo_pb\<lparr>pb_ToolName := '' '' @ [CHR 0xC2, CHR 0xA0]\<rparr>)) empty_store
     = (Inl (InvalidArgument m), empty_store)"
proof -
  have "\<not> acceptable (demo_pb\<lparr>pb_ToolName := '' '' @ [CHR 0xC2, CHR 0xA0]\<rparr>)" by code_simp
  then show ?thesis using ingress_validation [of rev "demo_pb\<lparr>pb_ToolName := '' '' @ [CHR 0xC2, CHR 0xA0]\<rparr>"] by simp
qed

section \<open>Resubmission\<close>

lemma Enqueue_Inr:
  "EnqueueValidationWork H order jobID flt now (Some req) s = (Inr resp, s') \<longleftrightarrow>
     validate order req = None \<and> (\<exists>job. CreateJob H flt now (job_request jobID req) s = (Inr job, s') \<and>
       resp = \<lparr>pb_JobId = JobID job, pb_Status = Status_string (JobStatus job)\<rparr>)"
  by (auto simp: EnqueueValidationWork_def split: option.splits prod.splits sum.splits store_error.splits)

lemma fingerprint_job_request: "requestFingerprint H (job_request i req) = requestFingerprint H (job_request j req)"
  by (simp add: requestFingerprint_def fingerprint_input_def fingerprint_fields_def job_request_def)

text \<open>
  C27: NodeVault may repeat an accepted request at any later time. Whatever has happened to the
  job since, the handler answers with the same job id and creates nothing, although every
  call proposes a fresh random id.
\<close>

theorem ingress_resubmission:
  assumes ok: "store_ok s" and now: "ts_ok now" and perm: "\<And>fs. set (order2 fs) = set fs"
    and perm1: "\<And>fs. set (order fs) = set fs"
    and first: "EnqueueValidationWork H order jobID flt now (Some req) s = (Inr resp, s')"
    and st: "store_step\<^sup>*\<^sup>* s' t"
  shows "\<exists>resp2. EnqueueValidationWork H order2 jobID2 no_faults now2 (Some req) t = (Inr resp2, t) \<and>
    pb_JobId resp2 = pb_JobId resp"
proof -
  obtain job where v: "validate order req = None"
    and c: "CreateJob H flt now (job_request jobID req) s = (Inr job, s')" and r: "pb_JobId resp = JobID job"
    using first by (auto simp: Enqueue_Inr)
  have acc: "acceptable req" using v validate_None [of order req, OF perm1] by blast
  then have v2: "validate order2 req = None" using validate_None [of order2 req, OF perm] by blast
  have ne: "req_ValidationRequestID (job_request jobID req) \<noteq> ''''"
    using acc by (auto simp: acceptable_def job_request_def)
  have same: "req_ValidationRequestID (job_request jobID2 req) = req_ValidationRequestID (job_request jobID req)"
    by (simp add: job_request_def)
  obtain job' where "CreateJob H no_faults now2 (job_request jobID2 req) t = (Inr job', t)" "JobID job' = JobID job"
    using CreateJob_again [OF ok now c ne same st, of now2] fingerprint_job_request [of H jobID2 req jobID] by auto
  then show ?thesis using v2 r by (auto simp: Enqueue_Inr)
qed

lemma demo_enqueue:
  "\<exists>resp s'. EnqueueValidationWork (\<lambda>x. x) (\<lambda>fs. fs) ''job-1'' no_faults 0 (Some demo_pb) empty_store = (Inr resp, s')"
proof -
  have v: "validate (\<lambda>fs. fs) demo_pb = None" by code_simp
  let ?r = "new_row (\<lambda>x. x) 0 (job_request ''job-1'' demo_pb)"
  have "row_ok ?r" by (rule row_ok_new) (simp add: ts_ok_def)
  then have "stamps_ok ?r" by (simp add: row_ok_def)
  then obtain job where job: "scanJob ?r = Inr job" by (rule scanJob_ok)
  have id: "r_job_id ?r = ''job-1''" "req_JobID (job_request ''job-1'' demo_pb) = ''job-1''"
    "req_ValidationRequestID (job_request ''job-1'' demo_pb) = ''v1''"
    by (simp_all add: new_row_def job_request_def demo_pb_def)
  have "insert_job ?r empty_store = (Inr 1, \<lparr>jobs = [?r], store_meta = []\<rparr>)" by (simp add: insert_job_def empty_store_def)
  then have "CreateJob (\<lambda>x. x) no_faults 0 (job_request ''job-1'' demo_pb) empty_store = (Inr job, \<lparr>jobs = [?r], store_meta = []\<rparr>)"
    using job id by (simp add: CreateJob_def RowsAffected_def GetJob_def find_row_def)
  then show ?thesis using v by (auto simp: Enqueue_Inr)
qed

theorem ingress_resubmission_witness:
  "\<exists>resp s'. EnqueueValidationWork (\<lambda>x. x) (\<lambda>fs. fs) ''job-1'' no_faults 0 (Some demo_pb) empty_store = (Inr resp, s') \<and>
     (\<exists>resp2. EnqueueValidationWork (\<lambda>x. x) rev ''job-2'' no_faults 9 (Some demo_pb) s' = (Inr resp2, s') \<and>
        pb_JobId resp2 = pb_JobId resp)"
proof -
  obtain resp s' where e: "EnqueueValidationWork (\<lambda>x. x) (\<lambda>fs. fs) ''job-1'' no_faults 0 (Some demo_pb) empty_store = (Inr resp, s')"
    using demo_enqueue by blast
  have "\<exists>resp2. EnqueueValidationWork (\<lambda>x. x) rev ''job-2'' no_faults 9 (Some demo_pb) s' = (Inr resp2, s') \<and>
        pb_JobId resp2 = pb_JobId resp"
    by (rule ingress_resubmission [OF store_ok_empty _ _ _ e rtranclp.rtrancl_refl]) (simp_all add: ts_ok_def)
  then show ?thesis using e by blast
qed

section \<open>Issued job ids\<close>

text \<open>
  The ids the ingress issues are 36 characters, distinct for distinct random bytes, and
  safe for the Job-name scheme: a Job named for such an id and a minted identity is never
  mistaken for one of an old worker.
\<close>

theorem issued_ids_safe:
  assumes mint: "newExecutionID rd a = Inr (ExecutionID job)" and id: "JobID job = newJobID partial (Inr f)"
  shows "length (newJobID partial (Inr f)) = 36 \<and>
    (newJobID partial (Inr f) = newJobID partial' (Inr g) \<longleftrightarrow> rand_bytes f 16 = rand_bytes g 16) \<and>
    \<not> isLegacyJobName (smokeJobName job) (JobID job) \<and> \<not> isLegacyJobName (l5aJobName job) (JobID job)"
proof -
  let ?h = "EncodeToString (rand_bytes f 16)"
  have l: "length ?h = 32" by (simp add: rand_bytes_def)
  have "(''job-'' @ ?h) ! 30 = ?h ! 26" by (simp add: nth_append nth_Cons')
  moreover have "?h ! 26 \<in> set ?h" using l by (intro nth_mem) simp
  ultimately have c: "(''job-'' @ ?h) ! 30 \<in> set ?h" by simp
  then obtain d where d: "d < 16" "(''job-'' @ ?h) ! 30 = digit_char d" using EncodeToString_chars by metis
  have "sanitize_byte (digit_char d) = digit_char d"
    using digit_char_label [OF d(1)] by (auto simp: sanitize_byte_def label_char_def)
  then have ok: "sanitize_byte (JobID job ! 30) \<noteq> CHR ''-''"
    using d digit_char_label [OF d(1)] by (simp add: id newJobID_def)
  have i: "newJobID partial (Inr f) = newJobID partial' (Inr g) \<longleftrightarrow> rand_bytes f 16 = rand_bytes g 16"
  proof -
    have "length (rand_bytes f 16) = length (rand_bytes g 16)" by (simp add: rand_bytes_def)
    then show ?thesis using EncodeToString_inject [of "rand_bytes f 16" "rand_bytes g 16"] by (auto simp: newJobID_def)
  qed
  have "\<not> isLegacyJobName (smokeJobName job) (JobID job)" "\<not> isLegacyJobName (l5aJobName job) (JobID job)"
    unfolding smokeJobName_def l5aJobName_def using newExecutionID_hd [OF mint]
    by (intro current_not_legacy [OF _ _ _ disjI2 [OF ok]]; blast)+
  then show ?thesis using i l by (simp add: newJobID_def)
qed

theorem issued_ids_safe_witness:
  "\<not> isLegacyJobName (smokeJobName (demo_job\<lparr>JobID := newJobID [] (Inr (\<lambda>k. 0x12)), ExecutionID := ''a1-0707070707070707''\<rparr>))
     (newJobID [] (Inr (\<lambda>k. 0x12)))"
proof -
  have m: "newExecutionID (Inr (\<lambda>k. 7)) 1 = Inr ''a1-0707070707070707''" by code_simp
  show ?thesis
    using issued_ids_safe [of "Inr (\<lambda>k. 7)" 1
        "demo_job\<lparr>JobID := newJobID [] (Inr (\<lambda>k. 0x12)), ExecutionID := ''a1-0707070707070707''\<rparr>" "[]" "\<lambda>k. 0x12"] m
    by simp
qed

end
