(* ===== verification/Vault_Client.thy ===== *)
theory Vault_Client
  imports Work_Types
begin

text \<open>
  pkg/vaultclient/client.go: the records sent to NodeVault and the HTTP client's error
  taxonomy. The HTTP transport and the JSON text of a body are parameters; an error keeps
  what \<open>errors.As\<close> looks for, the \<open>SubmitError\<close> of a non-2xx response.
\<close>

section \<open>Wire records\<close>

definition StageL3 :: string where "StageL3 = ''L3''"
definition StageL4 :: string where "StageL4 = ''L4''"
definition StageL5A :: string where "StageL5A = ''L5A''"
definition StageL5B :: string where "StageL5B = ''L5B''"

record PortObservation =
  po_Port :: string
  po_FileCount :: int
  po_NonEmpty :: bool

record SubmitCheckRecordRequest =
  cr_CheckID :: string
  cr_ToolSpecDigest :: string
  cr_ImageDigest :: string
  cr_ToolName :: string
  cr_Version :: string
  cr_ValidationRequestID :: string
  cr_SentinelJobID :: string
  cr_Stage :: string
  cr_Terminal :: bool
  cr_ValidationStatus :: string
  cr_ValidationHash :: string
  cr_Command :: string
  cr_ExitCode :: int
  cr_ObservedInputs :: "PortObservation list"
  cr_ObservedOutputs :: "PortObservation list"
  cr_PeakCPUMilli :: int
  cr_PeakMemoryMiB :: int
  cr_DurationSeconds :: int
  cr_Timeout :: bool
  cr_AllOutputsPresent :: bool
  cr_ContractResult :: string
  cr_FailureKind :: string
  cr_FailureCode :: string
  cr_Retryable :: bool
  cr_FailureReason :: string

record SubmitScanRecordRequest =
  sr_ScanID :: string
  sr_ImageDigest :: string
  sr_ToolName :: string
  sr_ValidationRequestID :: string
  sr_SentinelJobID :: string
  sr_Stage :: string
  sr_Terminal :: bool
  sr_Scanner :: string
  sr_ScannerVersion :: string
  sr_ScannedAt :: string
  sr_Source :: string
  sr_CriticalCount :: int
  sr_HighCount :: int
  sr_MediumCount :: int
  sr_LowCount :: int
  sr_PolicyMode :: string
  sr_PolicyResult :: string

record SubmitResponse =
  RecordID :: string
  CertificationStatus :: string

text \<open>A body \<open>post\<close> sends.\<close>

datatype submission = CheckBody SubmitCheckRecordRequest | ScanBody SubmitScanRecordRequest

section \<open>Errors\<close>

text \<open>
  \<open>SubmitErr code body text\<close>: an error whose chain holds a \<open>SubmitError\<close>; the last
  argument of both is the text \<open>Error()\<close> returns.
\<close>

datatype vault_error = SubmitErr int string string | TransportErr string

fun vault_error_text :: "vault_error \<Rightarrow> string" where
  "vault_error_text (SubmitErr _ _ t) = t"
| "vault_error_text (TransportErr t) = t"

fun Retryable :: "vault_error \<Rightarrow> bool" where
  "Retryable (SubmitErr code _ _) = (code \<ge> 500)"
| "Retryable (TransportErr _) = True"

section \<open>Requests\<close>

text \<open>\<open>strings.TrimRight(addr, slash)\<close>\<close>

definition trim_slashes :: "string \<Rightarrow> string" where
  "trim_slashes addr = rev (dropWhile (\<lambda>c. c = CHR ''/'') (rev addr))"

definition defaultVaultAPIAddr :: string where
  "defaultVaultAPIAddr = ''http://nodevault.nodevault-system.svc:8082''"

definition NewWithAddr :: "string \<Rightarrow> string" where
  "NewWithAddr addr = trim_slashes addr"

definition New_addr :: "string \<Rightarrow> string" where
  "New_addr env = NewWithAddr (if env = '''' then defaultVaultAPIAddr else env)"

definition checkRecordsPath :: string where "checkRecordsPath = ''/v1/validation/check-records''"
definition scanRecordsPath :: string where "scanRecordsPath = ''/v1/validation/scan-records''"

text \<open>What one exchange with the server can give.\<close>

datatype http_result = NewRequestErr string | DoErr string | ReadErr string | Response int string

text \<open>
  \<open>marshal\<close> and \<open>unmarshal\<close> stand for encoding/json on the body and on the response;
  \<open>exchange\<close> for the HTTP transport. The response body is read up to 65536 bytes.
\<close>

definition post ::
  "(submission \<Rightarrow> string + string) \<Rightarrow> (string \<Rightarrow> string \<Rightarrow> http_result) \<Rightarrow> (string \<Rightarrow> string + SubmitResponse) \<Rightarrow>
     string \<Rightarrow> submission \<Rightarrow> vault_error + SubmitResponse" where
  "post marshal exchange unmarshal url body =
     (case marshal body of
        Inl e \<Rightarrow> Inl (TransportErr (''vaultclient: marshal: '' @ e))
      | Inr data \<Rightarrow>
     (case exchange url data of
        NewRequestErr e \<Rightarrow> Inl (TransportErr (''vaultclient: new request: '' @ e))
      | DoErr e \<Rightarrow> Inl (TransportErr (''vaultclient: POST '' @ url @ '': '' @ e))
      | ReadErr e \<Rightarrow> Inl (TransportErr (''vaultclient: read response body: '' @ e))
      | Response code full \<Rightarrow>
          let respBody = take 65536 full
          in if code < 200 \<or> code \<ge> 300
             then Inl (SubmitErr code respBody
                    (''vaultclient: POST '' @ url @ '': HTTP '' @ Itoa code @ '': '' @ respBody))
             else case unmarshal respBody of
                    Inl e \<Rightarrow> Inl (TransportErr (''vaultclient: decode response: '' @ e))
                  | Inr result \<Rightarrow> Inr result))"

definition Submit ::
  "(submission \<Rightarrow> string + string) \<Rightarrow> (string \<Rightarrow> string \<Rightarrow> http_result) \<Rightarrow> (string \<Rightarrow> string + SubmitResponse) \<Rightarrow>
     string \<Rightarrow> submission \<Rightarrow> vault_error + SubmitResponse" where
  "Submit marshal exchange unmarshal baseURL body =
     post marshal exchange unmarshal
       (baseURL @ (case body of CheckBody _ \<Rightarrow> checkRecordsPath | ScanBody _ \<Rightarrow> scanRecordsPath)) body"

section \<open>Which failures are worth resubmitting\<close>

text \<open>
  A submission is given up as permanently rejected exactly when the server answered it
  with a status outside 200 to 299 and below 500; no answer, an unreadable answer and a 5xx
  are all resubmitted. The request URL has exactly one slash between address and path.
\<close>

theorem Submit_permanent_iff:
  "((\<exists>e. Submit marshal exchange unmarshal (NewWithAddr addr) body = Inl e \<and> \<not> Retryable e) \<longleftrightarrow>
     (\<exists>data code full. marshal body = Inr data \<and>
        exchange (NewWithAddr addr @ (case body of CheckBody _ \<Rightarrow> checkRecordsPath | ScanBody _ \<Rightarrow> scanRecordsPath)) data
          = Response code full \<and> code < 500 \<and> \<not> (200 \<le> code \<and> code < 300))) \<and>
   (NewWithAddr addr = [] \<or> last (NewWithAddr addr) \<noteq> CHR ''/'')"
proof
  show "(\<exists>e. Submit marshal exchange unmarshal (NewWithAddr addr) body = Inl e \<and> \<not> Retryable e) \<longleftrightarrow>
     (\<exists>data code full. marshal body = Inr data \<and>
        exchange (NewWithAddr addr @ (case body of CheckBody _ \<Rightarrow> checkRecordsPath | ScanBody _ \<Rightarrow> scanRecordsPath)) data
          = Response code full \<and> code < 500 \<and> \<not> (200 \<le> code \<and> code < 300))"
    by (auto simp: Submit_def post_def Let_def split: sum.splits http_result.splits if_splits)
  show "NewWithAddr addr = [] \<or> last (NewWithAddr addr) \<noteq> CHR ''/''"
    unfolding NewWithAddr_def trim_slashes_def
    by (metis (mono_tags, lifting) hd_dropWhile last_rev rev.simps(1))
qed

theorem Submit_permanent_iff_witness:
  "\<forall>x. \<exists>e. Submit (\<lambda>b. Inr ''{}'') (\<lambda>u d. Response 409 ''conflict'') (\<lambda>x. Inl ''eof'') (NewWithAddr ''http://v//'')
       (ScanBody x) = Inl e \<and> \<not> Retryable e"
proof
  fix x
  show "\<exists>e. Submit (\<lambda>b. Inr ''{}'') (\<lambda>u d. Response 409 ''conflict'') (\<lambda>x. Inl ''eof'') (NewWithAddr ''http://v//'')
       (ScanBody x) = Inl e \<and> \<not> Retryable e"
    using Submit_permanent_iff [of "\<lambda>b. Inr ''{}''" "\<lambda>u d. Response 409 ''conflict''" "\<lambda>x. Inl ''eof''" "''http://v//''" "ScanBody x"]
    by simp
qed

end
