(* ===== verification/Delivery.thy ===== *)
theory Delivery
  imports Store_Tenure Vault_Client "HOL-Library.Multiset"
begin

text \<open>
  pkg/worker/delivery.go: recording a failed first delivery, and redelivering what is
  pending. \<open>encode\<close> and \<open>decode\<close> stand for encoding/json on the stored payload, \<open>vault\<close>
  for the NodeVault client; a store write takes its own faults and clock reading.
\<close>

section \<open>Backoff\<close>

definition deliveryBaseBackoff :: duration where "deliveryBaseBackoff = 10 * second"
definition deliveryMaxBackoff :: duration where "deliveryMaxBackoff = 5 * minute"
definition deliveryBatchLimit :: int where "deliveryBatchLimit = 10"
definition deliveryClaimTTL :: duration where "deliveryClaimTTL = 2 * minute"

definition backoffDuration :: "(int \<Rightarrow> int) \<Rightarrow> int \<Rightarrow> duration" where
  "backoffDuration rnd attempts0 =
     (let attempts = (if attempts0 < 1 then 1 else attempts0);
          shift0 = attempts - 1;
          shift = (if shift0 > 8 then 8 else shift0);
          d0 = int64 (deliveryBaseBackoff * int64 (push_bit (nat shift) 1));
          d = (if d0 > deliveryMaxBackoff \<or> d0 \<le> 0 then deliveryMaxBackoff else d0);
          jitter = rnd (int64 (d div 4 + 1));
          total = int64 (d + jitter)
      in if total > deliveryMaxBackoff then deliveryMaxBackoff else total)"

section \<open>The payload\<close>

record pendingDelivery =
  pd_Kind :: string
  pd_Check :: "SubmitCheckRecordRequest option"
  pd_Scan :: "SubmitScanRecordRequest option"

definition pending_check :: "SubmitCheckRecordRequest \<Rightarrow> pendingDelivery" where
  "pending_check req = \<lparr>pd_Kind = ''check'', pd_Check = Some req, pd_Scan = None\<rparr>"

definition pending_scan :: "SubmitScanRecordRequest \<Rightarrow> pendingDelivery" where
  "pending_scan req = \<lparr>pd_Kind = ''scan'', pd_Check = None, pd_Scan = Some req\<rparr>"

section \<open>Recording outcomes\<close>

text \<open>\<open>clock\<close> is \<open>deliveryClock()\<close>, \<open>now\<close> the store's own clock.\<close>

definition markFirstDeliveryFailure ::
  "(int \<Rightarrow> int) \<Rightarrow> faults \<Rightarrow> time \<Rightarrow> time \<Rightarrow> string \<Rightarrow> Job \<Rightarrow> string \<Rightarrow> vault_error \<Rightarrow> store \<Rightarrow> (store_error + unit) \<times> store" where
  "markFirstDeliveryFailure rnd flt clock now workerName job payload deliverErr s =
     (if Retryable deliverErr
      then MarkFirstDeliveryPending flt now (JobID job) workerName (Attempt job) payload
             (vault_error_text deliverErr) (clock + backoffDuration rnd 1) s
      else MarkFirstDeliveryDeadLetter flt now (JobID job) workerName (Attempt job) payload
             (vault_error_text deliverErr) s)"

definition markDeliveryPending ::
  "(pendingDelivery \<Rightarrow> string + string) \<Rightarrow> (int \<Rightarrow> int) \<Rightarrow> faults \<Rightarrow> time \<Rightarrow> time \<Rightarrow> string \<Rightarrow> Job \<Rightarrow> submission \<Rightarrow>
     vault_error \<Rightarrow> store \<Rightarrow> store" where
  "markDeliveryPending encode rnd flt clock now workerName job body deliverErr s =
     (case encode (case body of CheckBody req \<Rightarrow> pending_check req | ScanBody req \<Rightarrow> pending_scan req) of
        Inl _ \<Rightarrow> s
      | Inr payload \<Rightarrow> snd (markFirstDeliveryFailure rnd flt clock now workerName job payload deliverErr s))"

definition resolveRedelivery ::
  "(int \<Rightarrow> int) \<Rightarrow> faults \<Rightarrow> time \<Rightarrow> time \<Rightarrow> Job \<Rightarrow> vault_error \<Rightarrow> bool \<Rightarrow> store \<Rightarrow> (store_error + unit) \<times> store" where
  "resolveRedelivery rnd flt clock now job deliverErr deadLetter s =
     (if deadLetter \<or> \<not> Retryable deliverErr
      then MarkResultDeliveryDeadLetter flt now (JobID job) (ResultDeliveryClaimToken job)
             (vault_error_text deliverErr) s
      else MarkResultDeliveryPending flt now (JobID job) (ResultDeliveryClaimToken job)
             (vault_error_text deliverErr) (clock + backoffDuration rnd (ResultDeliveryAttempts job + 1)) s)"

section \<open>Redelivery\<close>

text \<open>What one redelivery does: at most one POST, and one ledger write.\<close>

fun redelivery_attempt ::
  "(submission \<Rightarrow> vault_error + SubmitResponse) \<Rightarrow> string + pendingDelivery \<Rightarrow> submission option \<times> (vault_error \<times> bool) option" where
  "redelivery_attempt vault (Inl e) = (None, Some (TransportErr (''unmarshal pending delivery: '' @ e), True))"
| "redelivery_attempt vault (Inr pd) =
     (if pd_Kind pd = ''check''
      then case pd_Check pd of
             None \<Rightarrow> (None, Some (TransportErr ''pending check delivery payload missing check body'', True))
           | Some req \<Rightarrow> (Some (CheckBody req),
               case vault (CheckBody req) of Inl e \<Rightarrow> Some (e, False) | Inr _ \<Rightarrow> None)
      else if pd_Kind pd = ''scan''
      then case pd_Scan pd of
             None \<Rightarrow> (None, Some (TransportErr ''pending scan delivery payload missing scan body'', True))
           | Some req \<Rightarrow> (Some (ScanBody req),
               case vault (ScanBody req) of Inl e \<Rightarrow> Some (e, False) | Inr _ \<Rightarrow> None)
      else (None, Some (TransportErr (''unknown pending delivery kind '' @ fmt_q (pd_Kind pd)), True)))"

definition redeliverOne ::
  "(string \<Rightarrow> string + pendingDelivery) \<Rightarrow> (submission \<Rightarrow> vault_error + SubmitResponse) \<Rightarrow> (int \<Rightarrow> int) \<Rightarrow> faults \<Rightarrow>
     time \<Rightarrow> time \<Rightarrow> Job \<Rightarrow> store \<Rightarrow> submission option \<times> store" where
  "redeliverOne decode vault rnd flt clock now job s =
     (case redelivery_attempt vault (decode (ResultDeliveryPayload job)) of
        (sent, Some (e, malformedShape)) \<Rightarrow> (sent, snd (resolveRedelivery rnd flt clock now job e malformedShape s))
      | (sent, None) \<Rightarrow>
          (sent, snd (MarkResultDeliveryAcknowledged flt now (JobID job) (ResultDeliveryClaimToken job) s)))"

text \<open>
  The claimed batch. The goroutines post concurrently and each ends in one atomic store
  write; \<open>batch\<close> lists the claimed jobs in the order of those writes. \<open>env j\<close> gives the
  faults and clock readings of job \<open>j\<close>'s write, and the calls the other parts of the process
  made at the store since the write before.
\<close>

record write_env =
  we_others :: "store_call list"
  we_faults :: faults
  we_clock :: time
  we_now :: time
  we_rnd :: "int \<Rightarrow> int"

fun redeliver_batch ::
  "(string \<Rightarrow> string + pendingDelivery) \<Rightarrow> (submission \<Rightarrow> vault_error + SubmitResponse) \<Rightarrow> (string \<Rightarrow> write_env) \<Rightarrow>
     Job list \<Rightarrow> store \<Rightarrow> store" where
  "redeliver_batch decode vault env [] s = s"
| "redeliver_batch decode vault env (job # batch) s =
     (let e = env (JobID job)
      in redeliver_batch decode vault env batch
           (snd (redeliverOne decode vault (we_rnd e) (we_faults e) (we_clock e) (we_now e) job (run_calls (we_others e) s))))"

text \<open>\<open>order\<close> is the order in which the claimed batch finishes.\<close>

definition retryPendingDeliveries ::
  "bool \<Rightarrow> (string \<Rightarrow> string + pendingDelivery) \<Rightarrow> (submission \<Rightarrow> vault_error + SubmitResponse) \<Rightarrow> (string \<Rightarrow> write_env) \<Rightarrow>
     (Job list \<Rightarrow> Job list) \<Rightarrow> faults \<Rightarrow> entropy \<Rightarrow> time \<Rightarrow> store \<Rightarrow> store" where
  "retryPendingDeliveries hasVault decode vault env order flt rand now s =
     (if \<not> hasVault then s
      else case ClaimPendingDeliveries flt rand now deliveryBatchLimit deliveryClaimTTL s of
             (Inl _, s') \<Rightarrow> s'
           | (Inr claimed, s') \<Rightarrow> redeliver_batch decode vault env (order claimed) s')"

section \<open>Backoff bounds\<close>

lemma backoff_base:
  "0 \<le> k \<Longrightarrow> k \<le> 8 \<Longrightarrow> int64 (deliveryBaseBackoff * int64 (push_bit (nat k) 1)) = deliveryBaseBackoff * 2 ^ nat k \<and>
     deliveryBaseBackoff \<le> deliveryBaseBackoff * 2 ^ nat k"
proof -
  assume k: "0 \<le> k" "k \<le> 8"
  then have "(2::int) ^ nat k \<le> 2 ^ 8" by (intro power_increasing) auto
  then have p: "1 \<le> (2::int) ^ nat k" "(2::int) ^ nat k \<le> 256" by simp_all
  define x where "x = (2::int) ^ nat k"
  have x: "push_bit (nat k) 1 = x" "1 \<le> x" "x \<le> 256" using p by (simp_all add: x_def push_bit_eq_mult)
  then have "int64 x = x" "int64 (deliveryBaseBackoff * x) = deliveryBaseBackoff * x"
    by (simp_all add: in_int64_def deliveryBaseBackoff_def)
  then show ?thesis using x by (simp add: x_def [symmetric] deliveryBaseBackoff_def)
qed

lemma backoffDuration_range:
  assumes "int63n_ok rnd"
  shows "deliveryBaseBackoff \<le> backoffDuration rnd a \<and> backoffDuration rnd a \<le> deliveryMaxBackoff"
proof -
  define k where "k = (if (if a < 1 then 1 else a) - 1 > 8 then 8 else (if a < 1 then 1 else a) - 1)"
  define d0 where "d0 = int64 (deliveryBaseBackoff * int64 (push_bit (nat k) 1))"
  define d where "d = (if d0 > deliveryMaxBackoff \<or> d0 \<le> 0 then deliveryMaxBackoff else d0)"
  have "0 \<le> k" "k \<le> 8" by (simp_all add: k_def)
  then have d0: "deliveryBaseBackoff \<le> d0" using backoff_base [of k] by (simp add: d0_def)
  then have d: "deliveryBaseBackoff \<le> d" "d \<le> deliveryMaxBackoff"
    by (simp_all add: d_def deliveryBaseBackoff_def deliveryMaxBackoff_def)
  then have n: "int64 (d div 4 + 1) = d div 4 + 1"
    by (intro int64_id) (simp add: in_int64_def deliveryBaseBackoff_def deliveryMaxBackoff_def)
  have pos: "0 < d div 4 + 1" using d by (simp add: deliveryBaseBackoff_def)
  have j: "0 \<le> rnd (d div 4 + 1)" "rnd (d div 4 + 1) < d div 4 + 1"
    using assms pos unfolding int63n_ok_def by blast+
  have t: "int64 (d + rnd (d div 4 + 1)) = d + rnd (d div 4 + 1)"
    using d j by (intro int64_id) (simp add: in_int64_def deliveryBaseBackoff_def deliveryMaxBackoff_def)
  have "backoffDuration rnd a = (if d + rnd (d div 4 + 1) > deliveryMaxBackoff then deliveryMaxBackoff else d + rnd (d div 4 + 1))"
    unfolding backoffDuration_def Let_def k_def [symmetric] d0_def [symmetric] d_def [symmetric] n t by simp
  then show ?thesis using d j by (simp add: deliveryBaseBackoff_def deliveryMaxBackoff_def)
qed

text \<open>
  The delay before a redelivery lies between ten seconds and five minutes for every
  number of earlier attempts, and no int64 operation in it wraps.
\<close>

theorem backoffDuration_bounds:
  assumes "int63n_ok rnd"
  shows "deliveryBaseBackoff \<le> backoffDuration rnd attempts \<and> backoffDuration rnd attempts \<le> deliveryMaxBackoff"
  by (rule backoffDuration_range [OF assms])

theorem backoffDuration_bounds_witness:
  "int63n_ok (\<lambda>n. n - 1) \<and> backoffDuration (\<lambda>n. n - 1) 1000 \<le> 5 * minute"
proof -
  have h: "int63n_ok (\<lambda>n. n - 1)" by (simp add: int63n_ok_def)
  show ?thesis using h backoffDuration_bounds [OF h, of 1000] by (simp add: deliveryMaxBackoff_def)
qed


section \<open>Calls of the other parts of the process\<close>

text \<open>The columns of the delivery ledger.\<close>

definition delivery_state :: "row \<Rightarrow> DeliveryStatus \<times> string \<times> int \<times> string \<times> string option \<times> string option \<times> string" where
  "delivery_state r =
     (r_result_delivery_status r, r_result_delivery_payload r, r_result_delivery_attempts r, r_result_delivery_last_error r,
      r_next_attempt_at r, r_result_delivery_claimed_until r, r_result_delivery_claim_token r)"

text \<open>What the ingress, the worker loops and the readiness probe call; the rest belongs to the delivery loop.\<close>

fun foreign :: "store_call \<Rightarrow> bool" where
  "foreign (CallClaimPendingDeliveries _ _ _ _ _) = False"
| "foreign (CallMarkResultDeliveryPending _ _ _ _ _ _) = False"
| "foreign (CallMarkResultDeliveryAcknowledged _ _ _ _) = False"
| "foreign (CallMarkResultDeliveryDeadLetter _ _ _ _ _) = False"
| "foreign _ = True"

abbreviation in_ledger :: "DeliveryStatus \<times> string \<times> int \<times> string \<times> string option \<times> string option \<times> string \<Rightarrow> string \<Rightarrow> store \<Rightarrow> bool" where
  "in_ledger L j s \<equiv> row_sat j (\<lambda>r. delivery_state r = L) s"

lemma delivery_state_eq:
  "delivery_state r = delivery_state r' \<longleftrightarrow>
     r_result_delivery_status r = r_result_delivery_status r' \<and> r_result_delivery_payload r = r_result_delivery_payload r' \<and>
     r_result_delivery_attempts r = r_result_delivery_attempts r' \<and>
     r_result_delivery_last_error r = r_result_delivery_last_error r' \<and> r_next_attempt_at r = r_next_attempt_at r' \<and>
     r_result_delivery_claimed_until r = r_result_delivery_claimed_until r' \<and>
     r_result_delivery_claim_token r = r_result_delivery_claim_token r'"
  by (simp add: delivery_state_def)

text \<open>The worker's record of a first delivery, which opens the ledger of a job.\<close>

fun records_first :: "string \<Rightarrow> store_call \<Rightarrow> bool" where
  "records_first i (CallMarkFirstDeliveryPending _ _ j _ _ _ _ _) \<longleftrightarrow> j = i"
| "records_first i (CallMarkFirstDeliveryDeadLetter _ _ j _ _ _ _) \<longleftrightarrow> j = i"
| "records_first i _ \<longleftrightarrow> False"

lemma exec_ledger:
  assumes "in_ledger L j s" and "\<And>r. r_job_id (f r) = r_job_id r"
    and "\<And>r. P r \<Longrightarrow> r_job_id r = j \<Longrightarrow> r_result_delivery_status r = fst L \<Longrightarrow> delivery_state (f r) = delivery_state r"
  shows "in_ledger L j (snd (ExecContext flt n m P f s))"
  by (rule ExecContext_row_sat [OF assms(1,2)]) (use assms(3) in \<open>auto simp: delivery_state_def\<close>)

lemma foreign_keeps:
  assumes t: "in_ledger L j s" and L: "fst L \<noteq> DeliveryNotApplicable \<or> \<not> records_first j c" and "foreign c"
  shows "in_ledger L j (exec_call c s)"
proof (cases c)
  case (CallCreateJob H flt now req)
  then show ?thesis using CreateJob_cases [of H flt now req s] t append_row_sat [OF t] by auto
next
  case (CallLeaseJob flt now v ttl)
  have "in_ledger L j (update_jobs (\<lambda>x. r_job_id x = k) (lease_set now v ttl) s)" for k
    by (rule update_row_sat [OF t]) (auto simp: delivery_state_def lease_set_def)
  then show ?thesis using CallLeaseJob LeaseJob_cases [of flt now v ttl s] t by auto
next
  case (CallEnsureExecution flt rnd now k)
  have "in_ledger L j (update_jobs (\<lambda>x. r_job_id x = k) (mint_set i now) s)" for i
    by (rule update_row_sat [OF t]) (auto simp: delivery_state_def mint_set_def)
  then show ?thesis using CallEnsureExecution EnsureExecution_cases [of flt rnd now k s] t by auto
next
  case (CallCheckWritable flt now)
  then show ?thesis using t by (auto simp: CheckWritable_def row_sat_def find_row_def split: option.splits)
qed (use L assms(3) in \<open>auto simp: Heartbeat_def CompleteJob_def finishJob_def FailJob_def MarkFirstDeliveryPending_def
    MarkFirstDeliveryDeadLetter_def snd_claim_terminal snd_mark_terminal delivery_state_eq set_defs fence_defs
    intro!: exec_ledger [OF t]\<close>)

lemma foreign_calls_keep:
  "in_ledger L j s \<Longrightarrow> fst L \<noteq> DeliveryNotApplicable \<or> \<not> list_ex (records_first j) cs \<Longrightarrow> list_all foreign cs \<Longrightarrow>
     in_ledger L j (run_calls cs s)"
  by (induction cs arbitrary: s) (auto intro: foreign_keeps)

section \<open>What a redelivery leaves behind\<close>

text \<open>The row of a claimed job, until its write.\<close>

definition claimed_as :: "Job \<Rightarrow> row \<Rightarrow> bool" where
  "claimed_as job r \<longleftrightarrow> r_job_id r = JobID job \<and> r_result_delivery_status r = DeliveryDelivering \<and>
     r_result_delivery_claim_token r = ResultDeliveryClaimToken job \<and> ResultDeliveryClaimToken job \<noteq> '''' \<and>
     r_result_delivery_payload r = ResultDeliveryPayload job \<and> r_result_delivery_attempts r = ResultDeliveryAttempts job"

text \<open>The record a stored payload holds, and the answers that will not change by asking again.\<close>

definition pending_record :: "string + pendingDelivery \<Rightarrow> submission option" where
  "pending_record d =
     (case d of
        Inl _ \<Rightarrow> None
      | Inr pd \<Rightarrow>
          if pd_Kind pd = ''check'' then map_option CheckBody (pd_Check pd)
          else if pd_Kind pd = ''scan'' then map_option ScanBody (pd_Scan pd)
          else None)"

definition permanent :: "vault_error \<Rightarrow> bool" where
  "permanent err = (case err of SubmitErr code _ _ \<Rightarrow> code < 500 | TransportErr _ \<Rightarrow> False)"

lemma attempt_of_record:
  "pending_record d = None \<Longrightarrow> \<exists>sent e. redelivery_attempt vault d = (sent, Some (e, True))"
  "pending_record d = Some b \<Longrightarrow> redelivery_attempt vault d = (Some b, case vault b of Inl e \<Rightarrow> Some (e, False) | Inr _ \<Rightarrow> None)"
  by (cases d; auto simp: pending_record_def split: if_splits option.splits)+

lemma Retryable_permanent: "Retryable err \<longleftrightarrow> \<not> permanent err"
  by (cases err) (auto simp: permanent_def)

text \<open>The row of a job after its write.\<close>

definition redelivered ::
  "(string \<Rightarrow> string + pendingDelivery) \<Rightarrow> (submission \<Rightarrow> vault_error + SubmitResponse) \<Rightarrow> write_env \<Rightarrow> Job \<Rightarrow> row \<Rightarrow> bool" where
  "redelivered decode vault e job r =
     (case pending_record (decode (ResultDeliveryPayload job)) of
        None \<Rightarrow> r_result_delivery_status r = DeliveryDeadLetter \<and> r_result_delivery_payload r = ResultDeliveryPayload job
      | Some b \<Rightarrow>
          (case vault b of
             Inr _ \<Rightarrow> r_result_delivery_status r = DeliveryAcknowledged \<and> r_result_delivery_payload r = ''''
           | Inl err \<Rightarrow>
               r_result_delivery_payload r = ResultDeliveryPayload job \<and>
               r_result_delivery_last_error r = vault_error_text err \<and>
               (if permanent err then r_result_delivery_status r = DeliveryDeadLetter
                else r_result_delivery_status r = DeliveryPending \<and>
                  r_result_delivery_attempts r = ResultDeliveryAttempts job + 1 \<and>
                  r_next_attempt_at r = Some (formatTS (we_clock e + backoffDuration (we_rnd e) (ResultDeliveryAttempts job + 1))))))"

text \<open>A write the database refuses leaves the claim to expire.\<close>

definition resolved_as ::
  "(string \<Rightarrow> string + pendingDelivery) \<Rightarrow> (submission \<Rightarrow> vault_error + SubmitResponse) \<Rightarrow> write_env \<Rightarrow> Job \<Rightarrow> row \<Rightarrow> bool" where
  "resolved_as decode vault e job r \<longleftrightarrow> redelivered decode vault e job r \<or> we_faults e \<noteq> no_faults \<and> claimed_as job r"

lemma resolved_status: "resolved_as decode vault e job r \<Longrightarrow> r_result_delivery_status r \<noteq> DeliveryNotApplicable"
  by (auto simp: resolved_as_def redelivered_def claimed_as_def split: option.splits sum.splits if_splits)

text \<open>Both depend on the ledger only, so foreign calls keep them.\<close>

lemma foreign_row_sat:
  assumes "row_sat j K s" and "list_all foreign cs" and "\<And>r. K r \<Longrightarrow> r_result_delivery_status r \<noteq> DeliveryNotApplicable"
    and "\<And>r r'. K r \<Longrightarrow> r_job_id r' = r_job_id r \<Longrightarrow> delivery_state r' = delivery_state r \<Longrightarrow> K r'"
  shows "row_sat j K (run_calls cs s)"
proof -
  obtain r where r: "find_row j s = Some r" "K r" using assms(1) by (auto simp: row_sat_def)
  then have "in_ledger (delivery_state r) j (run_calls cs s)"
    using assms(2,3) by (intro foreign_calls_keep) (auto simp: row_sat_def delivery_state_def)
  then obtain r' where "find_row j (run_calls cs s) = Some r'" "delivery_state r' = delivery_state r"
    by (auto simp: row_sat_def)
  then show ?thesis using assms(4) [OF r(2)] r(1) find_row_Some [of j] by (metis row_sat_def)
qed

lemma foreign_claimed: "row_sat j (claimed_as job) s \<Longrightarrow> list_all foreign cs \<Longrightarrow> row_sat j (claimed_as job) (run_calls cs s)"
  by (erule foreign_row_sat) (auto simp: claimed_as_def delivery_state_def)

lemma resolved_by_ledger:
  "resolved_as decode vault e job r \<Longrightarrow> r_job_id r' = r_job_id r \<Longrightarrow> delivery_state r' = delivery_state r \<Longrightarrow> resolved_as decode vault e job r'"
  unfolding delivery_state_eq resolved_as_def redelivered_def claimed_as_def by (auto split: option.splits sum.splits)

lemma foreign_resolved:
  "row_sat j (resolved_as decode vault e job) s \<Longrightarrow> list_all foreign cs \<Longrightarrow> row_sat j (resolved_as decode vault e job) (run_calls cs s)"
  by (erule foreign_row_sat) (blast intro: resolved_by_ledger dest: resolved_status)+

lemma ExecContext_or: "snd (ExecContext flt i m P f s) = update_jobs P f s \<or> flt \<noteq> no_faults \<and> snd (ExecContext flt i m P f s) = s"
  by (auto simp: ExecContext_def no_faults_def split: option.splits)

text \<open>The three outcome writes, on the row they are fenced to.\<close>

lemma outcome_write:
  assumes r: "find_row (JobID job) s = Some r" and "claimed_as job r" and f: "\<And>r. r_job_id (f r) = r_job_id r"
    and w: "s' = snd (case ExecContext flt 0 m (redelivery_fence (JobID job) (ResultDeliveryClaimToken job)) f s of
        (Inl e, s') \<Rightarrow> (Inl e, s') | (Inr n, s') \<Rightarrow> (ensureDeliveryAffected flt 1 n, s'))"
  shows "find_row (JobID job) s' = Some (f r) \<or> flt \<noteq> no_faults \<and> s' = s"
proof -
  have fence: "redelivery_fence (JobID job) (ResultDeliveryClaimToken job) r"
    using assms(2) by (simp add: claimed_as_def redelivery_fence_def)
  have "s' = snd (ExecContext flt 0 m (redelivery_fence (JobID job) (ResultDeliveryClaimToken job)) f s)"
    using w by (simp split: prod.splits sum.splits)
  then show ?thesis
    using ExecContext_or [of flt 0 m "redelivery_fence (JobID job) (ResultDeliveryClaimToken job)" f s] find_row_updated [OF r f] fence by auto
qed

lemma redeliverOne_row:
  fixes decode :: "string \<Rightarrow> string + pendingDelivery" and vault :: "submission \<Rightarrow> vault_error + SubmitResponse" and e :: write_env
  assumes "row_sat (JobID job) (claimed_as job) s"
  defines "s' \<equiv> snd (redeliverOne decode vault (we_rnd e) (we_faults e) (we_clock e) (we_now e) job s)"
  shows "row_sat (JobID job) (resolved_as decode vault e job) s'"
proof -
  let ?d = "decode (ResultDeliveryPayload job)" and ?tk = "ResultDeliveryClaimToken job"
  let ?next = "we_clock e + backoffDuration (we_rnd e) (ResultDeliveryAttempts job + 1)"
  obtain r where r: "find_row (JobID job) s = Some r" "claimed_as job r" using assms(1) by (auto simp: row_sat_def)
  have by_row: "row_sat (JobID job) (resolved_as decode vault e job) u"
    if "find_row (JobID job) u = Some (f r) \<or> we_faults e \<noteq> no_faults \<and> u = s" "redelivered decode vault e job (f r)" for u f
    using that r by (auto simp: row_sat_def resolved_as_def)
  note defs = s'_def redeliverOne_def resolveRedelivery_def Retryable_permanent
  have dead: "row_sat (JobID job) (resolved_as decode vault e job) (snd (MarkResultDeliveryDeadLetter (we_faults e) (we_now e) (JobID job) ?tk m s))"
    if "redelivered decode vault e job (dead_set m (we_now e) r)" for m
    by (rule by_row [where f = "dead_set m (we_now e)", OF outcome_write [where f = "dead_set m (we_now e)" and flt = "we_faults e", OF r] that])
      (simp_all add: MarkResultDeliveryDeadLetter_def dead_set_def)
  have pending: "row_sat (JobID job) (resolved_as decode vault e job) (snd (MarkResultDeliveryPending (we_faults e) (we_now e) (JobID job) ?tk m ?next s))"
    if "redelivered decode vault e job (pending_set m ?next (we_now e) r)" for m
    by (rule by_row [where f = "pending_set m ?next (we_now e)", OF outcome_write [where f = "pending_set m ?next (we_now e)" and flt = "we_faults e", OF r] that])
      (simp_all add: MarkResultDeliveryPending_def pending_set_def)
  have ack: "row_sat (JobID job) (resolved_as decode vault e job) (snd (MarkResultDeliveryAcknowledged (we_faults e) (we_now e) (JobID job) ?tk s))"
    if "redelivered decode vault e job (acknowledged_set (we_now e) r)"
    by (rule by_row [where f = "acknowledged_set (we_now e)", OF outcome_write [where f = "acknowledged_set (we_now e)" and flt = "we_faults e", OF r] that])
      (simp_all add: MarkResultDeliveryAcknowledged_def acknowledged_set_def)
  show ?thesis
  proof (cases "pending_record ?d")
    case None
    then obtain sent err where a: "redelivery_attempt vault ?d = (sent, Some (err, True))" using attempt_of_record(1) by blast
    show ?thesis unfolding defs a using r(2) by (auto intro!: dead simp: redelivered_def None claimed_as_def dead_set_def)
  next
    case (Some b)
    note a = attempt_of_record(2) [OF Some, of vault]
    show ?thesis unfolding defs a using r(2)
      by (cases "vault b")
        (auto intro!: dead pending ack simp: redelivered_def Some claimed_as_def dead_set_def pending_set_def acknowledged_set_def)
  qed
qed

lemma redeliverOne_other:
  "i \<noteq> JobID job \<Longrightarrow> find_row i (snd (redeliverOne decode vault rnd flt clock now job s)) = find_row i s"
  by (auto simp: redeliverOne_def resolveRedelivery_def MarkResultDeliveryAcknowledged_def MarkResultDeliveryPending_def
      MarkResultDeliveryDeadLetter_def ExecContext_def ack_u.find_row_other dead_u.find_row_other pending_u.find_row_other
      split: option.splits prod.splits)

text \<open>Between the writes of a batch only foreign calls are made.\<close>

definition batch_env :: "(string \<Rightarrow> write_env) \<Rightarrow> bool" where
  "batch_env env \<longleftrightarrow> (\<forall>j. list_all foreign (we_others (env j)))"

lemma redeliver_batch_frame:
  assumes "\<And>t j. Q (find_row i t) \<Longrightarrow> Q (find_row i (run_calls (we_others (env j)) t))"
  shows "i \<notin> JobID ` set batch \<Longrightarrow> Q (find_row i s) \<Longrightarrow> Q (find_row i (redeliver_batch decode vault env batch s))"
proof (induction batch arbitrary: s)
  case (Cons job batch)
  let ?e = "env (JobID job)"
  have "i \<noteq> JobID job" using Cons.prems(1) by simp
  then have "Q (find_row i (snd (redeliverOne decode vault (we_rnd ?e) (we_faults ?e) (we_clock ?e) (we_now ?e) job
      (run_calls (we_others ?e) s))))" using assms [OF Cons.prems(2)] by (simp add: redeliverOne_other)
  then show ?case using Cons.IH Cons.prems(1) by (simp add: Let_def)
qed simp

lemma redeliver_batch_rows:
  assumes env: "batch_env env"
  shows "distinct (map JobID batch) \<Longrightarrow> \<forall>job \<in> set batch. row_sat (JobID job) (claimed_as job) s \<Longrightarrow>
    \<forall>job \<in> set batch. row_sat (JobID job) (resolved_as decode vault (env (JobID job)) job) (redeliver_batch decode vault env batch s)"
proof (induction batch arbitrary: s)
  case (Cons job batch)
  let ?e = "env (JobID job)"
  let ?t = "run_calls (we_others ?e) s"
  let ?u = "snd (redeliverOne decode vault (we_rnd ?e) (we_faults ?e) (we_clock ?e) (we_now ?e) job ?t)"
  have e: "\<And>j. list_all foreign (we_others (env j))" using env by (simp add: batch_env_def)
  have b: "redeliver_batch decode vault env (job # batch) s = redeliver_batch decode vault env batch ?u" by (simp add: Let_def)
  have ids: "JobID job \<notin> JobID ` set batch" using Cons.prems(1) by simp
  have t: "row_sat (JobID j) (claimed_as j) ?t" if "j \<in> set (job # batch)" for j
    using Cons.prems(2) that e by (intro foreign_claimed) auto
  have "row_sat (JobID j) (claimed_as j) ?u" if "j \<in> set batch" for j
  proof -
    have "JobID j \<noteq> JobID job" using ids that by (metis imageI)
    then show ?thesis using t [of j] that by (simp add: row_sat_def redeliverOne_other)
  qed
  then have rest: "\<forall>j \<in> set batch. row_sat (JobID j) (resolved_as decode vault (env (JobID j)) j) (redeliver_batch decode vault env batch ?u)"
    using Cons.IH [of ?u] Cons.prems(1) by simp
  have "row_sat (JobID job) (resolved_as decode vault ?e job) (redeliver_batch decode vault env batch ?u)"
    unfolding row_sat_def
    by (rule redeliver_batch_frame [where Q = "\<lambda>x. \<exists>r. x = Some r \<and> resolved_as decode vault ?e job r", OF _ ids])
      (use redeliverOne_row [OF t, where decode = decode and vault = vault] foreign_resolved [OF _ e] in \<open>auto simp: row_sat_def\<close>)
  then show ?case unfolding b using rest by simp
qed simp

lemma scanJob_payload:
  "scanJob r = Inr job \<Longrightarrow> r_result_delivery_payload r = ResultDeliveryPayload job \<and>
     r_result_delivery_attempts r = ResultDeliveryAttempts job"
  by (auto simp: scanJob_def split: sum.splits)

text \<open>What a pass does to the rows it claimed, and to the others.\<close>

lemma pass_resolves:
  fixes decode :: "string \<Rightarrow> string + pendingDelivery" and vault :: "submission \<Rightarrow> vault_error + SubmitResponse"
  assumes ok: "store_ok s"
    and claim: "ClaimPendingDeliveries flt rand now deliveryBatchLimit deliveryClaimTTL s = (Inr claimed, s1)"
    and perm: "mset (order claimed) = mset claimed" and env: "batch_env env"
  defines "s' \<equiv> retryPendingDeliveries True decode vault env order flt rand now s"
  shows "\<And>job. job \<in> set claimed \<Longrightarrow> row_sat (JobID job) (resolved_as decode vault (env (JobID job)) job) s'"
    and "\<And>i Q. i \<notin> JobID ` set claimed \<Longrightarrow> Q (find_row i s) \<Longrightarrow>
      (\<And>t j. Q (find_row i t) \<Longrightarrow> Q (find_row i (run_calls (we_others (env j)) t))) \<Longrightarrow> Q (find_row i s')"
proof -
  have run: "s' = redeliver_batch decode vault env (order claimed) s1"
    by (simp add: s'_def retryPendingDeliveries_def claim)
  have st: "set (order claimed) = set claimed" using perm by (metis set_mset_mset)
  note loop = ClaimPendingDeliveries_Inr [OF claim]
  note sel = claim_selection_props(1) [OF store_ok_distinct [OF ok], of now deliveryBatchLimit]
  have out: "map JobID claimed = map r_job_id (claim_selection now deliveryBatchLimit s)"
    "\<And>job. job \<in> set claimed \<Longrightarrow> holds_claim (formatTS (now + deliveryClaimTTL)) s1 job"
    using claim_loop_out [OF loop sel] by auto
  have "distinct (map JobID claimed)" using out(1) sel by simp
  then have dist: "distinct (map JobID (order claimed))"
    using perm by (metis mset_eq_imp_distinct_iff mset_map)
  have "row_sat (JobID job) (claimed_as job) s1" if "job \<in> set claimed" for job
    using out(2) [OF that] scanJob_payload by (auto simp: holds_claim_def row_sat_def claimed_as_def redelivery_fence_def)
  then have "\<forall>job \<in> set (order claimed). row_sat (JobID job) (claimed_as job) s1" using st by simp
  from redeliver_batch_rows [OF env dist this]
  show "row_sat (JobID job) (resolved_as decode vault (env (JobID job)) job) s'" if "job \<in> set claimed" for job
    using that st by (simp add: run)
  show "Q (find_row i s')" if "i \<notin> JobID ` set claimed" "Q (find_row i s)"
    "\<And>t j. Q (find_row i t) \<Longrightarrow> Q (find_row i (run_calls (we_others (env j)) t))" for i Q
  proof -
    have "i \<notin> set (map r_job_id (claim_selection now deliveryBatchLimit s))" using that(1) out(1) by (metis list.set_map)
    then have "Q (find_row i s1)" using that(2) claim_loop_other [OF loop] by simp
    then show ?thesis
      using redeliver_batch_frame [where Q = Q and i = i and env = env and batch = "order claimed" and s = s1, OF that(3)] st that(1)
      by (simp add: run)
  qed
qed

text \<open>
  C25: one redelivery pass resolves every delivery it claimed, each by its own answer,
  whatever the order the concurrent posts finish in and whatever the ingress and the worker
  loops do at the store meanwhile. A payload that cannot be decoded or holds no record is
  dead-lettered. A record NodeVault accepts is acknowledged and its payload erased; one it
  answers with a status below 500 is dead-lettered; after any other failure it goes back to
  pending with one more attempt counted and a next attempt ten seconds to five minutes away.
  Unless it is acknowledged the payload is kept, and after a failed post the error too. Only a
  job whose outcome write hits a database error may be left as it was claimed. The ledger of
  no other job changes, unless a worker records that job's first delivery meanwhile.
\<close>

theorem redelivery_pass_resolves_batch:
  assumes ok: "store_ok s"
    and claim: "ClaimPendingDeliveries flt rand now deliveryBatchLimit deliveryClaimTTL s = (Inr claimed, s1)"
    and perm: "mset (order claimed) = mset claimed"
    and env: "\<And>j. int63n_ok (we_rnd (env j)) \<and> list_all foreign (we_others (env j))"
  shows "(\<forall>job \<in> set claimed. \<exists>r. find_row (JobID job) (retryPendingDeliveries True decode vault env order flt rand now s) = Some r \<and>
      (we_faults (env (JobID job)) \<noteq> no_faults \<and> r_result_delivery_status r = DeliveryDelivering \<and>
         r_result_delivery_payload r = ResultDeliveryPayload job \<and> r_result_delivery_claim_token r = ResultDeliveryClaimToken job \<or>
       (case pending_record (decode (ResultDeliveryPayload job)) of
          None \<Rightarrow> r_result_delivery_status r = DeliveryDeadLetter \<and> r_result_delivery_payload r = ResultDeliveryPayload job
        | Some b \<Rightarrow>
            (case vault b of
               Inr _ \<Rightarrow> r_result_delivery_status r = DeliveryAcknowledged \<and> r_result_delivery_payload r = ''''
             | Inl err \<Rightarrow>
                 r_result_delivery_payload r = ResultDeliveryPayload job \<and>
                 r_result_delivery_last_error r = vault_error_text err \<and>
                 (if permanent err then r_result_delivery_status r = DeliveryDeadLetter
                  else r_result_delivery_status r = DeliveryPending \<and>
                    r_result_delivery_attempts r = ResultDeliveryAttempts job + 1 \<and>
                    (\<exists>t. r_next_attempt_at r = Some (formatTS t) \<and> we_clock (env (JobID job)) + 10 * second \<le> t \<and>
                       t \<le> we_clock (env (JobID job)) + 5 * minute)))))) \<and>
    (\<forall>i r. i \<notin> JobID ` set claimed \<longrightarrow> find_row i s = Some r \<longrightarrow>
       r_result_delivery_status r \<noteq> DeliveryNotApplicable \<or> (\<forall>j. \<not> list_ex (records_first i) (we_others (env j))) \<longrightarrow>
       (\<exists>r'. find_row i (retryPendingDeliveries True decode vault env order flt rand now s) = Some r' \<and>
          delivery_state r' = delivery_state r))"
proof -
  have be: "batch_env env" using env by (simp add: batch_env_def)
  note pass = pass_resolves [where decode = decode and vault = vault and order = order and env = env, OF ok claim perm be]
  have bk: "10 * second \<le> backoffDuration (we_rnd (env j)) a" "backoffDuration (we_rnd (env j)) a \<le> 5 * minute" for j a
    using backoffDuration_range [of "we_rnd (env j)" a] env [of j]
    by (simp_all add: deliveryBaseBackoff_def deliveryMaxBackoff_def)
  let ?s = "retryPendingDeliveries True decode vault env order flt rand now s"
  have rows: "\<exists>r. find_row (JobID job) ?s = Some r \<and> resolved_as decode vault (env (JobID job)) job r" if "job \<in> set claimed" for job
    using pass(1) [OF that] by (simp add: row_sat_def)
  have others: "\<exists>r'. find_row i ?s = Some r' \<and> delivery_state r' = delivery_state r"
    if i: "i \<notin> JobID ` set claimed" "find_row i s = Some r"
      "r_result_delivery_status r \<noteq> DeliveryNotApplicable \<or> (\<forall>j. \<not> list_ex (records_first i) (we_others (env j)))" for i r
  proof -
    have L: "fst (delivery_state r) \<noteq> DeliveryNotApplicable \<or> \<not> list_ex (records_first i) (we_others (env j))" for j
      using i(3) by (auto simp: delivery_state_def)
    have "in_ledger (delivery_state r) i ?s"
      unfolding row_sat_def
      by (rule pass(2)) (use i env foreign_calls_keep [OF _ L, unfolded row_sat_def] in auto)
    then show ?thesis by (auto simp: row_sat_def)
  qed
  show ?thesis
  proof (intro conjI ballI allI impI, goal_cases)
    case (1 job)
    from rows [OF 1] obtain r where r: "find_row (JobID job) ?s = Some r" "resolved_as decode vault (env (JobID job)) job r" by blast
    show ?case using r(2) bk
      by (intro exI [of _ r] conjI [OF r(1)]) (auto simp: resolved_as_def redelivered_def claimed_as_def split: option.splits sum.splits)
  next
    case (2 i r)
    then show ?case by (rule others)
  qed
qed

definition demo_env :: write_env where
  "demo_env = \<lparr>we_others = [], we_faults = no_faults, we_clock = minute, we_now = minute, we_rnd = (\<lambda>n. 0)\<rparr>"

theorem redelivery_pass_resolves_batch_witness:
  "\<exists>job r. fst (ClaimPendingDeliveries no_faults (\<lambda>_. Inr (\<lambda>i. 7)) minute deliveryBatchLimit deliveryClaimTTL
       (demo_store demo_pending)) = Inr [job] \<and>
     find_row (JobID job) (retryPendingDeliveries True (\<lambda>p. Inl ''unexpected end of JSON input'') (\<lambda>b. Inl (TransportErr ''down''))
       (\<lambda>j. demo_env) (\<lambda>c. c) no_faults (\<lambda>_. Inr (\<lambda>i. 7)) minute (demo_store demo_pending)) = Some r \<and>
     r_result_delivery_status r = DeliveryDeadLetter"
proof -
  have t: "ts_ok minute" "ts_ok (minute + deliveryClaimTTL)" by (simp_all add: ts_ok_def deliveryClaimTTL_def)
  obtain job s' where c: "ClaimPendingDeliveries no_faults (\<lambda>_. Inr (\<lambda>i. 7)) minute deliveryBatchLimit deliveryClaimTTL
      (demo_store demo_pending) = (Inr [job], s')"
    using demo_claim [OF t(2)] by (auto simp: deliveryBatchLimit_def)
  have e: "\<And>j. int63n_ok (we_rnd demo_env) \<and> list_all foreign (we_others demo_env)" and f: "we_faults demo_env = no_faults"
    by (simp_all add: demo_env_def int63n_ok_def)
  show ?thesis
    using redelivery_pass_resolves_batch [where order = "\<lambda>c. c" and env = "\<lambda>j. demo_env", OF demo_store_ok [OF demo_pending_ok] c refl e,
        of "\<lambda>p. Inl ''unexpected end of JSON input''" "\<lambda>b. Inl (TransportErr ''down'')"] c f
    by (auto simp: pending_record_def)
qed

end
