(* ===== verification/Delivery_Loop.thy ===== *)
theory Delivery_Loop
  imports Delivery
begin

text \<open>
  \<open>RunDeliveryLoop\<close> of pkg/worker/delivery.go, which makes a redelivery pass at every tick:
  it uses the store only through its interface, and it clears the backlog of an outage once
  NodeVault accepts records again.
\<close>

section \<open>The loop\<close>

text \<open>
  What a tick finds: the calls others made at the store since the last one, the answers of
  NodeVault, the order in which the concurrent posts finish, and the faults, random numbers
  and clocks of the store calls. The loop returns when its context is done, at the end of
  the list.
\<close>

record delivery_tick =
  dt_others :: "store_call list"
  dt_vault :: "submission \<Rightarrow> vault_error + SubmitResponse"
  dt_env :: "string \<Rightarrow> write_env"
  dt_order :: "Job list \<Rightarrow> Job list"
  dt_faults :: faults
  dt_entropy :: entropy
  dt_now :: time

definition delivery_pass :: "bool \<Rightarrow> (string \<Rightarrow> string + pendingDelivery) \<Rightarrow> delivery_tick \<Rightarrow> store \<Rightarrow> store" where
  "delivery_pass hasVault decode t s =
     retryPendingDeliveries hasVault decode (dt_vault t) (dt_env t) (dt_order t) (dt_faults t) (dt_entropy t) (dt_now t)
       (run_calls (dt_others t) s)"

fun RunDeliveryLoop :: "bool \<Rightarrow> (string \<Rightarrow> string + pendingDelivery) \<Rightarrow> delivery_tick list \<Rightarrow> store \<Rightarrow> store" where
  "RunDeliveryLoop hasVault decode [] s = s"
| "RunDeliveryLoop hasVault decode (t # ts) s = RunDeliveryLoop hasVault decode ts (delivery_pass hasVault decode t s)"

section \<open>The loop uses the store through its interface\<close>

definition write_ok :: "write_env \<Rightarrow> bool" where
  "write_ok e \<longleftrightarrow> list_all valid_call (we_others e) \<and> ts_ok (we_now e) \<and> ts_ok (we_clock e) \<and> ts_ok (we_clock e + deliveryMaxBackoff) \<and> int63n_ok (we_rnd e)"

definition tick_ok :: "delivery_tick \<Rightarrow> bool" where
  "tick_ok t \<longleftrightarrow> list_all valid_call (dt_others t) \<and> ts_ok (dt_now t) \<and> ts_ok (dt_now t + deliveryClaimTTL) \<and>
     (\<forall>j. write_ok (dt_env t j))"

lemma call_reach: "valid_call c \<Longrightarrow> exec_call c s = t \<Longrightarrow> store_step\<^sup>*\<^sup>* s t"
  by (auto intro: store_step.intros)

lemma backoff_stamp:
  assumes "write_ok e"
  shows "ts_ok (we_clock e + backoffDuration (we_rnd e) n)"
  using assms backoffDuration_range [of "we_rnd e" n] unfolding write_ok_def ts_ok_def deliveryBaseBackoff_def by linarith

lemma redeliverOne_reach:
  assumes e: "write_ok e"
  shows "store_step\<^sup>*\<^sup>* s (snd (redeliverOne decode vault (we_rnd e) flt (we_clock e) (we_now e) job s))"
proof -
  note nx = backoff_stamp [OF e, of "ResultDeliveryAttempts job + 1"]
  have now: "ts_ok (we_now e)" using e by (simp add: write_ok_def)
  have "store_step\<^sup>*\<^sup>* s (snd (MarkResultDeliveryAcknowledged flt (we_now e) j tk s))" for j tk
    using now by (intro call_reach [of "CallMarkResultDeliveryAcknowledged flt (we_now e) j tk"]) simp_all
  moreover have "store_step\<^sup>*\<^sup>* s (snd (MarkResultDeliveryDeadLetter flt (we_now e) j tk m s))" for j tk m
    using now by (intro call_reach [of "CallMarkResultDeliveryDeadLetter flt (we_now e) j tk m"]) simp_all
  moreover have "store_step\<^sup>*\<^sup>* s (snd (MarkResultDeliveryPending flt (we_now e) j tk m
      (we_clock e + backoffDuration (we_rnd e) (ResultDeliveryAttempts job + 1)) s))" for j tk m
    using now nx by (intro call_reach [of "CallMarkResultDeliveryPending flt (we_now e) j tk m _"]) simp_all
  ultimately show ?thesis
    by (auto simp: redeliverOne_def resolveRedelivery_def split: prod.splits option.splits)
qed

lemma redeliver_batch_reach:
  "\<forall>j. write_ok (env j) \<Longrightarrow> store_step\<^sup>*\<^sup>* s (redeliver_batch decode vault env batch s)"
proof (induction batch arbitrary: s)
  case (Cons job batch)
  let ?e = "env (JobID job)"
  let ?t = "run_calls (we_others ?e) s"
  have "store_step\<^sup>*\<^sup>* s ?t" using Cons.prems by (simp add: write_ok_def run_calls_reach)
  moreover have "store_step\<^sup>*\<^sup>* ?t (snd (redeliverOne decode vault (we_rnd ?e) (we_faults ?e) (we_clock ?e) (we_now ?e) job ?t))"
    using Cons.prems by (intro redeliverOne_reach) simp
  ultimately show ?case using Cons.IH [OF Cons.prems] by (simp add: Let_def) (meson rtranclp_trans)
qed simp

lemma pass_reach:
  assumes "tick_ok t"
  shows "store_step\<^sup>*\<^sup>* s (delivery_pass hasVault decode t s)"
proof -
  let ?s = "run_calls (dt_others t) s"
  let ?claim = "ClaimPendingDeliveries (dt_faults t) (dt_entropy t) (dt_now t) deliveryBatchLimit deliveryClaimTTL ?s"
  have others: "store_step\<^sup>*\<^sup>* s ?s" using assms by (simp add: tick_ok_def run_calls_reach)
  have claim: "store_step\<^sup>*\<^sup>* ?s (snd ?claim)"
    using assms by (intro call_reach [of "CallClaimPendingDeliveries _ _ _ _ _"]) (simp_all add: tick_ok_def)
  have "store_step\<^sup>*\<^sup>* u (redeliver_batch decode (dt_vault t) (dt_env t) batch u)" for u batch
    using assms by (intro redeliver_batch_reach) (simp add: tick_ok_def)
  then have "store_step\<^sup>*\<^sup>* ?s (delivery_pass hasVault decode t s)"
    using claim unfolding delivery_pass_def retryPendingDeliveries_def
    by (auto split: prod.splits sum.splits intro: rtranclp_trans)
  with others show ?thesis by (rule rtranclp_trans)
qed

lemma RunDeliveryLoop_reach: "list_all tick_ok ts \<Longrightarrow> store_step\<^sup>*\<^sup>* s (RunDeliveryLoop hasVault decode ts s)"
proof (induction ts arbitrary: s)
  case (Cons t ts)
  then show ?case using pass_reach [of t s hasVault decode] by (auto intro: rtranclp_trans)
qed simp

section \<open>A pass at a store that answers\<close>

text \<open>The claim loop succeeds when every id has a row with readable timestamps.\<close>

lemma claim_set_stamps: "stamps_ok r \<Longrightarrow> ts_ok n \<Longrightarrow> ts_ok u \<Longrightarrow> stamps_ok (claim_set (formatTS u) tk (formatTS n) r)"
  by (simp add: stamps_ok_def claim_set_def opt_stamp_def stamp_formatTS)

lemma claim_loop_succeeds:
  assumes rnd: "\<And>k. \<exists>f. rnd k = Inr f" and ts: "ts_ok n" "ts_ok u"
  shows "\<forall>j \<in> set ids. \<exists>r. find_row j s = Some r \<and> stamps_ok r \<Longrightarrow>
    \<exists>out s'. claim_loop no_faults rnd (formatTS u) (formatTS n) k ids s = Inr (out, s')"
proof (induction ids arbitrary: k s)
  case (Cons jid ids)
  obtain f where f: "rnd k = Inr f" using rnd by blast
  define tk where "tk = EncodeToString (rand_bytes f 16)"
  let ?s = "update_jobs (\<lambda>r. r_job_id r = jid) (claim_set (formatTS u) tk (formatTS n)) s"
  obtain r where r: "find_row jid s = Some r" "stamps_ok r" using Cons.prems by auto
  note st = claim_set_stamps [OF r(2) ts]
  have new: "find_row jid ?s = Some (claim_set (formatTS u) tk (formatTS n) r)" using r(1) find_row_Some [OF r(1)] by (simp add: claim_u.find_row_update)
  have old: "find_row j ?s = find_row j s" if "j \<noteq> jid" for j using that by (simp add: claim_u.find_row_other)
  obtain job where job: "scanJob (claim_set (formatTS u) tk (formatTS n) r) = Inr job" by (rule scanJob_ok [OF st])
  have "\<forall>j \<in> set ids. \<exists>r. find_row j ?s = Some r \<and> stamps_ok r"
  proof
    fix j assume "j \<in> set ids"
    then show "\<exists>r. find_row j ?s = Some r \<and> stamps_ok r"
      using new st old [of j] Cons.prems by (cases "j = jid") auto
  qed
  then obtain out s' where "claim_loop no_faults rnd (formatTS u) (formatTS n) (Suc k) ids ?s = Inr (out, s')"
    using Cons.IH by blast
  then show ?case using f new job by (simp add: newClaimToken_def tk_def ExecContext_def no_faults_def)
qed simp

lemma claim_loop_row:
  "claim_loop flt rnd u n k ids s = Inr (out, s') \<Longrightarrow> distinct ids \<Longrightarrow> j \<in> set ids \<Longrightarrow>
     \<exists>r tk. find_row j s = Some r \<and> find_row j s' = Some (claim_set u tk n r)"
proof (induction ids arbitrary: k s out)
  case (Cons jid ids)
  then obtain tk out' r where
    loop: "claim_loop flt rnd u n (Suc k) ids (update_jobs (\<lambda>r. r_job_id r = jid) (claim_set u tk n) s) = Inr (out', s')"
    and r: "find_row jid (update_jobs (\<lambda>r. r_job_id r = jid) (claim_set u tk n) s) = Some r"
    by (auto simp: ExecContext_def split: sum.splits option.splits prod.splits)
  show ?case
  proof (cases "j = jid")
    case True
    have "find_row j s' = Some r" using claim_loop_other [OF loop] Cons.prems(2) r True by simp
    moreover obtain z where "find_row j s = Some z" "r = claim_set u tk n z"
      using r True find_row_Some [of jid s] by (auto simp: claim_u.find_row_update)
    ultimately show ?thesis by blast
  next
    case False
    then show ?thesis using Cons.IH [OF loop] Cons.prems(2,3) claim_u.find_row_other [of j jid] by simp
  qed
qed simp

lemma ClaimPendingDeliveries_succeeds:
  assumes ok: "store_ok s" and rnd: "\<And>k. \<exists>f. rnd k = Inr f" and ts: "ts_ok now" "ts_ok (now + ttl)"
  shows "\<exists>out s'. ClaimPendingDeliveries no_faults rnd now lim ttl s = (Inr out, s')"
proof -
  note sel = claim_selection_props(2) [OF store_ok_distinct [OF ok], of now lim]
  have "\<exists>r. find_row j s = Some r \<and> stamps_ok r" if "j \<in> set (map r_job_id (claim_selection now lim s))" for j
    using that sel find_row_unique [OF store_ok_distinct [OF ok]] ok by (fastforce simp: store_ok_def row_ok_def)
  then obtain out s' where "claim_loop no_faults rnd (formatTS (now + ttl)) (formatTS now) 0
      (map r_job_id (claim_selection now lim s)) s = Inr (out, s')"
    using claim_loop_succeeds [where rnd = rnd, OF rnd ts] by blast
  then show ?thesis
    by (auto simp: ClaimPendingDeliveries_def Let_def claim_selection_def no_faults_def)
qed

section \<open>The backlog\<close>

definition undelivered :: "row \<Rightarrow> bool" where
  "undelivered r \<longleftrightarrow> r_result_delivery_status r \<in> {DeliveryPending, DeliveryDelivering}"

definition backlog :: "store \<Rightarrow> row list" where
  "backlog s = filter undelivered (jobs s)"

text \<open>A payload with a record in it.\<close>

definition readable :: "(string \<Rightarrow> string + pendingDelivery) \<Rightarrow> string \<Rightarrow> bool" where
  "readable decode p = (case decode p of
     Inl _ \<Rightarrow> False
   | Inr pd \<Rightarrow> pd_Kind pd = ''check'' \<and> pd_Check pd \<noteq> None \<or> pd_Kind pd = ''scan'' \<and> pd_Scan pd \<noteq> None)"

text \<open>The database answers, nobody else writes, and NodeVault accepts every record.\<close>

definition healthy :: "delivery_tick \<Rightarrow> bool" where
  "healthy t \<longleftrightarrow> tick_ok t \<and> dt_others t = [] \<and> dt_faults t = no_faults \<and> (\<forall>k. \<exists>f. dt_entropy t k = Inr f) \<and>
     (\<forall>j. we_faults (dt_env t j) = no_faults \<and> we_others (dt_env t j) = []) \<and> (\<forall>b. \<exists>resp. dt_vault t b = Inr resp) \<and>
     (\<forall>batch. mset (dt_order t batch) = mset batch)"

definition resolved :: "(string \<Rightarrow> string + pendingDelivery) \<Rightarrow> row \<Rightarrow> row \<Rightarrow> bool" where
  "resolved decode r r' \<longleftrightarrow> r_result_delivery_status r' =
     (if readable decode (r_result_delivery_payload r) then DeliveryAcknowledged else DeliveryDeadLetter)"

lemma readable_record: "readable decode p \<longleftrightarrow> pending_record (decode p) \<noteq> None"
  by (auto simp: readable_def pending_record_def split: sum.splits)

lemma redelivered_accepted:
  assumes "\<forall>b. \<exists>resp. vault b = Inr resp" and "ResultDeliveryPayload job = r_result_delivery_payload r0"
    and "redelivered decode vault e job r"
  shows "resolved decode r0 r"
proof (cases "pending_record (decode (r_result_delivery_payload r0))")
  case None
  then show ?thesis using assms(2,3) by (simp add: resolved_def redelivered_def readable_record)
next
  case (Some b)
  obtain resp where "vault b = Inr resp" using assms(1) by blast
  then show ?thesis using Some assms(2,3) by (simp add: resolved_def redelivered_def readable_record)
qed

lemma healthy_pass:
  assumes ok: "store_ok s" and h: "healthy t"
  defines "sel \<equiv> r_job_id ` set (claim_selection (dt_now t) deliveryBatchLimit s)"
  shows "j \<in> sel \<Longrightarrow> \<exists>r r'. find_row j s = Some r \<and> find_row j (delivery_pass True decode t s) = Some r' \<and> resolved decode r r'"
    and "j \<notin> sel \<Longrightarrow> find_row j (delivery_pass True decode t s) = find_row j s"
    and "store_ok (delivery_pass True decode t s)"
proof -
  have t: "ts_ok (dt_now t)" "ts_ok (dt_now t + deliveryClaimTTL)" "tick_ok t" "dt_others t = []" "dt_faults t = no_faults"
    "\<And>k. \<exists>f. dt_entropy t k = Inr f" "\<And>j. we_faults (dt_env t j) = no_faults \<and> we_others (dt_env t j) = []" "\<forall>b. \<exists>resp. dt_vault t b = Inr resp"
    "\<And>batch. mset (dt_order t batch) = mset batch" using h by (simp_all add: healthy_def tick_ok_def)
  show "store_ok (delivery_pass True decode t s)" using pass_reach [OF t(3)] store_inv.inv_reach ok by blast
  obtain claimed s1 where claim: "ClaimPendingDeliveries no_faults (dt_entropy t) (dt_now t) deliveryBatchLimit deliveryClaimTTL s = (Inr claimed, s1)"
    using ClaimPendingDeliveries_succeeds [where rnd = "dt_entropy t", OF ok t(6,1,2)] by blast
  have p: "delivery_pass True decode t s =
      retryPendingDeliveries True decode (dt_vault t) (dt_env t) (dt_order t) no_faults (dt_entropy t) (dt_now t) s"
    by (simp add: delivery_pass_def t(4,5))
  have env: "batch_env (dt_env t)" using t(7) by (simp add: batch_env_def)
  note pass = pass_resolves [where decode = decode and vault = "dt_vault t" and order = "dt_order t" and env = "dt_env t",
      OF ok claim t(9) env]
  note loop = ClaimPendingDeliveries_Inr [OF claim]
  note dist = claim_selection_props(1) [OF store_ok_distinct [OF ok], of "dt_now t" deliveryBatchLimit]
  have ids: "JobID ` set claimed = sel" using claim_loop_out [OF loop dist] by (metis list.set_map sel_def)
  show "find_row j (delivery_pass True decode t s) = find_row j s" if "j \<notin> sel"
    using pass(2) [of j "\<lambda>x. x = find_row j s"] that ids t(7) by (simp add: p)
  show "\<exists>r r'. find_row j s = Some r \<and> find_row j (delivery_pass True decode t s) = Some r' \<and> resolved decode r r'" if j: "j \<in> sel"
  proof -
    obtain job where job: "job \<in> set claimed" "JobID job = j" using j ids by blast
    obtain r' where r': "find_row j (delivery_pass True decode t s) = Some r'" "redelivered decode (dt_vault t) (dt_env t j) job r'"
      using pass(1) [OF job(1)] job(2) p t(7) by (auto simp: row_sat_def resolved_as_def)
    obtain r where r: "find_row j s1 = Some r" "scanJob r = Inr job"
      using claim_loop_out [OF loop dist] job by (auto simp: holds_claim_def)
    obtain r0 tk where r0: "find_row j s = Some r0"
      "find_row j s1 = Some (claim_set (formatTS (dt_now t + deliveryClaimTTL)) tk (formatTS (dt_now t)) r0)"
      using claim_loop_row [OF loop dist, of j] j unfolding sel_def set_map by blast
    have "ResultDeliveryPayload job = r_result_delivery_payload r0"
      using scanJob_payload [OF r(2)] r(1) r0(2) by (auto simp: claim_set_def)
    then show ?thesis using r0(1) r' redelivered_accepted [OF t(8)] by blast
  qed
qed

section \<open>The backlog is cleared\<close>

abbreviation waiting :: "store \<Rightarrow> string set" where
  "waiting s \<equiv> {j. \<exists>r. find_row j s = Some r \<and> undelivered r}"

lemma claimable_undelivered: "claimable n r \<Longrightarrow> undelivered r"
  by (auto simp: claimable_def undelivered_def)

lemma waiting_backlog:
  assumes "store_ok s"
  shows "waiting s = r_job_id ` set (backlog s)" and "card (waiting s) = length (backlog s)"
proof -
  have d: "distinct (map r_job_id (jobs s))" using store_ok_distinct [OF assms] .
  show w: "waiting s = r_job_id ` set (backlog s)"
    using find_row_unique [OF d] find_row_Some [of _ s] by (fastforce simp: backlog_def)
  have "distinct (map r_job_id (backlog s))" using d by (simp add: backlog_def distinct_map inj_on_def)
  then have "card (set (map r_job_id (backlog s))) = length (map r_job_id (backlog s))" by (rule distinct_card)
  then show "card (waiting s) = length (backlog s)" by (simp add: w)
qed

text \<open>With everything due, a pass selects a full batch or all there is.\<close>

lemma selection_card:
  assumes ok: "store_ok s" and due: "\<forall>r \<in> set (jobs s). undelivered r \<longrightarrow> claimable (formatTS now) r"
  shows "r_job_id ` set (claim_selection now deliveryBatchLimit s) \<subseteq> waiting s"
    and "card (r_job_id ` set (claim_selection now deliveryBatchLimit s)) = min 10 (card (waiting s))"
proof -
  let ?sel = "claim_selection now deliveryBatchLimit s"
  note props = claim_selection_props [OF store_ok_distinct [OF ok], of now deliveryBatchLimit]
  show "r_job_id ` set ?sel \<subseteq> waiting s"
    using props(2) claimable_undelivered unfolding waiting_backlog(1) [OF ok] by (fastforce simp: backlog_def)
  have "filter (claimable (formatTS now)) (jobs s) = backlog s"
    unfolding backlog_def by (rule filter_cong) (use due claimable_undelivered in auto)
  then have "length ?sel = min 10 (length (backlog s))"
    by (simp add: claim_selection_def sql_limit_def deliveryBatchLimit_def)
  moreover have "card (set (map r_job_id ?sel)) = length (map r_job_id ?sel)" using props(1) by (rule distinct_card)
  ultimately show "card (r_job_id ` set ?sel) = min 10 (card (waiting s))" by (simp add: waiting_backlog(2) [OF ok])
qed

lemma resolved_not_waiting: "resolved decode r r' \<Longrightarrow> \<not> undelivered r'"
  by (simp add: resolved_def undelivered_def split: if_splits)

lemma waiting_after:
  assumes ok: "store_ok s" and h: "healthy t"
  shows "waiting (delivery_pass True decode t s) = waiting s - r_job_id ` set (claim_selection (dt_now t) deliveryBatchLimit s)"
proof (rule set_eqI)
  fix j
  note pass = healthy_pass [OF ok h, where decode = decode]
  show "j \<in> waiting (delivery_pass True decode t s) \<longleftrightarrow>
      j \<in> waiting s - r_job_id ` set (claim_selection (dt_now t) deliveryBatchLimit s)"
  proof (cases "j \<in> r_job_id ` set (claim_selection (dt_now t) deliveryBatchLimit s)")
    case True
    from pass(1) [OF True] show ?thesis using True resolved_not_waiting by fastforce
  next
    case False
    then show ?thesis using pass(2) by simp
  qed
qed

text \<open>Every waiting delivery is due at the clock of the tick.\<close>

definition all_due :: "store \<Rightarrow> delivery_tick \<Rightarrow> bool" where
  "all_due s t \<longleftrightarrow> (\<forall>r \<in> set (jobs s). undelivered r \<longrightarrow> claimable (formatTS (dt_now t)) r)"

lemma all_due_later:
  assumes ok: "store_ok s" and h: "healthy t" and due: "all_due s t'"
  shows "all_due (delivery_pass True decode t s) t'"
  unfolding all_due_def
proof (intro ballI impI)
  let ?s = "delivery_pass True decode t s"
  fix r
  assume r: "r \<in> set (jobs ?s)" "undelivered r"
  have f: "find_row (r_job_id r) ?s = Some r"
    using find_row_unique [OF store_ok_distinct [OF healthy_pass(3) [OF ok h, of decode]] r(1)] .
  have "r_job_id r \<in> waiting ?s" using f r(2) by blast
  then have "r_job_id r \<notin> r_job_id ` set (claim_selection (dt_now t) deliveryBatchLimit s)"
    unfolding waiting_after [OF ok h] by blast
  then have "find_row (r_job_id r) s = Some r" using healthy_pass(2) [OF ok h] f by simp
  then show "claimable (formatTS (dt_now t')) r" using due r(2) find_row_Some unfolding all_due_def by blast
qed

lemma loop_clears:
  "store_ok s \<Longrightarrow> list_all healthy ts \<Longrightarrow> list_all (all_due s) ts \<Longrightarrow> card (waiting s) \<le> 10 * length ts \<Longrightarrow>
     find_row j s = Some r \<Longrightarrow> \<exists>r'. find_row j (RunDeliveryLoop True decode ts s) = Some r' \<and>
       (if undelivered r then resolved decode r r' else r' = r)"
proof (induction ts arbitrary: s r)
  case Nil
  have "finite (waiting s)" using waiting_backlog(1) [OF Nil.prems(1)] by simp
  then show ?case using Nil.prems by auto
next
  case (Cons t ts)
  let ?s = "delivery_pass True decode t s" and ?sel = "r_job_id ` set (claim_selection (dt_now t) deliveryBatchLimit s)"
  have h: "healthy t" and due: "\<forall>r \<in> set (jobs s). undelivered r \<longrightarrow> claimable (formatTS (dt_now t)) r"
    using Cons.prems(2,3) by (simp_all add: all_due_def)
  note ok = Cons.prems(1) and sel = selection_card [OF Cons.prems(1) due] and pass = healthy_pass [OF Cons.prems(1) h, where decode = decode]
  have "card (waiting ?s) = card (waiting s) - min 10 (card (waiting s))"
    unfolding waiting_after [OF ok h] using sel by (simp add: card_Diff_subset)
  then have c: "card (waiting ?s) \<le> 10 * length ts" using Cons.prems(4) by simp
  have due': "list_all (all_due ?s) ts"
    using Cons.prems(3) all_due_later [OF ok h] by (auto simp: list_all_iff)
  note IH = Cons.IH [OF pass(3) _ due' c]
  have hs: "list_all healthy ts" using Cons.prems(2) by simp
  show ?case
  proof (cases "j \<in> ?sel")
    case True
    then obtain r' where r': "find_row j ?s = Some r'" "resolved decode r r'" using pass(1) [OF True] Cons.prems(5) by auto
    have "undelivered r" using sel(1) True Cons.prems(5) by auto
    then show ?thesis using IH [OF hs r'(1)] resolved_not_waiting [OF r'(2)] r'(2) by auto
  next
    case False
    then show ?thesis using IH [OF hs] pass(2) Cons.prems(5) by simp
  qed
qed

text \<open>
  C15: the backlog of an outage is cleared. Suppose that from some moment on NodeVault accepts
  every record, the database answers, and only the delivery loop writes to the store; and
  that every delivery waiting at that moment is due at every tick of the loop, that is, the
  backoff of a pending one is over and the claim of one left in flight has expired. Then the
  loop needs one pass for every ten waiting deliveries: after that, each of them is
  acknowledged, or dead-lettered if its payload holds no record, and no other row has changed.
\<close>

theorem delivery_backlog_cleared:
  assumes "store_ok s" and "list_all healthy ts" and "list_all (all_due s) ts" and "length (backlog s) \<le> 10 * length ts"
    and "find_row j s = Some r"
  shows "\<exists>r'. find_row j (RunDeliveryLoop True decode ts s) = Some r' \<and>
    (if r_result_delivery_status r \<in> {DeliveryPending, DeliveryDelivering}
     then r_result_delivery_status r' =
       (if readable decode (r_result_delivery_payload r) then DeliveryAcknowledged else DeliveryDeadLetter)
     else r' = r)"
proof -
  have "card (waiting s) \<le> 10 * length ts" using waiting_backlog(2) [OF assms(1)] assms(4) by simp
  from loop_clears [OF assms(1-3) this assms(5), of decode] show ?thesis unfolding undelivered_def resolved_def .
qed

definition demo_tick :: delivery_tick where
  "demo_tick = \<lparr>dt_others = [], dt_vault = (\<lambda>_. Inr \<lparr>RecordID = ''r'', CertificationStatus = ''c''\<rparr>), dt_env = (\<lambda>_. demo_env),
     dt_order = rev, dt_faults = no_faults, dt_entropy = (\<lambda>_. Inr (\<lambda>_. 7)), dt_now = minute\<rparr>"

theorem delivery_backlog_cleared_witness:
  "\<exists>r'. find_row ''job-1'' (RunDeliveryLoop True (\<lambda>_. Inl ''unexpected end of JSON input'') [demo_tick] (demo_store demo_pending)) = Some r' \<and>
     r_result_delivery_status r' = DeliveryDeadLetter"
proof -
  have f: "r_job_id demo_pending = ''job-1''" "r_result_delivery_status demo_pending = DeliveryPending"
    "r_next_attempt_at demo_pending = Some (formatTS second)"
    by (simp_all add: demo_pending_def first_pending_set_def)
  have "all_due (demo_store demo_pending) demo_tick"
    by (simp add: all_due_def demo_store_def demo_tick_def claimable_def f formatTS_order ts_ok_def)
  moreover have "healthy demo_tick"
    by (simp add: healthy_def tick_ok_def demo_tick_def write_ok_def demo_env_def int63n_ok_def ts_ok_def deliveryClaimTTL_def
        deliveryMaxBackoff_def)
  moreover have "find_row ''job-1'' (demo_store demo_pending) = Some demo_pending" using f by (simp add: find_row_def demo_store_def)
  ultimately show ?thesis
    using delivery_backlog_cleared [OF demo_store_ok [OF demo_pending_ok], of "[demo_tick]" "''job-1''" demo_pending
        "\<lambda>_. Inl ''unexpected end of JSON input''"]
    by (simp add: f readable_def backlog_def demo_store_def)
qed


end
