(* ===== verification/Worker_World.thy ===== *)
theory Worker_World
  imports Delivery Job_Names Retry_Policy "HOL-Library.State_Monad"
begin

text \<open>
  What a worker attempt talks to (pkg/worker). The worker is a program in the state monad
  over a \<open>world\<close>: the shared store, the attempt's context, the metric increments, and the
  trace of the calls it made with their answers, newest first.

  The n-th interaction gets the n-th \<open>reply\<close>. A reply fixes everything the code does not
  decide: what other goroutines and processes did to the store meanwhile, whether the
  process began to shut down, the database faults, clock readings and random numbers, and
  the answers of the Kubernetes API and of NodeVault. The theorems hold for every sequence
  of replies, so they cover every interleaving with other workers.

  The attempt's context is live, canceled by a shutdown, or canceled by a confirmed lease
  loss; the first cancellation decides its cause. A call under a canceled context fails
  without reaching its target and leaves no trace; a call under \<open>context.Background()\<close>
  always goes out. The deadline of a stage is visible only as errors of calls and as the
  end of a wait, and fires between two steps of a wait.
\<close>

section \<open>Answers\<close>

text \<open>
  An error of the Kubernetes client, by the \<open>apierrors\<close> predicates the code applies to
  it; \<open>OtherError\<close> is one none of them accepts (a timeout, a 5xx, a lost response).
\<close>

datatype api_kind =
    AlreadyExists | NotFound | Invalid | BadRequest | Forbidden | Unauthorized
  | MethodNotSupported | NotAcceptable | UnsupportedMediaType | RequestEntityTooLarge
  | TooManyRequests | OtherError

record api_error =
  api_kind :: api_kind
  api_text :: string

text \<open>A JSON value of an unstructured object. \<open>JFloat m e\<close> is the float64 \<open>m \<cdot> 2\<^sup>e\<close>.\<close>

datatype json =
    JNull | JBool bool | JInt int | JFloat int int | JStr string
  | JArr "json list" | JMap "(string \<times> json) list"

type_synonym json_object = "(string \<times> json) list"

text \<open>Which channel a wait loop sees next; a wait ends when the list does.\<close>

datatype tick = HeartbeatTick | PollTick

record reply =
  rp_others :: "store_call list"
  rp_shutdown :: bool
  rp_faults :: faults
  rp_now :: time
  rp_clock :: time
  rp_entropy :: entropy
  rp_jitter :: "int \<Rightarrow> int"
  rp_ticks :: "tick list"
  rp_polls :: nat
  rp_deadline :: bool
  rp_create :: "api_error option"
  rp_get :: "api_error + job_condition list"
  rp_delete :: "api_error option"
  rp_list :: "api_error + string list"
  rp_pods :: "pod list option"
  rp_reports :: "string + json_object list"
  rp_vault :: "vault_error + SubmitResponse"

section \<open>The world\<close>

datatype ctx_state = Live | Canceled | LeaseLost

datatype metric =
    JobsLeased | JobsCompleted | JobsFailed | L5aSubmitted | L5aErrors | L5bSubmitted | L5bErrors
  | FailuresClassified FailureClass string

text \<open>A call that went out, with the job, identity or name it is about and its answer; \<open>EvLost\<close> is the moment the lease loss is confirmed.\<close>

datatype event =
    EvLease "store_error + Job"
  | EvHeartbeat "store_error + unit"
  | EvLost
  | EvReRead "store_error + Job"
  | EvEnsure string "store_error + (string \<times> bool)"
  | EvRelease string "store_error + unit"
  | EvClaim string "store_error + bool"
  | EvFail string bool "store_error + unit"
  | EvComplete string string "store_error + unit"
  | EvLedger submission
  | EvDryRun string "api_error option"
  | EvCreate string "api_error option"
  | EvGet string "api_error + job_condition list"
  | EvDelete string "api_error option"
  | EvList "api_error + string list"
  | EvPods string "pod list option"
  | EvReports
  | EvPost submission "vault_error + SubmitResponse"

record world =
  w_store :: store
  w_ctx :: ctx_state
  w_step :: nat
  w_trace :: "event list"
  w_metrics :: "metric list"

text \<open>
  \<open>Worker\<close> of worker.go: a nil client is \<^const>\<open>False\<close>. \<open>encode\<close> is \<open>json.Marshal\<close> of a
  pending delivery, \<open>valid_label\<close> says whether \<open>labels.ValidatedSelectorFromSet\<close> accepts a
  label value.
\<close>

record Worker =
  workerName :: string
  vaultClient :: bool
  dynamicKube :: bool
  metrics :: bool
  replies :: "nat \<Rightarrow> reply"
  encode :: "pendingDelivery \<Rightarrow> string + string"
  valid_label :: "string \<Rightarrow> bool"

type_synonym 'a proc = "(world, 'a) state"

definition leaseDuration :: duration where "leaseDuration = 2 * minute"

section \<open>Calls\<close>

abbreviation ret :: "'a \<Rightarrow> 'a proc" where
  "ret \<equiv> State_Monad.return"

text \<open>The next interaction begins: time has passed for everyone else.\<close>

definition arrive :: "reply \<Rightarrow> world \<Rightarrow> world" where
  "arrive r w =
     w\<lparr>w_step := Suc (w_step w), w_store := run_calls (rp_others r) (w_store w),
       w_ctx := (if w_ctx w = Live \<and> rp_shutdown r then Canceled else w_ctx w)\<rparr>"

text \<open>A reading of a clock, of a random number or of the ticks of a wait.\<close>

definition sample :: "Worker \<Rightarrow> reply proc" where
  "sample W = State (\<lambda>w. let r = replies W (w_step w) in (r, arrive r w))"

definition canceled :: faults where
  "canceled = (\<lambda>_. Some ''context canceled'')"

text \<open>
  A store call: \<open>background\<close> calls ignore the attempt's context. Under a canceled context
  the first database call fails.
\<close>

definition store_op ::
  "Worker \<Rightarrow> bool \<Rightarrow> (faults \<Rightarrow> reply \<Rightarrow> store \<Rightarrow> 'a \<times> store) \<Rightarrow> ('a \<Rightarrow> event) \<Rightarrow> 'a proc" where
  "store_op W background f ev =
     State (\<lambda>w. let r = replies W (w_step w); w1 = arrive r w
        in if background \<or> w_ctx w1 = Live
           then let (x, s) = f (rp_faults r) r (w_store w1)
                in (x, w1\<lparr>w_store := s, w_trace := ev x # w_trace w1\<rparr>)
           else (fst (f canceled r (w_store w1)), w1))"

text \<open>A call to Kubernetes or NodeVault; \<open>dead\<close> is its result under a canceled context.\<close>

definition remote_op :: "Worker \<Rightarrow> bool \<Rightarrow> (reply \<Rightarrow> 'a) \<Rightarrow> 'a \<Rightarrow> ('a \<Rightarrow> event) \<Rightarrow> 'a proc" where
  "remote_op W background f dead ev =
     State (\<lambda>w. let r = replies W (w_step w); w1 = arrive r w
        in if background \<or> w_ctx w1 = Live
           then (f r, w1\<lparr>w_trace := ev (f r) # w_trace w1\<rparr>)
           else (dead, w1))"

definition ctx :: "ctx_state proc" where
  "ctx = State (\<lambda>w. (w_ctx w, w))"

definition leaseLost :: "bool proc" where
  "leaseLost = State (\<lambda>w. (w_ctx w = LeaseLost, w))"

text \<open>The cancel function of \<open>withLeaseFence\<close>, called with \<open>errLeaseLost\<close>.\<close>

definition lose :: "unit proc" where
  "lose = State (\<lambda>w. ((), if w_ctx w = Live then w\<lparr>w_ctx := LeaseLost, w_trace := EvLost # w_trace w\<rparr> else w))"

text \<open>\<open>process\<close> derives a fresh attempt context from the process's: a lease loss ends with the attempt.\<close>

definition end_attempt :: "unit proc" where
  "end_attempt = State (\<lambda>w. ((), if w_ctx w = LeaseLost then w\<lparr>w_ctx := Live\<rparr> else w))"

definition inc :: "Worker \<Rightarrow> metric \<Rightarrow> unit proc" where
  "inc W m = State (\<lambda>w. ((), if metrics W then w\<lparr>w_metrics := m # w_metrics w\<rparr> else w))"

section \<open>The store, as the worker calls it\<close>

definition do_LeaseJob :: "Worker \<Rightarrow> (store_error + Job) proc" where
  "do_LeaseJob W = store_op W False (\<lambda>flt r. LeaseJob flt (rp_now r) (workerName W) leaseDuration) EvLease"

definition do_Heartbeat :: "Worker \<Rightarrow> Job \<Rightarrow> (store_error + unit) proc" where
  "do_Heartbeat W job =
     store_op W False (\<lambda>flt r. Heartbeat flt (rp_now r) (JobID job) (workerName W) (Attempt job) leaseDuration) EvHeartbeat"

definition do_GetJob :: "Worker \<Rightarrow> Job \<Rightarrow> (store_error + Job) proc" where
  "do_GetJob W job = store_op W False (\<lambda>flt r s. (GetJob flt 0 (JobID job) s, s)) EvReRead"

definition do_EnsureExecution :: "Worker \<Rightarrow> Job \<Rightarrow> (store_error + (string \<times> bool)) proc" where
  "do_EnsureExecution W job =
     store_op W False (\<lambda>flt r. EnsureExecution flt (rp_entropy r) (rp_now r) (JobID job)) (EvEnsure (JobID job))"

definition do_MarkExecutionTerminal :: "Worker \<Rightarrow> bool \<Rightarrow> Job \<Rightarrow> (store_error + unit) proc" where
  "do_MarkExecutionTerminal W background job =
     store_op W background (\<lambda>flt r. MarkExecutionTerminal flt (rp_now r) (JobID job) (ExecutionID job))
       (EvRelease (ExecutionID job))"

definition do_ClaimTerminal :: "Worker \<Rightarrow> Job \<Rightarrow> (store_error + bool) proc" where
  "do_ClaimTerminal W job =
     store_op W False (\<lambda>flt r. ClaimTerminal flt (rp_now r) (JobID job) (workerName W) (Attempt job)) (EvClaim (JobID job))"

definition do_FailJob :: "Worker \<Rightarrow> Job \<Rightarrow> RetryDecision \<Rightarrow> (store_error + unit) proc" where
  "do_FailJob W job d =
     store_op W False
       (\<lambda>flt r. FailJob flt (rp_now r) (JobID job) (workerName W) (Attempt job) (Reason d) (Retry d) (Delay d))
       (EvFail (JobID job) (Retry d))"

definition do_CompleteJob :: "Worker \<Rightarrow> Job \<Rightarrow> string \<Rightarrow> (store_error + unit) proc" where
  "do_CompleteJob W job summary =
     store_op W False (\<lambda>flt r. CompleteJob flt (rp_now r) (JobID job) (workerName W) (Attempt job) summary)
       (EvComplete (JobID job) summary)"

text \<open>\<open>markCheckDeliveryPending\<close> and \<open>markScanDeliveryPending\<close>.\<close>

definition do_markDeliveryPending :: "Worker \<Rightarrow> Job \<Rightarrow> submission \<Rightarrow> vault_error \<Rightarrow> unit proc" where
  "do_markDeliveryPending W job body err =
     store_op W False
       (\<lambda>flt r s. ((), markDeliveryPending (encode W) (rp_jitter r) flt (rp_clock r) (rp_now r) (workerName W) job body err s))
       (\<lambda>_. EvLedger body)"

section \<open>Kubernetes and NodeVault, as the worker calls them\<close>

definition ctx_error :: api_error where
  "ctx_error = \<lparr>api_kind = OtherError, api_text = ''context canceled''\<rparr>"

definition IsNotFound :: "api_error \<Rightarrow> bool" where
  "IsNotFound e \<longleftrightarrow> api_kind e = NotFound"

definition IsAlreadyExists :: "api_error \<Rightarrow> bool" where
  "IsAlreadyExists e \<longleftrightarrow> api_kind e = AlreadyExists"

definition createRejected :: "api_error \<Rightarrow> bool" where
  "createRejected e \<longleftrightarrow> api_kind e \<in> {Invalid, BadRequest, Forbidden, Unauthorized, NotFound,
     MethodNotSupported, NotAcceptable, UnsupportedMediaType, RequestEntityTooLarge, TooManyRequests}"

definition create_job :: "Worker \<Rightarrow> string \<Rightarrow> (api_error option) proc" where
  "create_job W name = remote_op W False rp_create (Some ctx_error) (EvCreate name)"

definition runDryRun :: "Worker \<Rightarrow> string \<Rightarrow> (api_error option) proc" where
  "runDryRun W name = remote_op W False rp_create (Some ctx_error) (EvDryRun name)"

definition get_job :: "Worker \<Rightarrow> bool \<Rightarrow> string \<Rightarrow> (api_error + job_condition list) proc" where
  "get_job W background name = remote_op W background rp_get (Inl ctx_error) (EvGet name)"

definition deleteJob :: "Worker \<Rightarrow> string \<Rightarrow> (api_error option) proc" where
  "deleteJob W name = remote_op W True rp_delete None (EvDelete name)"

definition list_jobs :: "Worker \<Rightarrow> (api_error + string list) proc" where
  "list_jobs W = remote_op W False rp_list (Inl ctx_error) EvList"

definition list_pods :: "Worker \<Rightarrow> string \<Rightarrow> (pod list option) proc" where
  "list_pods W name = remote_op W False rp_pods None (EvPods name)"

definition list_reports :: "Worker \<Rightarrow> (string + json_object list) proc" where
  "list_reports W = remote_op W False rp_reports (Inl ''context canceled'') (\<lambda>_. EvReports)"

definition post_record :: "Worker \<Rightarrow> submission \<Rightarrow> (vault_error + SubmitResponse) proc" where
  "post_record W body = remote_op W False rp_vault (Inl (TransportErr ''context canceled'')) (EvPost body)"

definition job_exists :: "Worker \<Rightarrow> bool \<Rightarrow> string \<Rightarrow> (api_error + bool) proc" where
  "job_exists W background name = do {
     res \<leftarrow> get_job W background name;
     ret (case res of Inr _ \<Rightarrow> Inr True | Inl e \<Rightarrow> if IsNotFound e then Inr False else Inl e)
   }"

end
