(* ===== verification/Worker_Pipeline.thy ===== *)
theory Worker_Pipeline
  imports Worker_World
begin

text \<open>
  The pipeline of one attempt (pkg/worker: worker.go and l5a.go): leases and fences, the
  reports to NodeVault, the L4 smoke-run, the L5-a validation, and \<open>process\<close>. Logging is
  left out. An \<open>error\<close> result is its text; \<^const>\<open>None\<close> is nil.
\<close>

section \<open>The lease\<close>

definition errLeaseLost :: string where
  "errLeaseLost = ''lease lost: the job was re-leased by another attempt''"

definition heartbeat :: "Worker \<Rightarrow> Job \<Rightarrow> unit proc" where
  "heartbeat W job = do {
     res \<leftarrow> do_Heartbeat W job;
     if res = Inl ErrNotFound then lose else ret ()
   }"

definition stillLeased :: "Worker \<Rightarrow> Job \<Rightarrow> bool proc" where
  "stillLeased W job = do {
     lost \<leftarrow> leaseLost;
     if lost then ret False
     else do {
       heartbeat W job;
       lost \<leftarrow> leaseLost;
       ret (\<not> lost)
     }
   }"

definition markExecutionTerminal :: "Worker \<Rightarrow> bool \<Rightarrow> Job \<Rightarrow> unit proc" where
  "markExecutionTerminal W background job = do {
     _ \<leftarrow> do_MarkExecutionTerminal W background job;
     ret ()
   }"

section \<open>Reports to NodeVault\<close>

record checkRecordSubmission =
  cs_checkID :: string
  cs_stage :: string
  cs_terminal :: bool
  cs_command :: string
  cs_exitCode :: int
  cs_validationStatus :: string
  cs_validationHash :: string
  cs_failureKind :: string
  cs_failureReason :: string
  cs_retryable :: bool
  cs_durationSec :: int
  cs_allOutputsPresent :: bool

definition claimTerminal :: "Worker \<Rightarrow> Job \<Rightarrow> bool proc" where
  "claimTerminal W job = do {
     res \<leftarrow> do_ClaimTerminal W job;
     ret (case res of Inl _ \<Rightarrow> True | Inr claimed \<Rightarrow> claimed)
   }"

definition check_request :: "Job \<Rightarrow> checkRecordSubmission \<Rightarrow> SubmitCheckRecordRequest" where
  "check_request job sub =
     \<lparr>cr_CheckID = cs_checkID sub, cr_ToolSpecDigest = CasHash job, cr_ImageDigest = ImageDigest job,
      cr_ToolName = ToolName job, cr_Version = Version job,
      cr_ValidationRequestID = ValidationRequestID job, cr_SentinelJobID = JobID job,
      cr_Stage = cs_stage sub, cr_Terminal = cs_terminal sub,
      cr_ValidationStatus = cs_validationStatus sub, cr_ValidationHash = cs_validationHash sub,
      cr_Command = cs_command sub, cr_ExitCode = cs_exitCode sub, cr_ObservedInputs = [],
      cr_ObservedOutputs = [], cr_PeakCPUMilli = 0, cr_PeakMemoryMiB = 0,
      cr_DurationSeconds = cs_durationSec sub, cr_Timeout = False,
      cr_AllOutputsPresent = cs_allOutputsPresent sub,
      cr_ContractResult =
        (if cs_validationStatus sub = ''succeeded'' then ''passed''
         else if cs_validationStatus sub = ''infra_failed'' then ''not_applicable'' else ''failed''),
      cr_FailureKind = cs_failureKind sub, cr_FailureCode = '''', cr_Retryable = cs_retryable sub,
      cr_FailureReason = cs_failureReason sub\<rparr>"

definition submitCheckRecord :: "Worker \<Rightarrow> Job \<Rightarrow> checkRecordSubmission \<Rightarrow> (string option) proc" where
  "submitCheckRecord W job sub = do {
     leased \<leftarrow> stillLeased W job;
     if \<not> leased then ret (Some errLeaseLost)
     else do {
       proceed \<leftarrow> (if cs_terminal sub then claimTerminal W job else ret True);
       if \<not> proceed then ret None
       else do {
         let body = CheckBody (check_request job sub);
         res \<leftarrow> post_record W body;
         case res of
           Inl err \<Rightarrow> do {
             (if cs_terminal sub then do_markDeliveryPending W job body err else ret ());
             ret (Some (vault_error_text err))
           }
         | Inr _ \<Rightarrow> ret None
       }
     }
   }"

definition stageCheckIDPrefix :: "string \<Rightarrow> string" where
  "stageCheckIDPrefix stage =
     (if stage = StageL3 then ''l3'' else if stage = StageL4 then ''l4'' else ''unknown'')"

definition reportTerminalFailure :: "Worker \<Rightarrow> Job \<Rightarrow> string \<Rightarrow> string \<Rightarrow> RetryDecision \<Rightarrow> unit proc" where
  "reportTerminalFailure W job stage command decision =
     (if \<not> vaultClient W then ret ()
      else do {
        let (validationStatus, failureKind) = wireStatus (Class decision);
        _ \<leftarrow> submitCheckRecord W job
           \<lparr>cs_checkID = stageCheckIDPrefix stage @ ''-'' @ recordIDLabel (JobID job), cs_stage = stage,
            cs_terminal = (\<not> Retry decision), cs_command = command, cs_exitCode = 0,
            cs_validationStatus = validationStatus, cs_validationHash = '''', cs_failureKind = failureKind,
            cs_failureReason = Reason decision, cs_retryable = Retry decision, cs_durationSec = 0,
            cs_allOutputsPresent = False\<rparr>;
        ret ()
      })"

definition reportTerminalSuccess :: "Worker \<Rightarrow> Job \<Rightarrow> string \<Rightarrow> string \<Rightarrow> unit proc" where
  "reportTerminalSuccess W job stage command =
     (if \<not> vaultClient W then ret ()
      else do {
        _ \<leftarrow> submitCheckRecord W job
           \<lparr>cs_checkID = stageCheckIDPrefix stage @ ''-'' @ recordIDLabel (JobID job), cs_stage = stage,
            cs_terminal = True, cs_command = command, cs_exitCode = 0,
            cs_validationStatus = ''succeeded'', cs_validationHash = '''', cs_failureKind = '''',
            cs_failureReason = '''', cs_retryable = False, cs_durationSec = 0,
            cs_allOutputsPresent = False\<rparr>;
        ret ()
      })"

text \<open>
  How \<open>process\<close> ends a failed attempt, the same five statements at each of its failure
  branches: decide, count, report, \<open>FailJob\<close> (its error is ignored), count.
\<close>

definition fail_attempt :: "Worker \<Rightarrow> Job \<Rightarrow> string \<Rightarrow> string \<Rightarrow> FailureClass \<Rightarrow> string \<Rightarrow> unit proc" where
  "fail_attempt W job stage command cls reason = do {
     r \<leftarrow> sample W;
     let decision = decideRetry (rp_jitter r) cls job reason;
     inc W (FailuresClassified (Class decision) stage);
     reportTerminalFailure W job stage command decision;
     _ \<leftarrow> do_FailJob W job decision;
     inc W JobsFailed
   }"

section \<open>Jobs in the cluster\<close>

text \<open>
  The confirmation loop: \<open>n\<close> more ticks arrive before \<open>deletionConfirmWait\<close> has passed.
\<close>

fun confirm_gone :: "Worker \<Rightarrow> string \<Rightarrow> nat \<Rightarrow> (string option) proc" where
  "confirm_gone W name n = do {
     found \<leftarrow> job_exists W True name;
     if found = Inr False then ret None
     else case n of
       0 \<Rightarrow> ret (Some (''job '' @ name @ '' still present after delete: context deadline exceeded''))
     | Suc m \<Rightarrow> confirm_gone W name m
   }"

declare confirm_gone.simps [simp del]

definition deleteAndConfirmGone :: "Worker \<Rightarrow> string \<Rightarrow> (string option) proc" where
  "deleteAndConfirmGone W name = do {
     err \<leftarrow> deleteJob W name;
     r \<leftarrow> sample W;
     case err of
       Some e \<Rightarrow> if \<not> IsNotFound e then ret (Some (''delete Job '' @ name @ '': '' @ api_text e))
                 else confirm_gone W name (rp_polls r)
     | None \<Rightarrow> confirm_gone W name (rp_polls r)
   }"

definition errLegacyRetireSuperseded :: string where
  "errLegacyRetireSuperseded = ''execution identity minted by another worker''"

fun retire_jobs :: "Worker \<Rightarrow> Job \<Rightarrow> string list \<Rightarrow> (string option) proc" where
  "retire_jobs W job [] = ret None"
| "retire_jobs W job (name # names) =
     (if \<not> isLegacyJobName name (JobID job) then retire_jobs W job names
      else do {
        stored \<leftarrow> do_GetJob W job;
        case stored of
          Inl e \<Rightarrow> ret (Some (''re-read execution identity for '' @ JobID job @ '': '' @ store_error_text e))
        | Inr st \<Rightarrow>
            if ExecutionID st \<noteq> ''''
            then ret (Some (errLegacyRetireSuperseded @ '': '' @ JobID job @ '' now has execution '' @ ExecutionID st))
            else do {
              del \<leftarrow> deleteAndConfirmGone W name;
              case del of
                Some e \<Rightarrow> ret (Some e)
              | None \<Rightarrow> do {
                  leased \<leftarrow> stillLeased W job;
                  if \<not> leased then ret (Some errLeaseLost) else retire_jobs W job names
                }
            }
      })"

definition retireLegacyExecutions :: "Worker \<Rightarrow> Job \<Rightarrow> (string option) proc" where
  "retireLegacyExecutions W job =
     (if \<not> valid_label W (JobID job) then ret None
      else do {
        res \<leftarrow> list_jobs W;
        case res of
          Inl e \<Rightarrow> ret (Some (''list Jobs for '' @ JobID job @ '': '' @ api_text e))
        | Inr names \<Rightarrow> retire_jobs W job names
      })"

section \<open>L4: the smoke-run\<close>

definition createSmokeJob :: "Worker \<Rightarrow> Job \<Rightarrow> string \<Rightarrow> bool \<Rightarrow> (outcome option) proc" where
  "createSmokeJob W job name releaseOnReject = do {
     res \<leftarrow> create_job W name;
     case res of
       None \<Rightarrow> ret None
     | Some e \<Rightarrow>
         if IsAlreadyExists e then ret None
         else if createRejected e \<and> \<not> releaseOnReject
         then ret (Some (failed True FailureClassTransientInfra (''re-create adopted smoke-run Job: '' @ api_text e)))
         else if createRejected e
         then do {
           markExecutionTerminal W False job;
           ret (Some (failed True FailureClassTransientInfra (''failed to create smoke-run Job: '' @ api_text e)))
         }
         else do {
           found \<leftarrow> job_exists W False name;
           ret (if found = Inr True then None
                else Some (failed True FailureClassTransientInfra
                       (''create smoke-run Job (outcome unknown): '' @ api_text e)))
         }
   }"

text \<open>\<open>classifySmokeRun\<close> with the Pod List call it makes when it gets that far.\<close>

definition classify_smoke :: "Worker \<Rightarrow> bool \<Rightarrow> string \<Rightarrow> job_condition list \<Rightarrow> outcome proc" where
  "classify_smoke W deadlineExceeded name conds =
     (if list_ex (cond_true ''Complete'') conds \<or> deadlineExceeded
      then ret (classifySmokeRun deadlineExceeded None conds)
      else do {
        pods \<leftarrow> list_pods W name;
        ret (classifySmokeRun False pods conds)
      })"

text \<open>The first condition that ends a wait.\<close>

definition decisive :: "job_condition list \<Rightarrow> job_condition option" where
  "decisive conds = find (\<lambda>c. cond_true ''Complete'' c \<or> cond_true ''Failed'' c) conds"

text \<open>The wait was ended by its context.\<close>

definition smoke_done :: "Worker \<Rightarrow> Job \<Rightarrow> string \<Rightarrow> outcome proc" where
  "smoke_done W job name = do {
     c \<leftarrow> ctx;
     if c = LeaseLost then ret (failed True FailureClassTransientInfra errLeaseLost)
     else do {
       gone \<leftarrow> deleteAndConfirmGone W name;
       (if gone = None then markExecutionTerminal W True job else ret ());
       classify_smoke W (c = Live) name []
     }
   }"

definition smoke_ended :: "Worker \<Rightarrow> Job \<Rightarrow> string \<Rightarrow> bool \<Rightarrow> job_condition list \<Rightarrow> job_condition \<Rightarrow> outcome proc" where
  "smoke_ended W job name releaseOnSuccess conds c =
     (if cond_true ''Complete'' c
      then do {
        (if releaseOnSuccess then markExecutionTerminal W False job else ret ());
        _ \<leftarrow> deleteJob W name;
        ret succeeded
      }
      else do {
        r \<leftarrow> sample W;
        result \<leftarrow> classify_smoke W (rp_deadline r) name conds;
        markExecutionTerminal W False job;
        _ \<leftarrow> deleteJob W name;
        ret result
      })"

fun smoke_loop :: "Worker \<Rightarrow> Job \<Rightarrow> string \<Rightarrow> bool \<Rightarrow> bool \<Rightarrow> tick list \<Rightarrow> outcome proc" where
  "smoke_loop W job name releaseOnSuccess confirmed [] = smoke_done W job name"
| "smoke_loop W job name releaseOnSuccess confirmed (HeartbeatTick # ticks) = do {
     heartbeat W job;
     smoke_loop W job name releaseOnSuccess confirmed ticks
   }"
| "smoke_loop W job name releaseOnSuccess confirmed (PollTick # ticks) = do {
     res \<leftarrow> get_job W False name;
     case res of
       Inl e \<Rightarrow>
         if IsNotFound e \<and> \<not> confirmed
         then do {
           created \<leftarrow> createSmokeJob W job name False;
           case created of
             Some out \<Rightarrow> ret out
           | None \<Rightarrow> smoke_loop W job name releaseOnSuccess True ticks
         }
         else if IsNotFound e
         then do {
           markExecutionTerminal W False job;
           ret (failed True FailureClassUnknown ''smoke-run Job no longer exists; outcome was never observed'')
         }
         else ret (failed True FailureClassTransientInfra (''get smoke-run Job: '' @ api_text e))
     | Inr conds \<Rightarrow>
         (case decisive conds of
            Some c \<Rightarrow> smoke_ended W job name releaseOnSuccess conds c
          | None \<Rightarrow> smoke_loop W job name releaseOnSuccess True ticks)
   }"

definition runSmokeRun :: "Worker \<Rightarrow> Job \<Rightarrow> string \<Rightarrow> bool \<Rightarrow> bool \<Rightarrow> outcome proc" where
  "runSmokeRun W job name adopted releaseOnSuccess = do {
     created \<leftarrow> (if adopted then ret None else createSmokeJob W job name True);
     case created of
       Some out \<Rightarrow> ret out
     | None \<Rightarrow> do {
         r \<leftarrow> sample W;
         smoke_loop W job name releaseOnSuccess (\<not> adopted) (rp_ticks r)
       }
   }"

section \<open>L5-a: the validation run\<close>

definition l5aCreateReconcileAttempts :: nat where "l5aCreateReconcileAttempts = 3"

text \<open>
  \<open>initial\<close> marks the iteration that does not wait; \<open>n\<close> iterations are left. Between two
  attempts the wait ends early when the context is done.
\<close>

fun reconcile_loop :: "Worker \<Rightarrow> string \<Rightarrow> bool \<Rightarrow> nat \<Rightarrow> bool proc" where
  "reconcile_loop W name initial 0 = ret False"
| "reconcile_loop W name initial (Suc n) = do {
     r \<leftarrow> sample W;
     c \<leftarrow> ctx;
     if \<not> initial \<and> (c \<noteq> Live \<or> rp_deadline r) then ret False
     else do {
       res \<leftarrow> create_job W name;
       case res of
         None \<Rightarrow> ret True
       | Some e \<Rightarrow> if IsAlreadyExists e then ret True else reconcile_loop W name False n
     }
   }"

definition reconcileL5aCreate :: "Worker \<Rightarrow> string \<Rightarrow> bool proc" where
  "reconcileL5aCreate W name = reconcile_loop W name True l5aCreateReconcileAttempts"

definition l5aFailureSubmission :: "string \<Rightarrow> string \<Rightarrow> bool \<Rightarrow> int \<Rightarrow> int \<Rightarrow> outcome \<Rightarrow> checkRecordSubmission" where
  "l5aFailureSubmission checkID command terminal exitCode durationSec result =
     (let (validationStatus, failureKind) = wireStatus (out_class result)
      in \<lparr>cs_checkID = checkID, cs_stage = StageL5A, cs_terminal = terminal, cs_command = command,
          cs_exitCode = exitCode, cs_validationStatus = validationStatus, cs_validationHash = '''',
          cs_failureKind = failureKind, cs_failureReason = out_reason result,
          cs_retryable = (out_class result = FailureClassTransientInfra \<or> out_class result = FailureClassUnknown),
          cs_durationSec = durationSec, cs_allOutputsPresent = False\<rparr>)"

fun first_exit_code :: "container_status list \<Rightarrow> int option" where
  "first_exit_code [] = None"
| "first_exit_code (cs # css) =
     (case terminated cs of Some t \<Rightarrow> Some (term_exit_code t) | None \<Rightarrow> first_exit_code css)"

definition extractPodExitCode :: "Worker \<Rightarrow> string \<Rightarrow> int proc" where
  "extractPodExitCode W name = do {
     pods \<leftarrow> list_pods W name;
     ret (case pods of
            None \<Rightarrow> -1
          | Some ps \<Rightarrow> (case first_exit_code (concat (map container_statuses ps)) of Some code \<Rightarrow> code | None \<Rightarrow> -1))
   }"

definition l5a_timeout :: string where
  "l5a_timeout = ''L5-a timeout: job did not complete within allotted time''"

fun waitL5aJob :: "Worker \<Rightarrow> Job \<Rightarrow> string \<Rightarrow> tick list \<Rightarrow> (int \<times> outcome \<times> string option) proc" where
  "waitL5aJob W job name [] = do {
     lost \<leftarrow> leaseLost;
     if lost then ret (0, failed False FailureClassTransientInfra errLeaseLost, Some errLeaseLost)
     else do {
       gone \<leftarrow> deleteAndConfirmGone W name;
       (if gone = None then markExecutionTerminal W True job else ret ());
       ret (0, failed False FailureClassTransientInfra l5a_timeout, Some l5a_timeout)
     }
   }"
| "waitL5aJob W job name (HeartbeatTick # ticks) = do {
     heartbeat W job;
     waitL5aJob W job name ticks
   }"
| "waitL5aJob W job name (PollTick # ticks) = do {
     res \<leftarrow> get_job W False name;
     case res of
       Inl e \<Rightarrow>
         ret (0, failed False FailureClassTransientInfra (''get L5-a job: '' @ api_text e),
              Some (''get L5-a job: '' @ api_text e))
     | Inr conds \<Rightarrow>
         (case decisive conds of
            None \<Rightarrow> waitL5aJob W job name ticks
          | Some c \<Rightarrow>
              if cond_true ''Complete'' c
              then do {
                markExecutionTerminal W False job;
                ret (0, succeeded, None)
              }
              else do {
                pods \<leftarrow> list_pods W name;
                code \<leftarrow> extractPodExitCode W name;
                markExecutionTerminal W False job;
                ret (code, classifyFromPods pods (cond_reason c) (cond_message c), Some (''job failed: '' @ cond_message c))
              })
   }"

text \<open>
  Creating the Job: \<open>Inr ()\<close> when a Job exists under the name, \<open>Inl result\<close> when the stage
  ends with that result.
\<close>

definition l5a_create :: "Worker \<Rightarrow> Job \<Rightarrow> string \<Rightarrow> (outcome + unit) proc" where
  "l5a_create W job name = do {
     res \<leftarrow> create_job W name;
     case res of
       None \<Rightarrow> ret (Inr ())
     | Some e \<Rightarrow>
         if IsAlreadyExists e then ret (Inr ())
         else if createRejected e
         then do {
           markExecutionTerminal W False job;
           inc W (FailuresClassified FailureClassTransientInfra StageL5A);
           ret (Inl (failed False FailureClassTransientInfra (''infra-level: job creation failed: '' @ api_text e)))
         }
         else do {
           landed \<leftarrow> reconcileL5aCreate W name;
           if landed then ret (Inr ())
           else do {
             inc W (FailuresClassified FailureClassTransientInfra StageL5A);
             ret (Inl (failed False FailureClassTransientInfra
               (''infra-level: L5-a Job create outcome unknown; a late Job would run unobserved: '' @ api_text e)))
           }
         }
   }"

definition runL5a :: "Worker \<Rightarrow> Job \<Rightarrow> bool \<Rightarrow> (string option) proc" where
  "runL5a W job terminal =
     (if \<not> vaultClient W then ret None
      else do {
        let checkID = ''l5a-'' @ recordIDLabel (JobID job);
        let name = l5aJobName job;
        start \<leftarrow> sample W;
        created \<leftarrow> l5a_create W job name;
        case created of
          Inl result \<Rightarrow> submitCheckRecord W job (l5aFailureSubmission checkID l5aCommand terminal 0 0 result)
        | Inr _ \<Rightarrow> do {
            r \<leftarrow> sample W;
            (exitCode, result, runErr) \<leftarrow> waitL5aJob W job name (rp_ticks r);
            stop \<leftarrow> sample W;
            let durationSec = (rp_clock stop - rp_clock start) div second;
            lost \<leftarrow> leaseLost;
            if lost then ret (Some errLeaseLost)
            else do {
              _ \<leftarrow> deleteJob W name;
              case runErr of
                Some _ \<Rightarrow> do {
                  inc W (FailuresClassified (out_class result) StageL5A);
                  submitCheckRecord W job (l5aFailureSubmission checkID l5aCommand terminal exitCode durationSec result)
                }
              | None \<Rightarrow>
                  submitCheckRecord W job
                    \<lparr>cs_checkID = checkID, cs_stage = StageL5A, cs_terminal = terminal, cs_command = l5aCommand,
                     cs_exitCode = exitCode, cs_validationStatus = ''succeeded'', cs_validationHash = '''',
                     cs_failureKind = '''', cs_failureReason = '''', cs_retryable = False,
                     cs_durationSec = durationSec, cs_allOutputsPresent = False\<rparr>
            }
          }
      })"

end
