(* ===== verification/Scan_Report.thy ===== *)
theory Scan_Report
  imports Worker_Pipeline
begin

text \<open>
  pkg/worker/l5b.go: reading a trivy-operator VulnerabilityReport and the L5-b stage.
\<close>

section \<open>Reading the report\<close>

fun nestedStr :: "json_object \<Rightarrow> string list \<Rightarrow> string option" where
  "nestedStr obj [] = None"
| "nestedStr obj [f] = (case map_of obj f of Some (JStr v) \<Rightarrow> Some v | _ \<Rightarrow> None)"
| "nestedStr obj (f # fs) = (case map_of obj f of Some (JMap m) \<Rightarrow> nestedStr m fs | _ \<Rightarrow> None)"

fun nestedMap :: "json_object \<Rightarrow> string list \<Rightarrow> json_object option" where
  "nestedMap obj [] = Some obj"
| "nestedMap obj (f # fs) = (case map_of obj f of Some (JMap m) \<Rightarrow> nestedMap m fs | _ \<Rightarrow> None)"

fun firstNestedStr :: "json_object \<Rightarrow> string list list \<Rightarrow> string" where
  "firstNestedStr obj [] = ''''"
| "firstNestedStr obj (path # paths) =
     (case nestedStr obj path of Some v \<Rightarrow> v | None \<Rightarrow> firstNestedStr obj paths)"

text \<open>
  \<open>int(n)\<close> of a float64: truncation toward zero; a value outside int64 gives the smallest
  int64, as on amd64.
\<close>

definition int_of_float :: "int \<Rightarrow> int \<Rightarrow> int" where
  "int_of_float m e =
     (let v = (if e \<ge> 0 then m * 2 ^ nat e else sgn m * (\<bar>m\<bar> div 2 ^ nat (- e)))
      in if in_int64 v then v else - (2 ^ 63))"

definition nestedInt :: "json_object \<Rightarrow> string \<Rightarrow> int" where
  "nestedInt obj key =
     (case map_of obj key of
        Some (JFloat m e) \<Rightarrow> int_of_float m e
      | Some (JInt n) \<Rightarrow> n
      | _ \<Rightarrow> 0)"

record trivyVulnSummary =
  tv_Scanner :: string
  tv_ScannerVersion :: string
  tv_ScannedAt :: string
  tv_CriticalCount :: int
  tv_HighCount :: int
  tv_MediumCount :: int
  tv_LowCount :: int

definition or_empty :: "string option \<Rightarrow> string" where
  "or_empty v = (case v of Some x \<Rightarrow> x | None \<Rightarrow> '''')"

definition parseTrivySummary :: "json_object \<Rightarrow> trivyVulnSummary" where
  "parseTrivySummary obj =
     (let count = (\<lambda>key. case nestedMap obj [''report'', ''summary''] of
                           Some summary \<Rightarrow> nestedInt summary key | None \<Rightarrow> 0)
      in \<lparr>tv_Scanner = or_empty (nestedStr obj [''report'', ''scanner'', ''name'']),
          tv_ScannerVersion = or_empty (nestedStr obj [''report'', ''scanner'', ''version'']),
          tv_ScannedAt = firstNestedStr obj
            [[''report'', ''scannedAt''], [''report'', ''scanned_at''], [''report'', ''updateTimestamp'']],
          tv_CriticalCount = count ''criticalCount'', tv_HighCount = count ''highCount'',
          tv_MediumCount = count ''mediumCount'', tv_LowCount = count ''lowCount''\<rparr>)"

text \<open>The first report on the image, parsed.\<close>

definition matching_report :: "string \<Rightarrow> json_object list \<Rightarrow> trivyVulnSummary option" where
  "matching_report digest reports =
     map_option parseTrivySummary
       (find (\<lambda>obj. nestedStr obj [''report'', ''artifact'', ''digest''] = Some digest) reports)"

section \<open>Submitting the record\<close>

definition scan_request :: "Job \<Rightarrow> trivyVulnSummary \<Rightarrow> SubmitScanRecordRequest" where
  "scan_request job m =
     \<lparr>sr_ScanID = ''l5b-'' @ recordIDLabel (JobID job), sr_ImageDigest = ImageDigest job,
      sr_ToolName = ToolName job, sr_ValidationRequestID = ValidationRequestID job,
      sr_SentinelJobID = JobID job, sr_Stage = StageL5B, sr_Terminal = True,
      sr_Scanner = tv_Scanner m, sr_ScannerVersion = tv_ScannerVersion m, sr_ScannedAt = tv_ScannedAt m,
      sr_Source = ''trivy-operator'', sr_CriticalCount = tv_CriticalCount m,
      sr_HighCount = tv_HighCount m, sr_MediumCount = tv_MediumCount m, sr_LowCount = tv_LowCount m,
      sr_PolicyMode = ''record_only'',
      sr_PolicyResult = (if tv_CriticalCount m > 0 \<or> tv_HighCount m > 0 then ''warning'' else ''passed'')\<rparr>"

definition not_available_request :: "Job \<Rightarrow> SubmitScanRecordRequest" where
  "not_available_request job =
     \<lparr>sr_ScanID = ''l5b-'' @ recordIDLabel (JobID job), sr_ImageDigest = ImageDigest job,
      sr_ToolName = ToolName job, sr_ValidationRequestID = ValidationRequestID job,
      sr_SentinelJobID = JobID job, sr_Stage = StageL5B, sr_Terminal = True,
      sr_Scanner = ''trivy-operator'', sr_ScannerVersion = '''', sr_ScannedAt = '''',
      sr_Source = ''not-available'', sr_CriticalCount = 0, sr_HighCount = 0, sr_MediumCount = 0,
      sr_LowCount = 0, sr_PolicyMode = ''record_only'', sr_PolicyResult = ''not-available''\<rparr>"

text \<open>
  The submission both branches of \<open>runL5b\<close> share: the lease check, the terminal slot, the
  POST, and the pending delivery when the POST fails.
\<close>

definition submitScanRecord :: "Worker \<Rightarrow> Job \<Rightarrow> SubmitScanRecordRequest \<Rightarrow> (string option) proc" where
  "submitScanRecord W job req = do {
     leased \<leftarrow> stillLeased W job;
     if \<not> leased then ret (Some errLeaseLost)
     else do {
       proceed \<leftarrow> claimTerminal W job;
       if \<not> proceed then ret None
       else do {
         res \<leftarrow> post_record W (ScanBody req);
         case res of
           Inl err \<Rightarrow> do {
             do_markDeliveryPending W job (ScanBody req) err;
             ret (Some (vault_error_text err))
           }
         | Inr _ \<Rightarrow> ret None
       }
     }
   }"

definition submitNotAvailableScanRecord :: "Worker \<Rightarrow> Job \<Rightarrow> (string option) proc" where
  "submitNotAvailableScanRecord W job = submitScanRecord W job (not_available_request job)"

definition runL5b :: "Worker \<Rightarrow> Job \<Rightarrow> (string option) proc" where
  "runL5b W job =
     (if \<not> vaultClient W then ret None
      else if \<not> dynamicKube W then submitNotAvailableScanRecord W job
      else do {
        res \<leftarrow> list_reports W;
        case res of
          Inl _ \<Rightarrow> submitNotAvailableScanRecord W job
        | Inr reports \<Rightarrow>
            (case matching_report (ImageDigest job) reports of
               None \<Rightarrow> submitNotAvailableScanRecord W job
             | Some m \<Rightarrow>
                 if tv_Scanner m = '''' then submitNotAvailableScanRecord W job
                 else submitScanRecord W job (scan_request job m))
      })"

end
