(* ===== verification/Worker_Process.thy ===== *)
theory Worker_Process
  imports Scan_Report
begin

text \<open>
  \<open>process\<close> and \<open>finishAfterL4\<close> of pkg/worker/worker.go: one attempt of a leased job from
  the stage plan to \<open>CompleteJob\<close> or \<open>FailJob\<close>, and one round of the leasing loop.
\<close>

section \<open>One attempt\<close>

definition completion_summary :: "stagePlan \<Rightarrow> string option \<Rightarrow> string option \<Rightarrow> string" where
  "completion_summary plan l5aErr l5bErr =
     ''L3 dry-run passed; L4 smoke-run succeeded'' @
     (case l5aErr of
        Some e \<Rightarrow> ''; L5-a failed: '' @ e
      | None \<Rightarrow> if plan_runL5a plan then ''; L5-a submitted'' else ''; L5-a skipped (not requested)'') @
     (case l5bErr of
        Some e \<Rightarrow> ''; L5-b failed: '' @ e
      | None \<Rightarrow> if plan_runL5b plan then ''; L5-b submitted'' else ''; L5-b skipped (not requested)'')"

definition complete_attempt :: "Worker \<Rightarrow> Job \<Rightarrow> string \<Rightarrow> unit proc" where
  "complete_attempt W job summary = do {
     lost \<leftarrow> leaseLost;
     if lost then ret ()
     else do {
       res \<leftarrow> do_CompleteJob W job summary;
       case res of Inl _ \<Rightarrow> ret () | Inr _ \<Rightarrow> inc W JobsCompleted
     }
   }"

text \<open>An optional stage: \<^const>\<open>None\<close> when the lease was lost, else the stage's error.\<close>

definition optional_stage ::
  "Worker \<Rightarrow> Job \<Rightarrow> bool \<Rightarrow> (string option) proc \<Rightarrow> metric \<Rightarrow> metric \<Rightarrow> (string option option) proc" where
  "optional_stage W job planned stage submitted errors =
     (if \<not> planned then ret (Some None)
      else do {
        leased \<leftarrow> stillLeased W job;
        if \<not> leased then ret None
        else do {
          err \<leftarrow> stage;
          lost \<leftarrow> leaseLost;
          if lost then ret None
          else do {
            inc W (if err \<noteq> None then errors else submitted);
            ret (Some err)
          }
        }
      })"

definition finishAfterL4 :: "Worker \<Rightarrow> Job \<Rightarrow> stagePlan \<Rightarrow> bool \<Rightarrow> unit proc" where
  "finishAfterL4 W job plan isL5ALast = do {
     a \<leftarrow> optional_stage W job (plan_runL5a plan) (runL5a W job isL5ALast) L5aSubmitted L5aErrors;
     case a of
       None \<Rightarrow> ret ()
     | Some l5aErr \<Rightarrow> do {
         b \<leftarrow> optional_stage W job (plan_runL5b plan) (runL5b W job) L5bSubmitted L5bErrors;
         case b of
           None \<Rightarrow> ret ()
         | Some l5bErr \<Rightarrow> complete_attempt W job (completion_summary plan l5aErr l5bErr)
       }
   }"

text \<open>\<open>process\<close> from the smoke-run on.\<close>

definition run_L4 :: "Worker \<Rightarrow> Job \<Rightarrow> stagePlan \<Rightarrow> bool \<Rightarrow> unit proc" where
  "run_L4 W job plan adopted = do {
     let isL4Last = (\<not> plan_runL5a plan \<and> \<not> plan_runL5b plan);
     let isL5ALast = (plan_runL5a plan \<and> \<not> plan_runL5b plan);
     let l5aFollows = (plan_runL5a plan \<and> vaultClient W);
     result \<leftarrow> runSmokeRun W job (smokeJobName job) adopted (\<not> l5aFollows);
     lost \<leftarrow> leaseLost;
     if lost then ret ()
     else if \<not> out_success result
     then fail_attempt W job StageL4 ''smoke-run'' (out_class result) (out_reason result)
     else do {
       (if isL4Last then reportTerminalSuccess W job StageL4 ''smoke-run'' else ret ());
       finishAfterL4 W job plan isL5ALast
     }
   }"

text \<open>\<open>process\<close> from the L3 dry-run on.\<close>

definition run_L3 :: "Worker \<Rightarrow> Job \<Rightarrow> stagePlan \<Rightarrow> bool \<Rightarrow> unit proc" where
  "run_L3 W job plan adopted =
     (if adopted then run_L4 W job plan True
      else do {
        err \<leftarrow> runDryRun W (smokeJobName job);
        case err of
          Some e \<Rightarrow> do {
            markExecutionTerminal W False job;
            fail_attempt W job StageL3 ''kubectl apply --dry-run'' FailureClassTransientInfra (''L3 dry-run: '' @ api_text e)
          }
        | None \<Rightarrow> run_L4 W job plan False
      })"

text \<open>\<open>process\<close> once the execution identity is established.\<close>

definition run_execution :: "Worker \<Rightarrow> Job \<Rightarrow> stagePlan \<Rightarrow> bool \<Rightarrow> unit proc" where
  "run_execution W job plan adopted = do {
     found \<leftarrow> (if adopted \<and> plan_runL5a plan \<and> vaultClient W then job_exists W False (l5aJobName job) else ret (Inr False));
     case found of
       Inl e \<Rightarrow> fail_attempt W job StageL4 ''observe adopted execution'' FailureClassTransientInfra
                  (''get adopted L5-a Job: '' @ api_text e)
     | Inr exists \<Rightarrow>
         if exists then finishAfterL4 W job plan (plan_runL5a plan \<and> \<not> plan_runL5b plan)
         else run_L3 W job plan adopted
   }"

text \<open>\<open>process\<close> once the actions are known to be valid.\<close>

definition run_plan :: "Worker \<Rightarrow> Job \<Rightarrow> stagePlan \<Rightarrow> unit proc" where
  "run_plan W job plan = do {
     retired \<leftarrow> (if ExecutionID job = '''' then retireLegacyExecutions W job else ret None);
     lost \<leftarrow> leaseLost;
     case retired of
       Some e \<Rightarrow>
         if lost then ret ()
         else fail_attempt W job StageL3 ''retire legacy execution'' FailureClassTransientInfra
                (''retire legacy execution: '' @ e)
     | None \<Rightarrow> do {
         res \<leftarrow> do_EnsureExecution W job;
         case res of
           Inl e \<Rightarrow> fail_attempt W job StageL3 ''ensure execution identity'' FailureClassTransientInfra
                      (''execution identity: '' @ store_error_text e)
         | Inr (executionID, adopted) \<Rightarrow> run_execution W (job\<lparr>ExecutionID := executionID\<rparr>) plan adopted
       }
   }"

definition process :: "Worker \<Rightarrow> Job \<Rightarrow> unit proc" where
  "process W job =
     (case planStages (RequestedActions job) of
        Inl e \<Rightarrow> fail_attempt W job StageL3 ''validate requested_actions'' FailureClassDeterministic
                   (''invalid requested_actions: '' @ e)
      | Inr plan \<Rightarrow> run_plan W job plan)"

section \<open>The leasing loop\<close>

text \<open>
  \<open>n\<close> rounds of \<open>Run\<close>, which returns early once the process is shutting down. A round
  without a job waits for the poll interval; a round with one runs its attempt to the end.
\<close>

fun Run :: "Worker \<Rightarrow> nat \<Rightarrow> unit proc" where
  "Run W 0 = ret ()"
| "Run W (Suc n) = do {
     c \<leftarrow> ctx;
     if c \<noteq> Live then ret ()
     else do {
       res \<leftarrow> do_LeaseJob W;
       case res of
         Inl _ \<Rightarrow> do {
           _ \<leftarrow> sample W;
           Run W n
         }
       | Inr job \<Rightarrow> do {
           inc W JobsLeased;
           process W job;
           end_attempt;
           Run W n
         }
     }
   }"

end
