(* ===== verification/Worker_Demo.thy ===== *)
theory Worker_Demo
  imports Worker_Process
begin

text \<open>
  Concrete attempts: a worker \<open>w1\<close> that holds the lease of the row \<open>demo_leased\<close>, with the
  replies written out. They are the inputs of the witnesses.
\<close>

definition completed :: job_condition where
  "completed = \<lparr>cond_type = ''Complete'', cond_status = ''True'', cond_reason = '''', cond_message = ''''\<rparr>"

definition demo_reply :: reply where
  "demo_reply =
     \<lparr>rp_others = [], rp_shutdown = False, rp_faults = no_faults, rp_now = 0, rp_clock = 0,
      rp_entropy = (\<lambda>_. Inr (\<lambda>_. 7)), rp_jitter = (\<lambda>_. 0), rp_ticks = [PollTick], rp_polls = 1,
      rp_deadline = False, rp_create = None, rp_get = Inr [completed], rp_delete = None, rp_list = Inr [],
      rp_pods = None, rp_reports = Inr [], rp_vault = Inr \<lparr>RecordID = ''r'', CertificationStatus = ''c''\<rparr>\<rparr>"

text \<open>The first replies as listed, \<^const>\<open>demo_reply\<close> from then on.\<close>

definition demo_worker :: "reply list \<Rightarrow> Worker" where
  "demo_worker rs =
     \<lparr>workerName = ''w1'', vaultClient = True, dynamicKube = False, metrics = True,
      replies = (\<lambda>n. if n < length rs then rs ! n else demo_reply), encode = (\<lambda>_. Inr ''{}''),
      valid_label = (\<lambda>_. True)\<rparr>"

definition demo_attempt :: Job where
  "demo_attempt = demo_job\<lparr>JobID := ''job-1'', Attempt := 1, RequestedActions := [''smoke_run'']\<rparr>"

definition demo_world :: "row \<Rightarrow> world" where
  "demo_world r = \<lparr>w_store = demo_store r, w_ctx = Live, w_step = 0, w_trace = [], w_metrics = []\<rparr>"

text \<open>The trace an attempt leaves.\<close>

definition demo_trace :: "reply list \<Rightarrow> Job \<Rightarrow> row \<Rightarrow> event list" where
  "demo_trace rs job r = w_trace (snd (run_state (process (demo_worker rs) job) (demo_world r)))"

lemma demo_world_fields [simp]: "w_store (demo_world r) = demo_store r" "w_trace (demo_world r) = []" "w_ctx (demo_world r) = Live"
  by (simp_all add: demo_world_def)

end
