(* ===== verification/Worker_Logic.thy ===== *)
theory Worker_Logic
  imports Worker_Demo
begin

text \<open>
  A weakest-precondition calculus for worker programs, and the interfaces through
  which invariants of an attempt are proved once for all of its code:
  \<open>stage_invariant\<close>, what the calls of a stage must keep, and \<open>attempt_invariant\<close>, which
  adds the reports and the writes that end an attempt.
\<close>

section \<open>Weakest preconditions\<close>

named_theorems wp_rules

definition wp :: "'a proc \<Rightarrow> ('a \<Rightarrow> world \<Rightarrow> bool) \<Rightarrow> world \<Rightarrow> bool" where
  "wp m Q w = (case run_state m w of (x, w') \<Rightarrow> Q x w')"

lemma wp_mono: "wp m Q w \<Longrightarrow> (\<And>x w'. Q x w' \<Longrightarrow> Q' x w') \<Longrightarrow> wp m Q' w"
  by (auto simp: wp_def split: prod.splits)

lemma wp_conj: "wp m P w \<Longrightarrow> wp m Q w \<Longrightarrow> wp m (\<lambda>x w'. P x w' \<and> Q x w') w"
  by (auto simp: wp_def split: prod.splits)

lemma wp_run: "wp m Q w \<longleftrightarrow> Q (fst (run_state m w)) (snd (run_state m w))"
  by (simp add: wp_def split: prod.splits)

lemma wp_ret [wp_rules]: "Q x w \<Longrightarrow> wp (ret x) Q w"
  by (simp add: wp_def)

lemma wp_bind [wp_rules]: "wp m (\<lambda>x. wp (f x) Q) w \<Longrightarrow> wp (m \<bind> f) Q w"
  by (simp add: wp_run split_beta)

lemma wp_if [wp_rules]: "(c \<Longrightarrow> wp m Q w) \<Longrightarrow> (\<not> c \<Longrightarrow> wp n Q w) \<Longrightarrow> wp (if c then m else n) Q w"
  by simp

lemma wp_option [wp_rules]:
  "(x = None \<Longrightarrow> wp m Q w) \<Longrightarrow> (\<And>y. x = Some y \<Longrightarrow> wp (f y) Q w) \<Longrightarrow> wp (case x of None \<Rightarrow> m | Some y \<Rightarrow> f y) Q w"
  by (simp split: option.split)

lemma wp_sum [wp_rules]:
  "(\<And>y. x = Inl y \<Longrightarrow> wp (f y) Q w) \<Longrightarrow> (\<And>y. x = Inr y \<Longrightarrow> wp (g y) Q w) \<Longrightarrow> wp (case x of Inl y \<Rightarrow> f y | Inr y \<Rightarrow> g y) Q w"
  by (simp split: sum.split)

lemma wp_prod [wp_rules]: "(\<And>y z. x = (y, z) \<Longrightarrow> wp (f y z) Q w) \<Longrightarrow> wp (case x of (y, z) \<Rightarrow> f y z) Q w"
  by (simp split: prod.split)

lemma wp_bool [wp_rules]:
  "(b \<Longrightarrow> wp m Q w) \<Longrightarrow> (\<not> b \<Longrightarrow> wp n Q w) \<Longrightarrow> wp (case b of True \<Rightarrow> m | False \<Rightarrow> n) Q w"
  by (simp split: bool.split)

lemma wp_nat [wp_rules]:
  "(n = 0 \<Longrightarrow> wp m Q w) \<Longrightarrow> (\<And>k. n = Suc k \<Longrightarrow> wp (f k) Q w) \<Longrightarrow> wp (case n of 0 \<Rightarrow> m | Suc k \<Rightarrow> f k) Q w"
  by (simp split: nat.split)

lemma wp_let [wp_rules]: "wp (f x) Q w \<Longrightarrow> wp (Let x f) Q w"
  by simp

section \<open>The calls\<close>

abbreviation next_reply :: "Worker \<Rightarrow> world \<Rightarrow> reply" where
  "next_reply W w \<equiv> replies W (w_step w)"

lemma wp_sample: "wp (sample W) Q w \<longleftrightarrow> Q (next_reply W w) (arrive (next_reply W w) w)"
  by (simp add: wp_def sample_def Let_def)

lemma wp_ctx: "wp ctx Q w \<longleftrightarrow> Q (w_ctx w) w"
  by (simp add: wp_def ctx_def)

lemma wp_leaseLost: "wp leaseLost Q w \<longleftrightarrow> Q (w_ctx w = LeaseLost) w"
  by (simp add: wp_def leaseLost_def)

lemma wp_lose:
  "wp lose Q w \<longleftrightarrow> Q () (if w_ctx w = Live then w\<lparr>w_ctx := LeaseLost, w_trace := EvLost # w_trace w\<rparr> else w)"
  by (simp add: wp_def lose_def)

lemma wp_end_attempt: "wp end_attempt Q w \<longleftrightarrow> Q () (if w_ctx w = LeaseLost then w\<lparr>w_ctx := Live\<rparr> else w)"
  by (simp add: wp_def end_attempt_def)

lemma wp_inc: "wp (inc W m) Q w \<longleftrightarrow> Q () (if metrics W then w\<lparr>w_metrics := m # w_metrics w\<rparr> else w)"
  by (simp add: wp_def inc_def)

text \<open>A call that goes out, and one that does not because the context is canceled.\<close>

lemma wp_store_op:
  assumes "\<And>x s. bg \<or> w_ctx (arrive (next_reply W w) w) = Live \<Longrightarrow>
      f (rp_faults (next_reply W w)) (next_reply W w) (w_store (arrive (next_reply W w) w)) = (x, s) \<Longrightarrow>
      Q x (arrive (next_reply W w) w\<lparr>w_store := s, w_trace := ev x # w_trace w\<rparr>)"
    and "\<not> bg \<Longrightarrow> w_ctx (arrive (next_reply W w) w) \<noteq> Live \<Longrightarrow>
      Q (fst (f canceled (next_reply W w) (w_store (arrive (next_reply W w) w)))) (arrive (next_reply W w) w)"
  shows "wp (store_op W bg f ev) Q w"
  using assms by (auto simp: wp_def store_op_def Let_def arrive_def split: prod.splits)

lemma wp_remote_op:
  assumes "bg \<or> w_ctx (arrive (next_reply W w) w) = Live \<Longrightarrow>
      Q (f (next_reply W w)) (arrive (next_reply W w) w\<lparr>w_trace := ev (f (next_reply W w)) # w_trace w\<rparr>)"
    and "\<not> bg \<Longrightarrow> w_ctx (arrive (next_reply W w) w) \<noteq> Live \<Longrightarrow> Q dead (arrive (next_reply W w) w)"
  shows "wp (remote_op W bg f dead ev) Q w"
  using assms by (auto simp: wp_def remote_op_def Let_def arrive_def)

lemma arrive_fields [simp]:
  "w_trace (arrive r w) = w_trace w" "w_metrics (arrive r w) = w_metrics w" "w_step (arrive r w) = Suc (w_step w)"
  "w_store (arrive r w) = run_calls (rp_others r) (w_store w)"
  by (simp_all add: arrive_def)

lemma arrive_ctx: "w_ctx (arrive r w) = (if w_ctx w = Live \<and> rp_shutdown r then Canceled else w_ctx w)"
  by (simp add: arrive_def)

lemma arrive_lost [simp]: "w_ctx (arrive r w) = LeaseLost \<longleftrightarrow> w_ctx w = LeaseLost"
  by (simp add: arrive_def)

lemma arrive_live: "w_ctx (arrive r w) = Live \<Longrightarrow> w_ctx w = Live"
  by (simp add: arrive_def split: if_splits)

lemmas store_calls =
  do_LeaseJob_def do_Heartbeat_def do_GetJob_def do_EnsureExecution_def do_MarkExecutionTerminal_def
  do_ClaimTerminal_def do_FailJob_def do_CompleteJob_def do_markDeliveryPending_def

lemmas remote_calls =
  create_job_def runDryRun_def get_job_def deleteJob_def list_jobs_def list_pods_def list_reports_def
  post_record_def

section \<open>What the calls keep of the context\<close>

abbreviation lost :: "world \<Rightarrow> bool" where
  "lost w \<equiv> w_ctx w = LeaseLost"

definition keeps_lost :: "'a proc \<Rightarrow> bool" where
  "keeps_lost m \<longleftrightarrow> (\<forall>w. wp m (\<lambda>_ w'. lost w' = lost w) w)"

named_theorems lost_frame

lemma store_op_lost [lost_frame]: "keeps_lost (store_op W bg f ev)"
  unfolding keeps_lost_def by (intro allI wp_store_op) (simp_all add: arrive_lost)

lemma remote_op_lost [lost_frame]: "keeps_lost (remote_op W bg f dead ev)"
  unfolding keeps_lost_def by (intro allI wp_remote_op) simp_all

lemma sample_lost [lost_frame]: "keeps_lost (sample W)"
  by (simp add: keeps_lost_def wp_sample)

lemma inc_lost [lost_frame]: "keeps_lost (inc W m)"
  by (simp add: keeps_lost_def wp_inc)

lemma bind_ret_lost: "keeps_lost m \<Longrightarrow> keeps_lost (m \<bind> (\<lambda>x. ret (f x)))"
  unfolding keeps_lost_def wp_run by (simp add: split_beta)

lemma release_lost [lost_frame]: "keeps_lost (markExecutionTerminal W bg job)"
  unfolding markExecutionTerminal_def store_calls by (intro bind_ret_lost lost_frame)

lemma remote_lost [lost_frame]:
  "keeps_lost (create_job W name)" "keeps_lost (get_job W bg name)" "keeps_lost (deleteJob W name)"
  "keeps_lost (list_jobs W)" "keeps_lost (list_pods W name)" "keeps_lost (list_reports W)"
  "keeps_lost (runDryRun W name)"
  by (simp_all add: remote_calls remote_op_lost)

lemmas create_job_lost = remote_lost(1)
lemmas get_job_lost = remote_lost(2)
lemmas deleteJob_lost = remote_lost(3)
lemmas list_jobs_lost = remote_lost(4)
lemmas list_pods_lost = remote_lost(5)

lemma with_lost:
  "keeps_lost m \<Longrightarrow> wp m Q w \<Longrightarrow> wp m (\<lambda>x w'. Q x w' \<and> lost w' = lost w) w"
  unfolding keeps_lost_def by (simp add: wp_conj)

lemma leaseLost_rule [wp_rules]: "Q (lost w) w \<Longrightarrow> wp leaseLost Q w"
  by (simp add: wp_leaseLost)

lemma ctx_rule [wp_rules]: "Q (w_ctx w) w \<Longrightarrow> wp ctx Q w"
  by (simp add: wp_ctx)

text \<open>An answer shows that the context was live when the call went out.\<close>

lemma remote_op_live: "wp (remote_op W False f dead ev) (\<lambda>x w'. x \<noteq> dead \<longrightarrow> w_ctx w' = Live) w"
  by (intro wp_remote_op) simp_all

lemma get_job_live: "wp (get_job W False name) (\<lambda>res w'. \<forall>c. res = Inr c \<longrightarrow> w_ctx w' = Live) w"
  unfolding get_job_def by (rule wp_mono [OF remote_op_live]) auto

lemma do_GetJob_live: "wp (do_GetJob W job) (\<lambda>res w'. \<forall>c. res = Inr c \<longrightarrow> w_ctx w' = Live) w"
  unfolding do_GetJob_def by (intro wp_store_op) (auto simp: GetJob_def canceled_def split: option.splits)

section \<open>Invariants of a stage\<close>

text \<open>The counters the optional stages increment; the others belong to the attempt as a whole.\<close>

fun stage_metric :: "metric \<Rightarrow> bool" where
  "stage_metric JobsLeased = False"
| "stage_metric JobsCompleted = False"
| "stage_metric JobsFailed = False"
| "stage_metric (FailuresClassified c stage) = (stage = StageL5A)"
| "stage_metric _ = True"

text \<open>
  \<open>I\<close> is kept by every call a stage makes for a job in \<open>mine\<close>, where Jobs are created only
  under names in \<open>named\<close>; calls in the background need keep it only while the lease is not
  known to be lost.
\<close>

locale stage_invariant =
  fixes W :: Worker and mine :: "Job \<Rightarrow> bool" and named :: "string \<Rightarrow> bool" and I :: "world \<Rightarrow> bool"
  assumes mine_named: "mine job \<Longrightarrow> named (smokeJobName job) \<and> named (l5aJobName job)"
    and keep_sample: "I w \<Longrightarrow> wp (sample W) (\<lambda>_. I) w"
    and keep_inc: "stage_metric m \<Longrightarrow> I w \<Longrightarrow> wp (inc W m) (\<lambda>_. I) w"
    and keep_heartbeat: "mine job \<Longrightarrow> I w \<Longrightarrow> wp (heartbeat W job) (\<lambda>_. I) w"
    and keep_reread: "mine job \<Longrightarrow> I w \<Longrightarrow> wp (do_GetJob W job) (\<lambda>_. I) w"
    and keep_release: "mine job \<Longrightarrow> I w \<Longrightarrow> (bg \<Longrightarrow> \<not> lost w) \<Longrightarrow> wp (markExecutionTerminal W bg job) (\<lambda>_. I) w"
    and keep_create: "named name \<Longrightarrow> I w \<Longrightarrow> wp (create_job W name) (\<lambda>_. I) w"
    and keep_get: "I w \<Longrightarrow> (bg \<Longrightarrow> \<not> lost w) \<Longrightarrow> wp (get_job W bg name) (\<lambda>_. I) w"
    and keep_delete: "I w \<Longrightarrow> \<not> lost w \<Longrightarrow> wp (deleteJob W name) (\<lambda>_. I) w"
    and keep_list: "I w \<Longrightarrow> wp (list_jobs W) (\<lambda>_. I) w"
    and keep_pods: "I w \<Longrightarrow> wp (list_pods W name) (\<lambda>_. I) w"
begin

lemma get_rule:
  "I w \<Longrightarrow> wp (get_job W False name) (\<lambda>res w'. (I w' \<and> lost w' = lost w) \<and> (\<forall>c. res = Inr c \<longrightarrow> w_ctx w' = Live)) w"
  by (intro wp_conj get_job_live with_lost keep_get) (simp_all add: get_job_def lost_frame)

lemma reread_rule:
  "mine job \<Longrightarrow> I w \<Longrightarrow> wp (do_GetJob W job) (\<lambda>res w'. I w' \<and> (\<forall>c. res = Inr c \<longrightarrow> w_ctx w' = Live)) w"
  by (intro wp_conj keep_reread do_GetJob_live)

lemmas call_rules =
  with_lost [OF sample_lost keep_sample, THEN wp_mono]
  with_lost [OF inc_lost keep_inc, THEN wp_mono]
  with_lost [OF release_lost keep_release, THEN wp_mono]
  with_lost [OF create_job_lost keep_create, THEN wp_mono]
  with_lost [OF deleteJob_lost keep_delete, THEN wp_mono]
  with_lost [OF list_jobs_lost keep_list, THEN wp_mono]
  with_lost [OF list_pods_lost keep_pods, THEN wp_mono]
  get_rule [THEN wp_mono] reread_rule [THEN wp_mono] keep_heartbeat [THEN wp_mono]

lemmas get_bg_rule = with_lost [OF get_job_lost keep_get, THEN wp_mono]

lemma stillLeased_keeps:
  "mine job \<Longrightarrow> I w \<Longrightarrow> wp (stillLeased W job) (\<lambda>b w'. I w' \<and> (b \<longrightarrow> \<not> lost w')) w"
  unfolding stillLeased_def by (intro wp_rules call_rules) auto

lemma exists_keeps: "I w \<Longrightarrow> wp (job_exists W False name) (\<lambda>_ w'. I w' \<and> lost w' = lost w) w"
  unfolding job_exists_def by (intro wp_rules call_rules) auto

lemma exists_bg_keeps: "I w \<Longrightarrow> \<not> lost w \<Longrightarrow> wp (job_exists W True name) (\<lambda>_ w'. I w' \<and> \<not> lost w') w"
  unfolding job_exists_def by (intro wp_rules get_bg_rule) auto

lemma confirm_gone_keeps: "I w \<Longrightarrow> \<not> lost w \<Longrightarrow> wp (confirm_gone W name n) (\<lambda>_ w'. I w' \<and> \<not> lost w') w"
proof (induction n arbitrary: w)
  case 0
  then show ?case unfolding confirm_gone.simps [of W name 0]
    by (intro wp_rules exists_bg_keeps [THEN wp_mono]) auto
next
  case (Suc n)
  then show ?case unfolding confirm_gone.simps [of W name "Suc n"]
    by (intro wp_rules exists_bg_keeps [THEN wp_mono]) auto
qed

lemma confirm_keeps: "I w \<Longrightarrow> \<not> lost w \<Longrightarrow> wp (deleteAndConfirmGone W name) (\<lambda>_ w'. I w' \<and> \<not> lost w') w"
  unfolding deleteAndConfirmGone_def
  by (intro wp_rules call_rules confirm_gone_keeps) auto

lemmas stage_rules = call_rules
  stillLeased_keeps [THEN wp_mono] exists_keeps [THEN wp_mono] confirm_keeps [THEN wp_mono]

lemma retire_jobs_keeps: "mine job \<Longrightarrow> I w \<Longrightarrow> wp (retire_jobs W job names) (\<lambda>_. I) w"
proof (induction names arbitrary: w)
  case Nil
  then show ?case by (auto intro: wp_ret)
next
  case (Cons name names)
  then show ?case unfolding retire_jobs.simps by (intro wp_rules stage_rules Cons.IH) auto
qed

lemma retire_keeps: "mine job \<Longrightarrow> I w \<Longrightarrow> wp (retireLegacyExecutions W job) (\<lambda>_. I) w"
  unfolding retireLegacyExecutions_def by (intro wp_rules stage_rules retire_jobs_keeps) auto

lemma createSmokeJob_keeps: "mine job \<Longrightarrow> named name \<Longrightarrow> I w \<Longrightarrow> wp (createSmokeJob W job name rel) (\<lambda>_. I) w"
  unfolding createSmokeJob_def by (intro wp_rules stage_rules) auto

lemma classify_smoke_keeps: "I w \<Longrightarrow> wp (classify_smoke W ddl name conds) (\<lambda>_ w'. I w' \<and> lost w' = lost w) w"
  unfolding classify_smoke_def by (intro wp_rules stage_rules) auto

lemma smoke_done_keeps: "mine job \<Longrightarrow> I w \<Longrightarrow> wp (smoke_done W job name) (\<lambda>_. I) w"
  unfolding smoke_done_def by (intro wp_rules stage_rules classify_smoke_keeps [THEN wp_mono]) auto

lemma smoke_ended_keeps:
  "mine job \<Longrightarrow> I w \<Longrightarrow> w_ctx w = Live \<Longrightarrow> wp (smoke_ended W job name rel conds c) (\<lambda>_. I) w"
  unfolding smoke_ended_def by (intro wp_rules stage_rules classify_smoke_keeps [THEN wp_mono]) auto

lemma smoke_loop_keeps: "mine job \<Longrightarrow> named name \<Longrightarrow> I w \<Longrightarrow> wp (smoke_loop W job name rel confirmed ticks) (\<lambda>_. I) w"
proof (induction ticks arbitrary: confirmed w)
  case Nil
  then show ?case by (simp add: smoke_done_keeps)
next
  case (Cons t ticks)
  show ?case
  proof (cases t)
    case HeartbeatTick
    with Cons show ?thesis by (auto intro!: wp_rules stage_rules)
  next
    case PollTick
    with Cons.prems show ?thesis unfolding PollTick smoke_loop.simps
      by (intro wp_rules stage_rules createSmokeJob_keeps [THEN wp_mono] smoke_ended_keeps Cons.IH) auto
  qed
qed

lemma runSmokeRun_keeps: "mine job \<Longrightarrow> named name \<Longrightarrow> I w \<Longrightarrow> wp (runSmokeRun W job name adopted rel) (\<lambda>_. I) w"
  unfolding runSmokeRun_def
  by (intro wp_rules stage_rules createSmokeJob_keeps [THEN wp_mono] smoke_loop_keeps) auto

lemma reconcile_loop_keeps: "named name \<Longrightarrow> I w \<Longrightarrow> wp (reconcile_loop W name initial n) (\<lambda>_. I) w"
proof (induction n arbitrary: initial w)
  case 0
  then show ?case by (auto intro: wp_ret)
next
  case (Suc n)
  then show ?case unfolding reconcile_loop.simps by (intro wp_rules stage_rules Suc.IH) auto
qed

lemma l5a_create_keeps: "mine job \<Longrightarrow> named name \<Longrightarrow> I w \<Longrightarrow> wp (l5a_create W job name) (\<lambda>_. I) w"
  unfolding l5a_create_def reconcileL5aCreate_def
  by (intro wp_rules stage_rules reconcile_loop_keeps [THEN wp_mono]) auto

lemma waitL5aJob_keeps: "mine job \<Longrightarrow> I w \<Longrightarrow> wp (waitL5aJob W job name ticks) (\<lambda>_. I) w"
proof (induction ticks arbitrary: w)
  case Nil
  then show ?case unfolding waitL5aJob.simps by (intro wp_rules stage_rules) auto
next
  case (Cons t ticks)
  show ?case
  proof (cases t)
    case HeartbeatTick
    with Cons show ?thesis by (auto intro!: wp_rules stage_rules)
  next
    case PollTick
    with Cons.prems show ?thesis unfolding PollTick waitL5aJob.simps extractPodExitCode_def
      by (intro wp_rules stage_rules Cons.IH) auto
  qed
qed

end

section \<open>Invariants of an attempt\<close>

text \<open>\<open>submit_invariant\<close> covers the optional stages and every report to NodeVault.\<close>

locale submit_invariant = stage_invariant +
  assumes keep_submit: "mine job \<Longrightarrow> I w \<Longrightarrow> wp (submitCheckRecord W job sub) (\<lambda>_. I) w"
    and keep_scan: "mine job \<Longrightarrow> I w \<Longrightarrow> sr_Terminal req \<Longrightarrow> sr_SentinelJobID req = JobID job \<Longrightarrow>
      wp (submitScanRecord W job req) (\<lambda>_. I) w"
    and keep_reports: "I w \<Longrightarrow> wp (list_reports W) (\<lambda>_. I) w"
begin

lemmas submit_rules = stage_rules
  keep_submit [THEN wp_mono] keep_scan [THEN wp_mono] keep_reports [THEN wp_mono]

lemma runL5a_keeps: "mine job \<Longrightarrow> I w \<Longrightarrow> wp (runL5a W job terminal) (\<lambda>_. I) w"
  unfolding runL5a_def
  by (intro wp_rules submit_rules l5a_create_keeps [THEN wp_mono] waitL5aJob_keeps [THEN wp_mono])
    (auto dest: mine_named)

lemma runL5b_keeps: "mine job \<Longrightarrow> I w \<Longrightarrow> wp (runL5b W job) (\<lambda>_. I) w"
  unfolding runL5b_def submitNotAvailableScanRecord_def
  by (intro wp_rules submit_rules) (auto simp: scan_request_def not_available_request_def)

lemma optional_stage_keeps:
  assumes "mine job" and "I w" and stage: "\<And>w. I w \<Longrightarrow> wp stage (\<lambda>_. I) w" and "stage_metric a" and "stage_metric b"
  shows "wp (optional_stage W job planned stage a b) (\<lambda>_. I) w"
  unfolding optional_stage_def by (intro wp_rules submit_rules stage [THEN wp_mono]) (use assms in auto)

lemma success_report_keeps: "mine job \<Longrightarrow> I w \<Longrightarrow> wp (reportTerminalSuccess W job stage command) (\<lambda>_. I) w"
  unfolding reportTerminalSuccess_def by (intro wp_rules submit_rules) auto

end

text \<open>\<open>report_invariant\<close> covers everything after a successful smoke-run.\<close>

locale report_invariant = submit_invariant +
  assumes keep_count: "I w \<Longrightarrow> wp (inc W m) (\<lambda>_. I) w"
    and keep_complete: "mine job \<Longrightarrow> I w \<Longrightarrow> wp (do_CompleteJob W job summary) (\<lambda>_. I) w"
begin

lemmas count_rule = with_lost [OF inc_lost keep_count, THEN wp_mono]

lemmas report_rules = count_rule submit_rules keep_complete [THEN wp_mono]

lemma finish_keeps: "mine job \<Longrightarrow> I w \<Longrightarrow> wp (finishAfterL4 W job plan isL5ALast) (\<lambda>_. I) w"
  unfolding finishAfterL4_def complete_attempt_def
  by (intro wp_rules report_rules optional_stage_keeps [THEN wp_mono] runL5a_keeps runL5b_keeps) auto

end

text \<open>\<open>execution_invariant\<close> covers everything under one execution identity.\<close>

locale execution_invariant = report_invariant +
  assumes keep_dry_run: "I w \<Longrightarrow> wp (runDryRun W name) (\<lambda>_. I) w"
    and keep_fail: "mine job \<Longrightarrow> I w \<Longrightarrow> wp (do_FailJob W job d) (\<lambda>_. I) w"
begin

lemmas execution_rules = report_rules keep_dry_run [THEN wp_mono] keep_fail [THEN wp_mono]

lemma fail_attempt_keeps: "mine job \<Longrightarrow> I w \<Longrightarrow> wp (fail_attempt W job stage command cls why) (\<lambda>_. I) w"
  unfolding fail_attempt_def reportTerminalFailure_def by (intro wp_rules execution_rules) auto

lemma run_L4_keeps: "mine job \<Longrightarrow> I w \<Longrightarrow> wp (run_L4 W job plan adopted) (\<lambda>_. I) w"
  unfolding run_L4_def
  by (intro wp_rules runSmokeRun_keeps [THEN wp_mono] success_report_keeps [THEN wp_mono]
      fail_attempt_keeps finish_keeps) (auto dest: mine_named)

lemma run_L3_keeps: "mine job \<Longrightarrow> I w \<Longrightarrow> wp (run_L3 W job plan adopted) (\<lambda>_. I) w"
  unfolding run_L3_def by (intro wp_rules execution_rules fail_attempt_keeps run_L4_keeps) auto

lemma run_execution_keeps: "mine job \<Longrightarrow> I w \<Longrightarrow> wp (run_execution W job plan adopted) (\<lambda>_. I) w"
  unfolding run_execution_def
  by (intro wp_rules execution_rules fail_attempt_keeps finish_keeps run_L3_keeps) auto

end

locale attempt_invariant = execution_invariant +
  assumes mine_execution: "mine job \<Longrightarrow> mine (job\<lparr>ExecutionID := i\<rparr>)"
    and keep_ensure: "mine job \<Longrightarrow> I w \<Longrightarrow> wp (do_EnsureExecution W job) (\<lambda>_. I) w"
begin

lemma process_keeps: "mine job \<Longrightarrow> I w \<Longrightarrow> wp (process W job) (\<lambda>_. I) w"
  unfolding process_def run_plan_def
  by (intro wp_rules keep_ensure [THEN wp_mono] retire_keeps [THEN wp_mono] fail_attempt_keeps
      run_execution_keeps mine_execution) auto

end

section \<open>Invariants of the leasing loop\<close>

locale run_invariant = attempt_invariant +
  assumes keep_lease: "I w \<Longrightarrow> w_ctx w = Live \<Longrightarrow>
      wp (do_LeaseJob W) (\<lambda>res w'. I w' \<and> (\<forall>job. res = Inr job \<longrightarrow> mine job)) w"
    and keep_end: "I w \<Longrightarrow> wp end_attempt (\<lambda>_. I) w"
begin

lemma Run_keeps: "I w \<Longrightarrow> wp (Run W n) (\<lambda>_. I) w"
proof (induction n arbitrary: w)
  case 0
  then show ?case by (auto intro: wp_ret)
next
  case (Suc n)
  from Suc.prems show ?case unfolding Run.simps
    by (intro wp_rules keep_lease [THEN wp_mono] count_rule call_rules process_keeps [THEN wp_mono]
        keep_end [THEN wp_mono] Suc.IH) auto
qed

end

end
