(* ===== verification/Worker_Safety.thy ===== *)
theory Worker_Safety
  imports Worker_Logic
begin

text \<open>
  What an attempt may do to the shared store and to NodeVault, under every interference:
  the store moves only by its own calls, a lost lease ends all effects, and a job gets at
  most one terminal record.
\<close>

section \<open>The environment\<close>

text \<open>
  What the worker relies on: it has a name, the other goroutines and processes use the
  store through its interface, clocks lie in the years 0 to 9999 with room for a lease and
  a redelivery delay, and \<open>rand.Int63n\<close> keeps to its range.
\<close>

definition reply_ok :: "reply \<Rightarrow> bool" where
  "reply_ok r \<longleftrightarrow> list_all valid_call (rp_others r) \<and> ts_ok (rp_now r) \<and> ts_ok (rp_now r + leaseDuration) \<and>
     ts_ok (rp_clock r) \<and> ts_ok (rp_clock r + deliveryMaxBackoff) \<and> int63n_ok (rp_jitter r)"

definition env_ok :: "Worker \<Rightarrow> bool" where
  "env_ok W \<longleftrightarrow> workerName W \<noteq> '''' \<and> (\<forall>n. reply_ok (replies W n))"

lemma env_reply: "env_ok W \<Longrightarrow> reply_ok (replies W n)"
  by (simp add: env_ok_def)

lemma demo_env_ok: "env_ok (demo_worker [])"
proof -
  have "int63n_ok (\<lambda>_. 0)" by (simp add: int63n_ok_def)
  then have "reply_ok demo_reply"
    by (simp add: reply_ok_def demo_reply_def ts_ok_def leaseDuration_def deliveryMaxBackoff_def)
  then show ?thesis by (simp add: env_ok_def demo_worker_def)
qed

section \<open>Moves\<close>

text \<open>
  From \<open>w\<close> to \<open>w'\<close> the store made calls of its interface and the trace grew by events
  satisfying \<open>A\<close>.
\<close>

definition moves :: "(event \<Rightarrow> bool) \<Rightarrow> world \<Rightarrow> world \<Rightarrow> bool" where
  "moves A w w' \<longleftrightarrow> store_step\<^sup>*\<^sup>* (w_store w) (w_store w') \<and>
     (\<exists>es. w_trace w' = es @ w_trace w \<and> list_all A es)"

lemma moves_refl: "moves A w w"
  by (simp add: moves_def)

lemma moves_trans:
  assumes "moves A u v" and "moves A v w"
  shows "moves A u w"
proof -
  obtain es fs where "w_trace v = es @ w_trace u" "list_all A es" "w_trace w = fs @ w_trace v" "list_all A fs"
    using assms unfolding moves_def by blast
  then have "w_trace w = (fs @ es) @ w_trace u" "list_all A (fs @ es)" by simp_all
  then show ?thesis using assms unfolding moves_def by (metis rtranclp_trans)
qed

lemma arrive_reach: "env_ok W \<Longrightarrow> store_step\<^sup>*\<^sup>* (w_store w) (w_store (arrive (next_reply W w) w))"
  using env_reply [of W "w_step w"] by (simp add: reply_ok_def run_calls_reach)

lemma sample_moves: "env_ok W \<Longrightarrow> wp (sample W) (\<lambda>_. moves A w) w"
  using arrive_reach [of W w] by (simp add: wp_sample moves_def)

lemma inc_moves: "wp (inc W m) (\<lambda>_. moves A w) w"
  by (simp add: wp_inc moves_def)

lemma remote_moves:
  "env_ok W \<Longrightarrow> (\<And>x. A (ev x)) \<Longrightarrow> wp (remote_op W bg f dead ev) (\<lambda>_. moves A w) w"
  using arrive_reach [of W w] by (intro wp_remote_op) (auto simp: moves_def)

text \<open>A store call the interface has.\<close>

definition is_call :: "Worker \<Rightarrow> (faults \<Rightarrow> reply \<Rightarrow> store \<Rightarrow> 'a \<times> store) \<Rightarrow> bool" where
  "is_call W f \<longleftrightarrow> (\<forall>flt n s. store_step\<^sup>*\<^sup>* s (snd (f flt (replies W n) s)))"

lemma store_moves:
  assumes "env_ok W" and f: "is_call W f" and A: "\<And>x. A (ev x)"
  shows "wp (store_op W bg f ev) (\<lambda>_. moves A w) w"
proof (rule wp_store_op)
  let ?r = "next_reply W w"
  let ?s = "w_store (arrive ?r w)"
  fix x s
  assume "f (rp_faults ?r) ?r ?s = (x, s)"
  then have "store_step\<^sup>*\<^sup>* ?s s" using f unfolding is_call_def by (metis snd_conv)
  then have "store_step\<^sup>*\<^sup>* (w_store w) s" using arrive_reach [OF assms(1)] by (metis rtranclp_trans)
  then show "moves A w (arrive ?r w\<lparr>w_store := s, w_trace := ev x # w_trace w\<rparr>)"
    using A by (simp add: moves_def)
qed (use arrive_reach [OF assms(1)] in \<open>simp add: moves_def\<close>)

lemma step_call: "valid_call c \<Longrightarrow> t = exec_call c s \<Longrightarrow> store_step\<^sup>*\<^sup>* s t"
  by (simp add: r_into_rtranclp store_step.intros)

lemma markDeliveryPending_reach:
  assumes r: "reply_ok r"
  shows "store_step\<^sup>*\<^sup>* s (markDeliveryPending enc (rp_jitter r) flt (rp_clock r) (rp_now r) wn job body err s)"
proof -
  let ?nx = "rp_clock r + backoffDuration (rp_jitter r) 1"
  have "deliveryBaseBackoff \<le> backoffDuration (rp_jitter r) 1" "backoffDuration (rp_jitter r) 1 \<le> deliveryMaxBackoff"
    using r backoffDuration_range [of "rp_jitter r" 1] by (simp_all add: reply_ok_def)
  then have nx: "ts_ok ?nx"
    using r unfolding reply_ok_def ts_ok_def deliveryBaseBackoff_def by linarith
  have now: "ts_ok (rp_now r)" using r by (simp add: reply_ok_def)
  have "store_step\<^sup>*\<^sup>* s (snd (MarkFirstDeliveryPending flt (rp_now r) (JobID job) wn (Attempt job) p e ?nx s))" for p e
    using nx now by (intro step_call [of "CallMarkFirstDeliveryPending flt (rp_now r) (JobID job) wn (Attempt job) p e ?nx"]) simp_all
  moreover have "store_step\<^sup>*\<^sup>* s (snd (MarkFirstDeliveryDeadLetter flt (rp_now r) (JobID job) wn (Attempt job) p e s))" for p e
    using now by (intro step_call [of "CallMarkFirstDeliveryDeadLetter flt (rp_now r) (JobID job) wn (Attempt job) p e"]) simp_all
  ultimately show ?thesis
    by (simp add: markDeliveryPending_def markFirstDeliveryFailure_def split: sum.split)
qed

lemma calls_reach:
  assumes "env_ok W"
  shows "is_call W (\<lambda>flt r. LeaseJob flt (rp_now r) (workerName W) leaseDuration)"
    and "is_call W (\<lambda>flt r. Heartbeat flt (rp_now r) j (workerName W) a leaseDuration)"
    and "is_call W (\<lambda>flt r s. (GetJob flt 0 j s, s))"
    and "is_call W (\<lambda>flt r. EnsureExecution flt (rp_entropy r) (rp_now r) j)"
    and "is_call W (\<lambda>flt r. MarkExecutionTerminal flt (rp_now r) j i)"
    and "is_call W (\<lambda>flt r. ClaimTerminal flt (rp_now r) j (workerName W) a)"
    and "is_call W (\<lambda>flt r. FailJob flt (rp_now r) j (workerName W) a e rt d)"
    and "is_call W (\<lambda>flt r. CompleteJob flt (rp_now r) j (workerName W) a res)"
    and "is_call W (\<lambda>flt r s. ((), markDeliveryPending enc (rp_jitter r) flt (rp_clock r) (rp_now r) (workerName W) job body err s))"
proof -
  have w: "workerName W \<noteq> ''''" using assms by (simp add: env_ok_def)
  have r: "reply_ok (replies W n)" for n using assms by (rule env_reply)
  then have now: "ts_ok (rp_now (replies W n))" "ts_ok (rp_now (replies W n) + leaseDuration)" for n
    by (simp_all add: reply_ok_def)
  show "is_call W (\<lambda>flt r s. ((), markDeliveryPending enc (rp_jitter r) flt (rp_clock r) (rp_now r) (workerName W) job body err s))"
    using markDeliveryPending_reach [OF r] by (simp add: is_call_def)
  show "is_call W (\<lambda>flt r s. (GetJob flt 0 j s, s))" by (simp add: is_call_def)
  show "is_call W (\<lambda>flt r. LeaseJob flt (rp_now r) (workerName W) leaseDuration)"
    unfolding is_call_def using w now by (intro allI step_call [of "CallLeaseJob _ _ _ _"]) simp_all
  show "is_call W (\<lambda>flt r. Heartbeat flt (rp_now r) j (workerName W) a leaseDuration)"
    unfolding is_call_def using w now by (intro allI step_call [of "CallHeartbeat _ _ _ _ _ _"]) simp_all
  show "is_call W (\<lambda>flt r. EnsureExecution flt (rp_entropy r) (rp_now r) j)"
    unfolding is_call_def using w now by (intro allI step_call [of "CallEnsureExecution _ _ _ _"]) simp_all
  show "is_call W (\<lambda>flt r. MarkExecutionTerminal flt (rp_now r) j i)"
    unfolding is_call_def using w now by (intro allI step_call [of "CallMarkExecutionTerminal _ _ _ _"]) simp_all
  show "is_call W (\<lambda>flt r. ClaimTerminal flt (rp_now r) j (workerName W) a)"
    unfolding is_call_def using w now by (intro allI step_call [of "CallClaimTerminal _ _ _ _ _"]) simp_all
  show "is_call W (\<lambda>flt r. FailJob flt (rp_now r) j (workerName W) a e rt d)"
    unfolding is_call_def using w now by (intro allI step_call [of "CallFailJob _ _ _ _ _ _ _ _"]) simp_all
  show "is_call W (\<lambda>flt r. CompleteJob flt (rp_now r) j (workerName W) a res)"
    unfolding is_call_def using w now by (intro allI step_call [of "CallCompleteJob _ _ _ _ _ _"]) simp_all
qed

section \<open>Invariants stable under a stage\<close>

text \<open>What a stage does besides reporting to NodeVault and ending the attempt.\<close>

fun stage_event :: "event \<Rightarrow> bool" where
  "stage_event (EvLease _) = False"
| "stage_event (EvEnsure _ _) = False"
| "stage_event (EvClaim _ _) = False"
| "stage_event (EvFail _ _ _) = False"
| "stage_event (EvComplete _ _ _) = False"
| "stage_event (EvLedger _) = False"
| "stage_event (EvPost _ _) = False"
| "stage_event _ = True"

lemma lose_moves: "moves A u w \<Longrightarrow> A EvLost \<Longrightarrow> wp lose (\<lambda>_. moves A u) w"
  by (auto simp: wp_lose moves_def)

lemma heartbeat_moves:
  "env_ok W \<Longrightarrow> A EvLost \<Longrightarrow> (\<And>x. A (EvHeartbeat x)) \<Longrightarrow> wp (heartbeat W job) (\<lambda>_. moves A w) w"
  unfolding heartbeat_def do_Heartbeat_def
  by (intro wp_rules store_moves [where A = A, THEN wp_mono] calls_reach lose_moves) auto

lemma release_moves:
  "env_ok W \<Longrightarrow> (\<And>i x. A (EvRelease i x)) \<Longrightarrow> wp (markExecutionTerminal W bg job) (\<lambda>_. moves A w) w"
  unfolding markExecutionTerminal_def do_MarkExecutionTerminal_def
  by (intro wp_rules store_moves [where A = A, THEN wp_mono] calls_reach) auto

lemma stillLeased_moves:
  "env_ok W \<Longrightarrow> A EvLost \<Longrightarrow> (\<And>x. A (EvHeartbeat x)) \<Longrightarrow>
     wp (stillLeased W job) (\<lambda>b w'. moves A w w' \<and> (b \<longrightarrow> \<not> lost w')) w"
  unfolding stillLeased_def
  by (intro wp_rules heartbeat_moves [where A = A, THEN wp_mono]) (auto simp: moves_refl)

locale stable_invariant =
  fixes W :: Worker and I :: "world \<Rightarrow> bool"
  assumes stable: "env_ok W \<Longrightarrow> I w \<Longrightarrow> moves stage_event w w' \<Longrightarrow> I w'"
begin

lemma by_moves: "env_ok W \<Longrightarrow> wp m (\<lambda>_. moves stage_event w) w \<Longrightarrow> I w \<Longrightarrow> wp m (\<lambda>_. I) w"
  by (erule wp_mono) (rule stable)

lemma keep_if:
  "(env_ok W \<Longrightarrow> wp m (\<lambda>_. moves stage_event w) w) \<Longrightarrow> env_ok W \<longrightarrow> I w \<Longrightarrow> wp m (\<lambda>_ w'. env_ok W \<longrightarrow> I w') w"
  by (cases "env_ok W") (auto simp: wp_run intro: stable)

lemma stillLeased_stable: "env_ok W \<Longrightarrow> I w \<Longrightarrow> wp (stillLeased W job) (\<lambda>_. I) w"
  by (rule by_moves [OF _ stillLeased_moves [where A = stage_event, THEN wp_mono]]) simp_all

lemma inc_stable: "env_ok W \<Longrightarrow> I w \<Longrightarrow> wp (inc W m) (\<lambda>_. I) w"
  by (intro by_moves inc_moves)

lemma dry_run_stable: "env_ok W \<Longrightarrow> I w \<Longrightarrow> wp (runDryRun W name) (\<lambda>_. I) w"
  unfolding runDryRun_def by (intro by_moves remote_moves) simp_all

lemma reports_stable: "env_ok W \<Longrightarrow> I w \<Longrightarrow> wp (list_reports W) (\<lambda>_. I) w"
  unfolding list_reports_def by (intro by_moves remote_moves) simp_all

end

lemma stage_calls_move:
  assumes "env_ok W"
  shows "wp (sample W) (\<lambda>_. moves stage_event w) w" "wp (inc W m) (\<lambda>_. moves stage_event w) w"
    "wp (heartbeat W job) (\<lambda>_. moves stage_event w) w" "wp (do_GetJob W job) (\<lambda>_. moves stage_event w) w"
    "wp (markExecutionTerminal W bg job) (\<lambda>_. moves stage_event w) w"
    "wp (create_job W name) (\<lambda>_. moves stage_event w) w" "wp (get_job W bg name) (\<lambda>_. moves stage_event w) w"
    "wp (deleteJob W name) (\<lambda>_. moves stage_event w) w" "wp (list_jobs W) (\<lambda>_. moves stage_event w) w"
    "wp (list_pods W name) (\<lambda>_. moves stage_event w) w"
  using assms unfolding remote_calls do_GetJob_def
  by (auto intro!: sample_moves inc_moves heartbeat_moves release_moves remote_moves store_moves calls_reach)

sublocale stable_invariant \<subseteq> stage_invariant W "\<lambda>_. True" "\<lambda>_. True" "\<lambda>w. env_ok W \<longrightarrow> I w"
  by unfold_locales ((rule keep_if, erule stage_calls_move, assumption) | simp)+

locale stable_run = stable_invariant +
  assumes submit_stable: "env_ok W \<Longrightarrow> I w \<Longrightarrow> wp (submitCheckRecord W job sub) (\<lambda>_. I) w"
    and scan_stable: "env_ok W \<Longrightarrow> I w \<Longrightarrow> sr_Terminal req \<Longrightarrow> sr_SentinelJobID req = JobID job \<Longrightarrow>
      wp (submitScanRecord W job req) (\<lambda>_. I) w"
    and ensure_stable: "env_ok W \<Longrightarrow> I w \<Longrightarrow> wp (do_EnsureExecution W job) (\<lambda>_. I) w"
    and fail_stable: "env_ok W \<Longrightarrow> I w \<Longrightarrow> wp (do_FailJob W job d) (\<lambda>_. I) w"
    and complete_stable: "env_ok W \<Longrightarrow> I w \<Longrightarrow> wp (do_CompleteJob W job summary) (\<lambda>_. I) w"
    and lease_stable: "env_ok W \<Longrightarrow> I w \<Longrightarrow> wp (do_LeaseJob W) (\<lambda>_. I) w"
    and end_stable: "env_ok W \<Longrightarrow> I w \<Longrightarrow> wp end_attempt (\<lambda>_. I) w"
begin

lemma lift: "(env_ok W \<Longrightarrow> I w \<Longrightarrow> wp m (\<lambda>_. I) w) \<Longrightarrow> env_ok W \<longrightarrow> I w \<Longrightarrow> wp m (\<lambda>_ w'. env_ok W \<longrightarrow> I w') w"
  by (cases "env_ok W") (auto simp: wp_run)

end

sublocale stable_run \<subseteq> run_invariant W "\<lambda>_. True" "\<lambda>_. True" "\<lambda>w. env_ok W \<longrightarrow> I w"
  by unfold_locales
    (auto intro!: lift intro: inc_stable submit_stable scan_stable ensure_stable dry_run_stable reports_stable fail_stable
       complete_stable lease_stable end_stable)

section \<open>The store under a worker\<close>

lemma submit_moves:
  assumes env: "env_ok W" and A: "A EvLost" "\<And>x. A (EvHeartbeat x)" "\<And>x. A (EvClaim (JobID job) x)"
    "\<And>b x. A (EvPost b x)" "\<And>b. A (EvLedger b)"
  shows "wp (submitCheckRecord W job sub) (\<lambda>_. moves A w) w" "wp (submitScanRecord W job req) (\<lambda>_. moves A w) w"
proof -
  have claim: "wp (claimTerminal W job) (\<lambda>_. moves A u) u" for u
    unfolding claimTerminal_def do_ClaimTerminal_def
    by (intro wp_rules store_moves [where A = A, THEN wp_mono] calls_reach env) (use A in auto)
  have post: "wp (post_record W b) (\<lambda>_. moves A u) u" for u b
    unfolding post_record_def by (intro remote_moves env) (use A in auto)
  have pend: "wp (do_markDeliveryPending W job b e) (\<lambda>_. moves A u) u" for u b e
    unfolding do_markDeliveryPending_def by (intro store_moves calls_reach env) (use A in auto)
  note rules = stillLeased_moves [where A = A, OF env A(1,2), THEN wp_mono] claim [THEN wp_mono]
    post [THEN wp_mono] pend [THEN wp_mono]
  show "wp (submitCheckRecord W job sub) (\<lambda>_. moves A w) w"
    unfolding submitCheckRecord_def by (intro wp_rules rules) (blast intro: moves_trans)+
  show "wp (submitScanRecord W job req) (\<lambda>_. moves A w) w"
    unfolding submitScanRecord_def by (intro wp_rules rules) (blast intro: moves_trans)+
qed

lemma ending_moves:
  assumes "env_ok W"
  shows "(\<And>x. A (EvEnsure (JobID job) x)) \<Longrightarrow> wp (do_EnsureExecution W job) (\<lambda>_. moves A w) w"
    and "(\<And>x. A (EvFail (JobID job) (Retry d) x)) \<Longrightarrow> wp (do_FailJob W job d) (\<lambda>_. moves A w) w"
    and "(\<And>x. A (EvComplete (JobID job) summary x)) \<Longrightarrow> wp (do_CompleteJob W job summary) (\<lambda>_. moves A w) w"
    and "(\<And>x. A (EvLease x)) \<Longrightarrow> wp (do_LeaseJob W) (\<lambda>_. moves A w) w"
  unfolding store_calls by (intro store_moves calls_reach assms; simp)+

lemma end_attempt_moves: "wp end_attempt (\<lambda>_. moves A w) w"
  by (simp add: wp_end_attempt moves_def)

lemma reach_by_moves:
  "wp m (\<lambda>_. moves (\<lambda>_. True) w) w \<Longrightarrow> store_step\<^sup>*\<^sup>* s (w_store w) \<Longrightarrow> wp m (\<lambda>_ w'. store_step\<^sup>*\<^sup>* s (w_store w')) w"
  by (erule wp_mono) (auto simp: moves_def)

interpretation reach: stable_run W "\<lambda>w. store_step\<^sup>*\<^sup>* s (w_store w)" for W s
proof unfold_locales
  show "store_step\<^sup>*\<^sup>* s (w_store w')" if "store_step\<^sup>*\<^sup>* s (w_store w)" "moves stage_event w w'" for w w'
    using that by (auto simp: moves_def)
qed (rule reach_by_moves, auto intro: submit_moves ending_moves end_attempt_moves)+

section \<open>One terminal record\<close>

definition terminal_body :: "submission \<Rightarrow> bool" where
  "terminal_body b = (case b of CheckBody r \<Rightarrow> cr_Terminal r | ScanBody r \<Rightarrow> sr_Terminal r)"

definition body_job :: "submission \<Rightarrow> string" where
  "body_job b = (case b of CheckBody r \<Rightarrow> cr_SentinelJobID r | ScanBody r \<Rightarrow> sr_SentinelJobID r)"

fun terminal_posts :: "string \<Rightarrow> event list \<Rightarrow> nat" where
  "terminal_posts j [] = 0"
| "terminal_posts j (e # es) =
     (case e of EvPost b _ \<Rightarrow> if terminal_body b \<and> body_job b = j then 1 else 0 | _ \<Rightarrow> 0) + terminal_posts j es"

fun slot_grants :: "string \<Rightarrow> event list \<Rightarrow> nat" where
  "slot_grants j [] = 0"
| "slot_grants j (e # es) = (case e of EvClaim j' (Inr True) \<Rightarrow> if j' = j then 1 else 0 | _ \<Rightarrow> 0) + slot_grants j es"

fun claim_errors :: "string \<Rightarrow> event list \<Rightarrow> nat" where
  "claim_errors j [] = 0"
| "claim_errors j (e # es) = (case e of EvClaim j' (Inl _) \<Rightarrow> if j' = j then 1 else 0 | _ \<Rightarrow> 0) + claim_errors j es"

text \<open>
  \<open>slot j k w\<close>: the claims of \<open>j\<close>'s terminal slot that succeeded or failed with an error
  cover the terminal records posted and \<open>k\<close> more; at most one succeeded, and then the
  stored row says so.
\<close>

definition slot :: "string \<Rightarrow> nat \<Rightarrow> world \<Rightarrow> bool" where
  "slot j k w \<longleftrightarrow> store_ok (w_store w) \<and>
     terminal_posts j (w_trace w) + k \<le> slot_grants j (w_trace w) + claim_errors j (w_trace w) \<and>
     slot_grants j (w_trace w) \<le> 1 \<and>
     (slot_grants j (w_trace w) = 1 \<longrightarrow> (\<exists>r. find_row j (w_store w) = Some r \<and> r_terminal_submitted r))"

fun neutral :: "event \<Rightarrow> bool" where
  "neutral (EvClaim _ _) = False"
| "neutral (EvPost _ _) = False"
| "neutral _ = True"

lemma stage_neutral: "stage_event e \<Longrightarrow> neutral e"
  by (cases e) simp_all

lemma moves_mono: "moves A w w' \<Longrightarrow> (\<And>e. A e \<Longrightarrow> B e) \<Longrightarrow> moves B w w'"
  unfolding moves_def by (metis list.pred_mono_strong)

lemma neutral_counts:
  assumes "list_all neutral es"
  shows "terminal_posts j (es @ tr) = terminal_posts j tr" "slot_grants j (es @ tr) = slot_grants j tr"
    "claim_errors j (es @ tr) = claim_errors j tr"
  using assms by (induction es) (auto split: event.splits)

lemma submitted_stays:
  "store_step\<^sup>*\<^sup>* s t \<Longrightarrow> store_ok s \<Longrightarrow> find_row j s = Some r \<Longrightarrow> r_terminal_submitted r \<Longrightarrow>
     \<exists>r'. find_row j t = Some r' \<and> r_terminal_submitted r'"
  using row_history [of s t j r] by (auto simp: row_evolves_def terminal_kept_def)

lemma slot_moves: "slot j k w \<Longrightarrow> moves neutral w w' \<Longrightarrow> slot j k w'"
  unfolding slot_def moves_def
  by (auto simp: neutral_counts intro: store_inv.inv_reach submitted_stays)

lemma slot_weaken: "slot j 1 w \<Longrightarrow> slot j 0 w"
  by (auto simp: slot_def)

lemma claim_slot:
  assumes env: "env_ok W" and sl: "slot j 0 w"
  shows "wp (claimTerminal W job)
    (\<lambda>b w'. slot j 0 w' \<and> (b \<longrightarrow> JobID job = j \<longrightarrow> w_ctx w' = Live \<longrightarrow> slot j 1 w')) w"
  unfolding claimTerminal_def do_ClaimTerminal_def
proof (intro wp_rules wp_store_op)
  let ?r = "next_reply W w" and ?w = "arrive (next_reply W w) w"
  have sl1: "slot j 0 ?w" using slot_moves [OF sl] arrive_reach [OF env] by (simp add: moves_def)
  then show "slot j 0 ?w \<and> ((case fst (ClaimTerminal canceled (rp_now ?r) (JobID job) (workerName W) (Attempt job) (w_store ?w)) of
      Inl _ \<Rightarrow> True | Inr claimed \<Rightarrow> claimed) \<longrightarrow> JobID job = j \<longrightarrow> w_ctx ?w = Live \<longrightarrow> slot j 1 ?w)"
    if "w_ctx ?w \<noteq> Live" using that by simp
  fix x s
  assume call: "ClaimTerminal (rp_faults ?r) (rp_now ?r) (JobID job) (workerName W) (Attempt job) (w_store ?w) = (x, s)"
  let ?w' = "?w\<lparr>w_store := s, w_trace := EvClaim (JobID job) x # w_trace w\<rparr>"
  have reach: "store_step\<^sup>*\<^sup>* (w_store ?w) s"
    using calls_reach(6) [OF env, of "JobID job" "Attempt job"] call unfolding is_call_def by (metis snd_conv)
  have ok: "store_ok (w_store ?w)" "store_ok s"
    using sl1 reach store_inv.inv_reach by (auto simp: slot_def)
  have kept: "\<exists>r. find_row j s = Some r \<and> r_terminal_submitted r" if "slot_grants j (w_trace w) = 1"
    using sl1 that submitted_stays [OF reach ok(1)] by (auto simp: slot_def)
  show "slot j 0 ?w' \<and> ((case x of Inl _ \<Rightarrow> True | Inr claimed \<Rightarrow> claimed) \<longrightarrow> JobID job = j \<longrightarrow> w_ctx ?w' = Live \<longrightarrow> slot j 1 ?w')"
  proof (cases "x = Inr True \<and> JobID job = j")
    case True
    then obtain r where r: "find_row j (w_store ?w) = Some r" "\<not> r_terminal_submitted r" and
      r': "find_row j s = Some (terminal_set (workerName W) (Attempt job) (rp_now ?r) r)"
      using ClaimTerminal_won [OF ok(1), of "rp_faults ?r" "rp_now ?r" j] call by (metis fst_conv snd_conv)
    have "slot_grants j (w_trace w) = 0" using sl1 r by (auto simp: slot_def)
    then have "slot j 1 ?w'" using sl1 True r' ok by (simp add: slot_def terminal_set_def)
    then show ?thesis using slot_weaken by blast
  next
    case False
    then show ?thesis using sl1 ok kept by (auto simp: slot_def split: sum.splits bool.splits)
  qed
qed

lemma post_slot:
  assumes env: "env_ok W" and sl: "slot j 0 w"
    and slack: "terminal_body b \<Longrightarrow> body_job b = j \<Longrightarrow> w_ctx w = Live \<Longrightarrow> slot j 1 w"
  shows "wp (post_record W b) (\<lambda>_. slot j 0) w"
  unfolding post_record_def
proof (rule wp_remote_op)
  let ?r = "next_reply W w" and ?w = "arrive (next_reply W w) w"
  have m: "moves neutral w ?w" using arrive_reach [OF env] by (simp add: moves_def)
  then show "slot j 0 ?w" using slot_moves [OF sl] by blast
  assume "False \<or> w_ctx ?w = Live"
  then have "slot j (if terminal_body b \<and> body_job b = j then 1 else 0) ?w"
    using slack sl slot_moves m arrive_live by auto
  then show "slot j 0 (?w\<lparr>w_trace := EvPost b (rp_vault ?r) # w_trace w\<rparr>)" by (auto simp: slot_def split: if_splits)
qed

lemma neutral_slot: "wp m (\<lambda>_. moves neutral w) w \<Longrightarrow> slot j k w \<Longrightarrow> wp m (\<lambda>_. slot j k) w"
  by (erule wp_mono) (rule slot_moves)

lemma stillLeased_slot: "env_ok W \<Longrightarrow> slot j k w \<Longrightarrow> wp (stillLeased W job) (\<lambda>_. slot j k) w"
  by (rule neutral_slot [OF stillLeased_moves [where A = neutral, THEN wp_mono]]) auto

lemma ledger_slot: "env_ok W \<Longrightarrow> slot j k w \<Longrightarrow> wp (do_markDeliveryPending W job b e) (\<lambda>_. slot j k) w"
  unfolding do_markDeliveryPending_def by (rule neutral_slot [OF store_moves]) (auto intro: calls_reach)

lemma ending_slot:
  assumes "env_ok W" and "slot j k w"
  shows "wp (do_EnsureExecution W job) (\<lambda>_. slot j k) w" "wp (do_FailJob W job d) (\<lambda>_. slot j k) w"
    "wp (do_CompleteJob W job summary) (\<lambda>_. slot j k) w" "wp (do_LeaseJob W) (\<lambda>_. slot j k) w"
    "wp end_attempt (\<lambda>_. slot j k) w"
  using assms by (auto intro!: neutral_slot ending_moves end_attempt_moves)

lemmas slot_rules =
  stillLeased_slot [THEN wp_mono] claim_slot [THEN wp_mono] post_slot [THEN wp_mono] ledger_slot [THEN wp_mono]

lemma submit_slot: "env_ok W \<Longrightarrow> slot j 0 w \<Longrightarrow> wp (submitCheckRecord W job sub) (\<lambda>_. slot j 0) w"
  unfolding submitCheckRecord_def
  by (intro wp_rules slot_rules) (auto simp: terminal_body_def body_job_def check_request_def)

lemma scan_slot:
  "env_ok W \<Longrightarrow> slot j 0 w \<Longrightarrow> sr_Terminal req \<Longrightarrow> sr_SentinelJobID req = JobID job \<Longrightarrow>
     wp (submitScanRecord W job req) (\<lambda>_. slot j 0) w"
  unfolding submitScanRecord_def by (intro wp_rules slot_rules) (auto simp: body_job_def)

interpretation one_record: stable_run W "slot j 0" for W j
proof unfold_locales
  show "slot j 0 w'" if "slot j 0 w" "moves stage_event w w'" for w w'
    using that moves_mono [of stage_event w w' neutral] by (blast intro: slot_moves stage_neutral)
qed (auto intro: submit_slot scan_slot ending_slot)

text \<open>
  A worker drives the store only through its interface. Over any number of rounds of
  the leasing loop, whatever the other workers, the database, Kubernetes and NodeVault do,
  the store moves by valid calls only, so its invariant and every promise of the store
  hold throughout.
\<close>

theorem worker_keeps_store:
  assumes "env_ok W" and "store_ok (w_store w)"
  shows "store_step\<^sup>*\<^sup>* (w_store w) (w_store (snd (run_state (Run W n) w))) \<and>
    store_ok (w_store (snd (run_state (Run W n) w)))"
proof -
  have "store_step\<^sup>*\<^sup>* (w_store w) (w_store (snd (run_state (Run W n) w)))"
    using reach.Run_keeps [of W "w_store w" w n] assms(1) by (simp add: wp_run)
  then show ?thesis using assms(2) store_inv.inv_reach by blast
qed

theorem worker_keeps_store_witness:
  "store_ok (w_store (snd (run_state (Run (demo_worker []) 2) (demo_world demo_row))))"
  using worker_keeps_store [OF demo_env_ok, of "demo_world demo_row" 2] demo_store_ok [OF demo_row_ok] by simp

text \<open>
  C7: at most one terminal record of a job is posted, over any number of rounds and under
  any interference of other workers, except that every database error on claiming the
  terminal slot may allow one more (the code then posts without the guard).
\<close>

theorem one_terminal_record:
  assumes "env_ok W" and "store_ok (w_store w)" and "w_trace w = []"
  shows "terminal_posts j (w_trace (snd (run_state (Run W n) w)))
    \<le> 1 + claim_errors j (w_trace (snd (run_state (Run W n) w)))"
proof -
  have "slot j 0 w" using assms(2,3) by (simp add: slot_def)
  then have "slot j 0 (snd (run_state (Run W n) w))"
    using one_record.Run_keeps [of W j w n] assms(1) by (simp add: wp_run)
  then show ?thesis by (simp add: slot_def)
qed

definition demo_run :: "event list" where
  "demo_run = w_trace (snd (run_state (Run (demo_worker []) 1) (demo_world demo_row)))"

definition demo_counts :: "event list \<Rightarrow> nat \<times> nat" where
  "demo_counts tr = (claim_errors ''job-1'' tr, terminal_posts ''job-1'' tr)"

lemma demo_run_counts: "demo_counts demo_run = (0, 1)"
  by code_simp

theorem one_terminal_record_witness:
  "terminal_posts ''job-1'' demo_run \<le> 1 \<and> terminal_posts ''job-1'' demo_run = 1"
  using one_terminal_record [OF demo_env_ok, of "demo_world demo_row" "''job-1''" 1] demo_store_ok [OF demo_row_ok]
    demo_run_counts by (simp add: demo_run_def demo_counts_def)

section \<open>A lost lease ends the attempt\<close>

definition loss_is_last :: "world \<Rightarrow> bool" where
  "loss_is_last w \<longleftrightarrow> (EvLost \<in> set (w_trace w) \<longleftrightarrow> lost w) \<and> EvLost \<notin> set (tl (w_trace w))"

lemma loss_store:
  "loss_is_last w \<Longrightarrow> (bg \<Longrightarrow> \<not> lost w) \<Longrightarrow> (\<And>x. EvLost \<noteq> ev x) \<Longrightarrow> wp (store_op W bg f ev) (\<lambda>_. loss_is_last) w"
  by (intro wp_store_op) (auto simp: loss_is_last_def arrive_ctx split: if_splits)

lemma loss_remote:
  "loss_is_last w \<Longrightarrow> (bg \<Longrightarrow> \<not> lost w) \<Longrightarrow> (\<And>x. EvLost \<noteq> ev x) \<Longrightarrow> wp (remote_op W bg f dead ev) (\<lambda>_. loss_is_last) w"
  by (intro wp_remote_op) (auto simp: loss_is_last_def arrive_ctx split: if_splits)

lemma loss_heartbeat: "loss_is_last w \<Longrightarrow> wp (heartbeat W job) (\<lambda>_. loss_is_last) w"
  unfolding heartbeat_def do_Heartbeat_def
  by (intro wp_rules loss_store [THEN wp_mono]) (auto simp: wp_lose loss_is_last_def)

lemma loss_stillLeased: "loss_is_last w \<Longrightarrow> wp (stillLeased W job) (\<lambda>_. loss_is_last) w"
  unfolding stillLeased_def by (intro wp_rules loss_heartbeat [THEN wp_mono]) auto

lemma loss_submit:
  assumes "loss_is_last w"
  shows "wp (submitCheckRecord W job sub) (\<lambda>_. loss_is_last) w" "wp (submitScanRecord W job req) (\<lambda>_. loss_is_last) w"
  using assms unfolding submitCheckRecord_def submitScanRecord_def claimTerminal_def store_calls remote_calls
  by (intro wp_rules loss_stillLeased [THEN wp_mono] loss_store [THEN wp_mono] loss_remote [THEN wp_mono]; simp)+

lemma loss_inc: "loss_is_last w \<Longrightarrow> wp (inc W m) (\<lambda>_. loss_is_last) w"
  by (simp add: wp_inc loss_is_last_def)

interpretation lost_lease: attempt_invariant W "\<lambda>_. True" "\<lambda>_. True" loss_is_last for W
proof unfold_locales
  show "wp (sample W) (\<lambda>_. loss_is_last) w" if "loss_is_last w" for w
    using that by (simp add: wp_sample loss_is_last_def)
  show "wp (markExecutionTerminal W bg job) (\<lambda>_. loss_is_last) w" if "loss_is_last w" "bg \<Longrightarrow> \<not> lost w" for w bg job
    using that unfolding markExecutionTerminal_def do_MarkExecutionTerminal_def
    by (intro wp_rules loss_store [THEN wp_mono]) auto
qed (auto simp: store_calls remote_calls intro: loss_inc loss_heartbeat loss_submit intro!: loss_store loss_remote)

text \<open>
  C8: once a heartbeat has confirmed that the lease is lost, the attempt does nothing more:
  no record reaches NodeVault, no Job is created or deleted, no identity is released, and
  the job is neither completed nor failed by it. The confirmation is the last event of the
  attempt.
\<close>

theorem lost_lease_ends_attempt:
  assumes "w_trace w = []" and "w_ctx w \<noteq> LeaseLost"
    and tr: "w_trace (snd (run_state (process W job) w)) = as @ EvLost # bs"
  shows "as = []"
proof -
  have "loss_is_last w" using assms(1,2) by (simp add: loss_is_last_def)
  then have "loss_is_last (snd (run_state (process W job) w))"
    using lost_lease.process_keeps [where job = job and w = w and W = W] by (simp add: wp_run)
  with tr show "as = []" by (cases as) (auto simp: loss_is_last_def)
qed

definition demo_refused :: "event list" where
  "demo_refused = demo_trace [] (demo_attempt\<lparr>RequestedActions := [''x'']\<rparr>) demo_row"

lemma demo_refused_lost: "demo_refused = [EvLost, EvHeartbeat (Inl ErrNotFound)]"
  by code_simp

theorem lost_lease_ends_attempt_witness:
  "EvLost \<in> set demo_refused \<and> (\<nexists>as bs. as \<noteq> [] \<and> demo_refused = as @ EvLost # bs)"
  using lost_lease_ends_attempt [of "demo_world demo_row" "demo_worker []" "demo_attempt\<lparr>RequestedActions := [''x'']\<rparr>"]
    demo_refused_lost by (auto simp: demo_refused_def demo_trace_def)

section \<open>A requeued job is not reported as finished\<close>

text \<open>No \<open>FailJob\<close> yet, and no terminal record unless \<open>t\<close>.\<close>

fun before_fail :: "bool \<Rightarrow> event \<Rightarrow> bool" where
  "before_fail t (EvPost b _) = (terminal_body b \<longrightarrow> t)"
| "before_fail t (EvFail _ _ _) = False"
| "before_fail t _ = True"

definition unfailed :: "bool \<Rightarrow> world \<Rightarrow> bool" where
  "unfailed t w \<longleftrightarrow> list_all (before_fail t) (w_trace w)"

definition consistent :: "world \<Rightarrow> bool" where
  "consistent w \<longleftrightarrow> \<not> ((\<exists>b x. EvPost b x \<in> set (w_trace w) \<and> terminal_body b) \<and> (\<exists>j x. EvFail j True x \<in> set (w_trace w)))"

lemma store_unfailed: "(\<And>x. before_fail t (ev x)) \<Longrightarrow> unfailed t w \<Longrightarrow> wp (store_op W bg f ev) (\<lambda>_. unfailed t) w"
  by (intro wp_store_op) (auto simp: unfailed_def)

lemma remote_unfailed: "(\<And>x. before_fail t (ev x)) \<Longrightarrow> unfailed t w \<Longrightarrow> wp (remote_op W bg f dead ev) (\<lambda>_. unfailed t) w"
  by (intro wp_remote_op) (auto simp: unfailed_def)

lemmas unfailed_ops = store_unfailed [THEN wp_mono] remote_unfailed [THEN wp_mono]

lemma heartbeat_unfailed: "unfailed t w \<Longrightarrow> wp (heartbeat W job) (\<lambda>_. unfailed t) w"
  unfolding heartbeat_def do_Heartbeat_def
  by (intro wp_rules unfailed_ops) (auto simp: wp_lose unfailed_def)

lemma stillLeased_unfailed: "unfailed t w \<Longrightarrow> wp (stillLeased W job) (\<lambda>_. unfailed t) w"
  unfolding stillLeased_def by (intro wp_rules heartbeat_unfailed [THEN wp_mono]) auto

lemma submit_unfailed: "unfailed t w \<Longrightarrow> cs_terminal sub \<longrightarrow> t \<Longrightarrow> wp (submitCheckRecord W job sub) (\<lambda>_. unfailed t) w"
  unfolding submitCheckRecord_def claimTerminal_def do_ClaimTerminal_def do_markDeliveryPending_def post_record_def
  by (intro wp_rules stillLeased_unfailed [THEN wp_mono] unfailed_ops; simp add: terminal_body_def check_request_def)

lemma scan_unfailed: "unfailed True w \<Longrightarrow> wp (submitScanRecord W job req) (\<lambda>_. unfailed True) w"
  unfolding submitScanRecord_def claimTerminal_def do_ClaimTerminal_def do_markDeliveryPending_def post_record_def
  by (intro wp_rules stillLeased_unfailed [THEN wp_mono] unfailed_ops; simp)

lemma inc_unfailed: "unfailed t w \<Longrightarrow> wp (inc W m) (\<lambda>_. unfailed t) w"
  by (simp add: wp_inc unfailed_def)

lemma unfailed_stage: "stage_invariant W (\<lambda>_. True) (\<lambda>_. True) (unfailed t)"
proof unfold_locales
  show "wp (sample W) (\<lambda>_. unfailed t) w" if "unfailed t w" for w using that by (simp add: wp_sample unfailed_def)
  show "wp (markExecutionTerminal W bg job) (\<lambda>_. unfailed t) w" if "unfailed t w" for w bg job
    using that unfolding markExecutionTerminal_def do_MarkExecutionTerminal_def by (intro wp_rules unfailed_ops) auto
qed (auto simp: do_GetJob_def remote_calls intro: inc_unfailed heartbeat_unfailed store_unfailed remote_unfailed)

interpretation before_fail: stage_invariant W "\<lambda>_. True" "\<lambda>_. True" "unfailed t" for W t
  by (rule unfailed_stage)

interpretation never_fails: report_invariant W "\<lambda>_. True" "\<lambda>_. True" "unfailed True" for W
  by unfold_locales (auto simp: store_calls remote_calls intro: inc_unfailed submit_unfailed scan_unfailed store_unfailed remote_unfailed)

lemma unfailed_consistent: "unfailed t w \<Longrightarrow> consistent w"
  unfolding unfailed_def consistent_def by (auto simp: list_all_iff)

lemma unfailed_mono: "unfailed False w \<Longrightarrow> unfailed True w"
  unfolding unfailed_def by (erule list.pred_mono_strong) (auto elim!: before_fail.elims)

lemma fail_consistent: "unfailed (\<not> Retry d) w \<Longrightarrow> wp (do_FailJob W job d) (\<lambda>_. consistent) w"
  unfolding do_FailJob_def
proof (rule wp_store_op)
  assume u: "unfailed (\<not> Retry d) w"
  show "consistent (arrive (next_reply W w) w)" using unfailed_consistent [OF u] by (simp add: consistent_def)
  fix x s
  show "consistent (arrive (next_reply W w) w\<lparr>w_store := s, w_trace := EvFail (JobID job) (Retry d) x # w_trace w\<rparr>)"
    using u by (auto simp: unfailed_def consistent_def list_all_iff)
qed

lemma inc_consistent: "consistent w \<Longrightarrow> wp (inc W m) (\<lambda>_. consistent) w"
  by (simp add: wp_inc consistent_def)

lemma report_unfailed:
  "unfailed False w \<Longrightarrow> wp (reportTerminalFailure W job stage command d) (\<lambda>_. unfailed (\<not> Retry d)) w"
proof -
  assume "unfailed False w"
  then have "unfailed (\<not> Retry d) w" by (cases "Retry d") (auto intro: unfailed_mono)
  then show ?thesis unfolding reportTerminalFailure_def
    by (intro wp_rules submit_unfailed [where t = "\<not> Retry d", THEN wp_mono]) auto
qed

lemmas unfailed_rules = before_fail.keep_sample [where t = False, THEN wp_mono]
  inc_unfailed [where t = False, THEN wp_mono]

lemma fail_attempt_consistent: "unfailed False w \<Longrightarrow> wp (fail_attempt W job stage command cls why) (\<lambda>_. consistent) w"
  unfolding fail_attempt_def
  by (intro wp_rules unfailed_rules report_unfailed [THEN wp_mono] fail_consistent [THEN wp_mono] inc_consistent) auto

lemma finish_consistent: "unfailed True w \<Longrightarrow> wp (finishAfterL4 W job plan isL5ALast) (\<lambda>_. consistent) w"
  by (rule never_fails.finish_keeps [THEN wp_mono]) (auto intro: unfailed_consistent)

lemma run_L4_consistent: "unfailed False w \<Longrightarrow> wp (run_L4 W job plan adopted) (\<lambda>_. consistent) w"
  unfolding run_L4_def
  by (intro wp_rules before_fail.runSmokeRun_keeps [where t = False, THEN wp_mono] fail_attempt_consistent
      never_fails.success_report_keeps [THEN wp_mono] finish_consistent)
    (auto intro: unfailed_mono unfailed_consistent)

lemma run_L3_consistent: "unfailed False w \<Longrightarrow> wp (run_L3 W job plan adopted) (\<lambda>_. consistent) w"
  unfolding run_L3_def runDryRun_def
  by (intro wp_rules remote_unfailed [where t = False, THEN wp_mono]
      before_fail.keep_release [where t = False, THEN wp_mono] fail_attempt_consistent run_L4_consistent) auto

lemma run_execution_consistent: "unfailed False w \<Longrightarrow> wp (run_execution W job plan adopted) (\<lambda>_. consistent) w"
  unfolding run_execution_def
  by (intro wp_rules before_fail.exists_keeps [where t = False, THEN wp_mono] fail_attempt_consistent
      finish_consistent run_L3_consistent) (auto intro: unfailed_mono)

text \<open>
  C17: an attempt that hands its job back for a retry has not told NodeVault that the
  validation is over: no attempt both posts a terminal record and requeues the job,
  whatever fails on the way.
\<close>

theorem requeue_posts_no_terminal:
  assumes "w_trace w = []"
  shows "\<not> ((\<exists>b x. EvPost b x \<in> set (w_trace (snd (run_state (process W job) w))) \<and> terminal_body b) \<and>
    (\<exists>j x. EvFail j True x \<in> set (w_trace (snd (run_state (process W job) w)))))"
proof -
  have "unfailed False w" using assms by (simp add: unfailed_def)
  then have "wp (process W job) (\<lambda>_. consistent) w"
    unfolding process_def run_plan_def do_EnsureExecution_def
    by (intro wp_rules before_fail.retire_keeps [where t = False, THEN wp_mono]
        store_unfailed [where t = False, THEN wp_mono] fail_attempt_consistent run_execution_consistent)
      (auto intro: unfailed_consistent)
  then show ?thesis by (simp add: wp_run consistent_def)
qed

definition demo_requeued :: "event list" where
  "demo_requeued = demo_trace [demo_reply\<lparr>rp_list := Inl ctx_error\<rparr>] demo_attempt demo_leased"

lemma demo_requeued_fails: "take 1 demo_requeued = [EvFail ''job-1'' True (Inr ())]"
  by code_simp

theorem requeue_posts_no_terminal_witness:
  "\<nexists>b x. EvPost b x \<in> set demo_requeued \<and> terminal_body b"
proof -
  have "EvFail ''job-1'' True (Inr ()) \<in> set demo_requeued"
    using demo_requeued_fails in_set_takeD [of "EvFail ''job-1'' True (Inr ())" 1 demo_requeued] by simp
  then show ?thesis
    using requeue_posts_no_terminal [of "demo_world demo_leased" "demo_worker [demo_reply\<lparr>rp_list := Inl ctx_error\<rparr>]" demo_attempt]
    by (auto simp: demo_requeued_def demo_trace_def)
qed

end
