(* ===== verification/Worker_Liveness.thy ===== *)
theory Worker_Liveness
  imports Worker_Safety Store_Tenure
begin

text \<open>
  An attempt that is left to run settles its job: whatever Kubernetes and NodeVault answer,
  it ends with the job finished, requeued or taken over, never with the job still leased to
  it.
\<close>

section \<open>Undisturbed attempts\<close>

text \<open>
  No database fault, no shutdown, and nobody else closes the generation this worker holds;
  others may do anything else, lease the job away included.
\<close>

definition undisturbed :: "Worker \<Rightarrow> string \<Rightarrow> int \<Rightarrow> bool" where
  "undisturbed W j a \<longleftrightarrow> env_ok W \<and>
     (\<forall>n. rp_faults (replies W n) = no_faults \<and> \<not> rp_shutdown (replies W n) \<and>
          list_all (\<lambda>c. \<not> closes j (workerName W) a c) (rp_others (replies W n)))"

lemma undisturbed_reply:
  assumes "undisturbed W j a"
  shows "env_ok W" "rp_faults (next_reply W w) = no_faults" "\<not> rp_shutdown (next_reply W w)"
    "list_all (\<lambda>c. \<not> closes j (workerName W) a c) (rp_others (next_reply W w))"
  using assms by (simp_all add: undisturbed_def)

text \<open>The attempt holds its lease or has been overtaken, and knows a lease lost only when it is.\<close>

definition holding :: "Worker \<Rightarrow> string \<Rightarrow> int \<Rightarrow> world \<Rightarrow> bool" where
  "holding W j a w \<longleftrightarrow> store_ok (w_store w) \<and> row_sat j (in_tenure j (workerName W) a) (w_store w) \<and>
     w_ctx w \<noteq> Canceled \<and> (lost w \<longrightarrow> row_sat j (overtaken a) (w_store w))"

abbreviation of_attempt :: "string \<Rightarrow> int \<Rightarrow> Job \<Rightarrow> bool" where
  "of_attempt j a job \<equiv> JobID job = j \<and> Attempt job = a"

lemma arrive_holding:
  assumes u: "undisturbed W j a" and h: "holding W j a w"
  shows "holding W j a (arrive (next_reply W w) w)" and "w_ctx (arrive (next_reply W w) w) = w_ctx w"
proof -
  note r = undisturbed_reply(1) [OF u] undisturbed_reply(2-4) [OF u, of w]
  have reach: "store_step\<^sup>*\<^sup>* (w_store w) (run_calls (rp_others (next_reply W w)) (w_store w))"
    using arrive_reach [OF r(1), of w] by simp
  show ctx: "w_ctx (arrive (next_reply W w) w) = w_ctx w" using r(3) by (simp add: arrive_ctx)
  then show "holding W j a (arrive (next_reply W w) w)"
    using h run_calls_tenure [OF _ r(4)] store_inv.inv_reach [OF reach] overtaken_stays [OF reach]
    by (auto simp: holding_def)
qed

text \<open>A call of the store that keeps the tenure.\<close>

lemma store_holding:
  assumes u: "undisturbed W j a" and h: "holding W j a w" and f: "is_call W f"
    and keep: "\<And>s. row_sat j (in_tenure j (workerName W) a) s \<Longrightarrow>
      row_sat j (in_tenure j (workerName W) a) (snd (f no_faults (next_reply W w) s))"
  shows "wp (store_op W bg f ev) (\<lambda>_. holding W j a) w"
proof (rule wp_store_op)
  let ?r = "next_reply W w"
  let ?w = "arrive ?r w"
  note h' = arrive_holding(1) [OF u h]
  fix x s
  assume "f (rp_faults ?r) ?r (w_store ?w) = (x, s)"
  then have s: "s = snd (f no_faults ?r (w_store ?w))" using undisturbed_reply(2) [OF u, of w] by simp
  have "store_step\<^sup>*\<^sup>* (w_store ?w) s" using f unfolding s is_call_def by blast
  then show "holding W j a (?w\<lparr>w_store := s, w_trace := ev x # w_trace w\<rparr>)"
    using h' keep [of "w_store ?w"] store_inv.inv_reach overtaken_stays [of "w_store ?w" s j a]
    by (auto simp: holding_def s)
qed (rule arrive_holding(1) [OF u h])

lemma remote_holding:
  assumes "undisturbed W j a" and "holding W j a w"
  shows "wp (remote_op W bg f dead ev) (\<lambda>_. holding W j a) w"
  using arrive_holding(1) [OF assms] by (intro wp_remote_op) (simp_all add: holding_def)

section \<open>The calls of a stage\<close>

lemma heartbeat_fenced:
  assumes ok: "store_ok s" and t: "row_sat j (in_tenure j w a) s"
    and call: "Heartbeat no_faults now j w a ttl s = (Inl ErrNotFound, s')"
  shows "row_sat j (overtaken a) s'"
proof -
  obtain r where r: "find_row j s = Some r" "in_tenure j w a r" using t by (auto simp: row_sat_def)
  have "\<not> owns_active_lease j w a r"
    using heartbeat_u.match [OF store_ok_distinct [OF ok] r(1), of w a now ttl] call
    by (auto simp: Heartbeat_def ExecContext_def no_faults_def ensureAffected_def RowsAffected_def)
  then have "overtaken a r" "s' = s"
    using r heartbeat_u.no_match [OF store_ok_distinct [OF ok], of j w a now ttl] call
    by (auto simp: in_tenure_def Heartbeat_def ExecContext_def no_faults_def)
  then show ?thesis using r(1) by (auto simp: row_sat_def)
qed

lemma own_calls_tenure:
  assumes "row_sat j (in_tenure j w a) s"
  shows "row_sat j (in_tenure j w a) (snd (Heartbeat flt now k v b ttl s))"
    and "row_sat j (in_tenure j w a) (snd (EnsureExecution flt rnd now k s))"
    and "row_sat j (in_tenure j w a) (snd (MarkExecutionTerminal flt now k i s))"
    and "row_sat j (in_tenure j w a) (snd (ClaimTerminal flt now k v b s))"
    and "row_sat j (in_tenure j w a) (markDeliveryPending enc jit flt clock now v job body err s)"
proof -
  show "row_sat j (in_tenure j w a) (snd (Heartbeat flt now k v b ttl s))"
    using exec_call_tenure [OF assms, of "CallHeartbeat flt now k v b ttl"] by simp
  show "row_sat j (in_tenure j w a) (snd (EnsureExecution flt rnd now k s))"
    using exec_call_tenure [OF assms, of "CallEnsureExecution flt rnd now k"] by simp
  show "row_sat j (in_tenure j w a) (snd (MarkExecutionTerminal flt now k i s))"
    using exec_call_tenure [OF assms, of "CallMarkExecutionTerminal flt now k i"] by simp
  show "row_sat j (in_tenure j w a) (snd (ClaimTerminal flt now k v b s))"
    using exec_call_tenure [OF assms, of "CallClaimTerminal flt now k v b"] by simp
  have "row_sat j (in_tenure j w a) (snd (MarkFirstDeliveryPending flt now k v b p e nx s))" for k v b p e nx
    using exec_call_tenure [OF assms, of "CallMarkFirstDeliveryPending flt now k v b p e nx"] by simp
  moreover have "row_sat j (in_tenure j w a) (snd (MarkFirstDeliveryDeadLetter flt now k v b p e s))" for k v b p e
    using exec_call_tenure [OF assms, of "CallMarkFirstDeliveryDeadLetter flt now k v b p e"] by simp
  ultimately show "row_sat j (in_tenure j w a) (markDeliveryPending enc jit flt clock now v job body err s)"
    using assms by (simp add: markDeliveryPending_def markFirstDeliveryFailure_def split: sum.split)
qed

lemma beat_holding:
  assumes u: "undisturbed W j a" and h: "holding W j a w" and job: "of_attempt j a job"
  shows "wp (do_Heartbeat W job)
    (\<lambda>res w'. holding W j a w' \<and> (res = Inl ErrNotFound \<longrightarrow> row_sat j (overtaken a) (w_store w'))) w"
proof (rule wp_conj)
  show "wp (do_Heartbeat W job) (\<lambda>_. holding W j a) w"
    unfolding do_Heartbeat_def using undisturbed_reply(1) [OF u]
    by (intro store_holding [OF u h] calls_reach own_calls_tenure)
  note h' = arrive_holding [OF u h]
  show "wp (do_Heartbeat W job) (\<lambda>res w'. res = Inl ErrNotFound \<longrightarrow> row_sat j (overtaken a) (w_store w')) w"
    unfolding do_Heartbeat_def
    by (rule wp_store_op) (use h' job undisturbed_reply(2) [OF u, of w] in
      \<open>auto simp: holding_def intro: heartbeat_fenced\<close>, use h' in \<open>cases "w_ctx w"; auto simp: holding_def\<close>)
qed

lemma heartbeat_holding:
  "undisturbed W j a \<Longrightarrow> holding W j a w \<Longrightarrow> of_attempt j a job \<Longrightarrow> wp (heartbeat W job) (\<lambda>_. holding W j a) w"
  unfolding heartbeat_def by (intro wp_rules beat_holding [THEN wp_mono]) (auto simp: wp_lose holding_def)

lemma stillLeased_holding:
  "undisturbed W j a \<Longrightarrow> holding W j a w \<Longrightarrow> of_attempt j a job \<Longrightarrow>
     wp (stillLeased W job) (\<lambda>b w'. holding W j a w' \<and> (b \<longleftrightarrow> \<not> lost w')) w"
  unfolding stillLeased_def by (intro wp_rules heartbeat_holding [THEN wp_mono]) auto

lemma sample_holding: "undisturbed W j a \<Longrightarrow> holding W j a w \<Longrightarrow> wp (sample W) (\<lambda>_. holding W j a) w"
  using arrive_holding(1) [of W j a w] by (simp add: wp_sample)

lemma inc_holding: "holding W j a w \<Longrightarrow> wp (inc W m) (\<lambda>_. holding W j a) w"
  by (simp add: wp_inc holding_def)

lemma store_calls_holding:
  assumes u: "undisturbed W j a" and h: "holding W j a w"
  shows "wp (do_GetJob W job) (\<lambda>_. holding W j a) w" "wp (do_EnsureExecution W job) (\<lambda>_. holding W j a) w"
    "wp (do_MarkExecutionTerminal W bg job) (\<lambda>_. holding W j a) w" "wp (do_ClaimTerminal W job) (\<lambda>_. holding W j a) w"
    "wp (do_markDeliveryPending W job b e) (\<lambda>_. holding W j a) w"
  unfolding store_calls using undisturbed_reply(1) [OF u]
  by (intro store_holding [OF u h] calls_reach; simp add: own_calls_tenure)+

lemma submit_holding:
  assumes u: "undisturbed W j a" and "holding W j a w" and "of_attempt j a job"
  shows "wp (submitCheckRecord W job sub) (\<lambda>_. holding W j a) w" "wp (submitScanRecord W job req) (\<lambda>_. holding W j a) w"
  using assms(2,3) unfolding submitCheckRecord_def submitScanRecord_def claimTerminal_def post_record_def
  by (intro wp_rules stillLeased_holding [OF u, THEN wp_mono] store_calls_holding [OF u, THEN wp_mono]
      remote_holding [OF u, THEN wp_mono]; simp)+

lemma holding_submits: "undisturbed W j a \<Longrightarrow> submit_invariant W (of_attempt j a) (\<lambda>_. True) (holding W j a)"
  by unfold_locales (auto simp: remote_calls markExecutionTerminal_def
    intro: sample_holding inc_holding heartbeat_holding store_calls_holding remote_holding submit_holding
    intro!: wp_bind store_calls_holding(3) [THEN wp_mono] wp_ret)


section \<open>The calls that end an attempt\<close>

text \<open>A retry is at most \<open>RetryMaxDelay\<close> after a clock reading of the worker.\<close>

definition paced :: "Worker \<Rightarrow> row \<Rightarrow> bool" where
  "paced W r \<longleftrightarrow> (\<exists>n d. 0 < d \<and> d \<le> RetryMaxDelay \<and> r_retry_not_before r = Some (UnixNano (rp_now (replies W n) + d)))"

text \<open>Attempt \<open>a\<close> is over: a later one has begun, or the job is off its lease.\<close>

definition settled :: "Worker \<Rightarrow> int \<Rightarrow> row \<Rightarrow> bool" where
  "settled W a r \<longleftrightarrow> overtaken a r \<or>
     (r_lease_owner r = '''' \<and> r_status r \<in> {StatusQueued, StatusSucceeded, StatusFailed} \<and>
      (r_status r = StatusQueued \<longrightarrow> a < maxAttempts \<and> paced W r))"

lemma overtaken_settled: "row_sat j (overtaken a) s \<Longrightarrow> row_sat j (settled W a) s"
  by (auto simp: row_sat_def settled_def)

lemma closing_row:
  assumes "row_sat j (in_tenure j w a) s" and "\<And>r. r_job_id (f r) = r_job_id r"
    and "\<And>r. P r \<Longrightarrow> owns_lease j w a r" and "\<And>r. owns_active_lease j w a r \<Longrightarrow> P r \<and> settled W a (f r)"
  shows "row_sat j (settled W a) (snd (ExecContext no_faults n m P f s))"
proof -
  obtain r where r: "find_row j s = Some r" "in_tenure j w a r" using assms(1) by (auto simp: row_sat_def)
  have "settled W a (if P r then f r else r)"
    using r(2) assms(3,4) by (auto simp: in_tenure_def settled_def overtaken_def owns_lease_def)
  then show ?thesis using find_row_updated [OF r(1) assms(2), of P]
    by (auto simp: row_sat_def ExecContext_def no_faults_def)
qed

lemma FailJob_settles:
  assumes "row_sat j (in_tenure j w a) s" and "rt \<Longrightarrow> a < maxAttempts \<and> 0 < d \<and> d \<le> RetryMaxDelay" and "now = rp_now (replies W k)"
  shows "row_sat j (settled W a) (snd (FailJob no_faults now j w a e rt d s))"
proof (cases rt)
  case True
  have "settled W a (requeue_set e d now r)" for r
    using True assms(2,3) by (auto simp: settled_def paced_def requeue_set_def)
  then have "row_sat j (settled W a) (snd (ExecContext no_faults 0 m (owns_active_lease j w a) (requeue_set e d now) s))" for m
    by (intro closing_row [OF assms(1)]) (auto simp: requeue_set_def owns_active_lease_def)
  then show ?thesis using True by (auto simp: FailJob_def split: prod.splits sum.splits)
next
  case False
  have "row_sat j (settled W a) (snd (ExecContext no_faults 0 m (owns_lease j w a) (fail_set e now) s))" for m
    by (intro closing_row [OF assms(1)]) (auto simp: fail_set_def settled_def owns_active_lease_def)
  then show ?thesis using False by (auto simp: FailJob_def split: prod.splits sum.splits)
qed

lemma CompleteJob_settles:
  assumes "row_sat j (in_tenure j w a) s"
  shows "row_sat j (settled W a) (snd (CompleteJob no_faults now j w a res s))"
  using closing_row [OF assms, where f = "finish_set StatusSucceeded '''' res now" and P = "owns_lease j w a" and n = 0 and m = "''finish job''"]
  by (auto simp: CompleteJob_def finishJob_def finish_set_def settled_def owns_active_lease_def split: prod.splits sum.splits)

lemma closing_call:
  assumes u: "undisturbed W j a" and h: "holding W j a w"
    and f: "\<And>s. row_sat j (in_tenure j (workerName W) a) s \<Longrightarrow> row_sat j (settled W a) (snd (f no_faults (next_reply W w) s))"
  shows "wp (store_op W False f ev) (\<lambda>_ w'. row_sat j (settled W a) (w_store w')) w"
proof (rule wp_store_op)
  let ?w = "arrive (next_reply W w) w"
  note h' = arrive_holding [OF u h]
  show "row_sat j (settled W a) (w_store (?w\<lparr>w_store := s, w_trace := ev x # w_trace w\<rparr>))"
    if "f (rp_faults (next_reply W w)) (next_reply W w) (w_store ?w) = (x, s)" for x s
    using f [of "w_store ?w"] h'(1) that undisturbed_reply(2) [OF u, of w] by (simp add: holding_def)
  show "row_sat j (settled W a) (w_store ?w)" if "w_ctx ?w \<noteq> Live"
    using h' that by (cases "w_ctx w") (auto simp: holding_def intro: overtaken_settled)
qed

lemma fail_settles:
  assumes "undisturbed W j a" and "holding W j a w" and "of_attempt j a job" and "Retry d \<Longrightarrow> a < maxAttempts \<and> 0 < Delay d \<and> Delay d \<le> RetryMaxDelay"
  shows "wp (do_FailJob W job d) (\<lambda>_ w'. row_sat j (settled W a) (w_store w')) w"
  unfolding do_FailJob_def using assms by (intro closing_call) (auto intro: FailJob_settles)

lemma complete_settles:
  assumes "undisturbed W j a" and "holding W j a w" and "of_attempt j a job"
  shows "wp (do_CompleteJob W job summary) (\<lambda>_ w'. row_sat j (settled W a) (w_store w')) w"
  unfolding do_CompleteJob_def using assms by (intro closing_call) (auto intro: CompleteJob_settles)

lemma inc_settled:
  "row_sat j (settled W a) (w_store w) \<Longrightarrow> wp (inc W m) (\<lambda>_ w'. row_sat j (settled W a) (w_store w')) w"
  by (simp add: wp_inc)

lemma granted_paced:
  assumes "int63n_ok rnd" and "Retry (decideRetry rnd cls job why)"
  shows "Attempt job < maxAttempts \<and> 0 < Delay (decideRetry rnd cls job why) \<and> Delay (decideRetry rnd cls job why) \<le> RetryMaxDelay"
  using assms(2) RetryDelay_pos [OF assms(1), of "Attempt job"]
  by (auto simp: decideRetry_def retryDelayFor_def split: if_splits FailureClass.splits)

text \<open>The jitter of a decision is one the worker drew.\<close>

lemma sample_jitter: "env_ok W \<Longrightarrow> wp (sample W) (\<lambda>r _. int63n_ok (rp_jitter r)) w"
  using env_reply [of W "w_step w"] by (simp add: wp_sample reply_ok_def)

lemma lost_settled: "holding W j a w \<Longrightarrow> lost w \<Longrightarrow> row_sat j (settled W a) (w_store w)"
  by (simp add: holding_def overtaken_settled)

section \<open>The attempt\<close>

lemmas holding_rules =
  submit_invariant.runL5a_keeps [OF holding_submits, THEN wp_mono]
  submit_invariant.runL5b_keeps [OF holding_submits, THEN wp_mono]
  submit_invariant.success_report_keeps [OF holding_submits, THEN wp_mono]

lemmas holding_stages = holding_submits [THEN submit_invariant.axioms(1)]

lemma fail_attempt_settles:
  assumes u: "undisturbed W j a" and "of_attempt j a job" and "holding W j a w"
  shows "wp (fail_attempt W job stage command cls why) (\<lambda>_ w'. row_sat j (settled W a) (w_store w')) w"
  unfolding fail_attempt_def reportTerminalFailure_def
  by (intro wp_rules wp_conj [OF sample_holding [OF u] sample_jitter [OF undisturbed_reply(1) [OF u]], THEN wp_mono]
      inc_holding [THEN wp_mono] submit_holding [OF u, THEN wp_mono] fail_settles [OF u, THEN wp_mono] inc_settled)
    (use assms in \<open>auto dest: granted_paced\<close>)

text \<open>An optional stage is cut short only by a lost lease.\<close>

lemma optional_stage_holding:
  assumes u: "undisturbed W j a" and "of_attempt j a job" and "holding W j a w"
    and stage: "\<And>w. holding W j a w \<Longrightarrow> wp stage (\<lambda>_. holding W j a) w"
  shows "wp (optional_stage W job planned stage p q) (\<lambda>x w'. holding W j a w' \<and> (x = None \<longrightarrow> lost w')) w"
  unfolding optional_stage_def
  by (intro wp_rules stillLeased_holding [OF u, THEN wp_mono] stage [THEN wp_mono] inc_holding [THEN wp_mono])
    (use assms in auto)

lemma complete_attempt_settles:
  assumes u: "undisturbed W j a" and "of_attempt j a job" and "holding W j a w"
  shows "wp (complete_attempt W job summary) (\<lambda>_ w'. row_sat j (settled W a) (w_store w')) w"
  unfolding complete_attempt_def
  by (intro wp_rules complete_settles [OF u, THEN wp_mono] inc_settled) (use assms in \<open>auto intro: lost_settled\<close>)

lemma finish_settles:
  assumes u: "undisturbed W j a" and "of_attempt j a job" and "holding W j a w"
  shows "wp (finishAfterL4 W job plan isL5ALast) (\<lambda>_ w'. row_sat j (settled W a) (w_store w')) w"
  unfolding finishAfterL4_def
  by (intro wp_rules optional_stage_holding [OF u, THEN wp_mono] holding_rules [OF u] complete_attempt_settles [OF u])
    (use assms in \<open>auto intro: lost_settled\<close>)

lemma run_L4_settles:
  assumes u: "undisturbed W j a" and "of_attempt j a job" and "holding W j a w"
  shows "wp (run_L4 W job plan adopted) (\<lambda>_ w'. row_sat j (settled W a) (w_store w')) w"
  unfolding run_L4_def
  by (intro wp_rules stage_invariant.runSmokeRun_keeps [OF holding_stages [OF u], THEN wp_mono] holding_rules [OF u]
      fail_attempt_settles [OF u] finish_settles [OF u])
    (use assms in \<open>auto intro: lost_settled\<close>)

lemma run_L3_settles:
  assumes u: "undisturbed W j a" and "of_attempt j a job" and "holding W j a w"
  shows "wp (run_L3 W job plan adopted) (\<lambda>_ w'. row_sat j (settled W a) (w_store w')) w"
  unfolding run_L3_def runDryRun_def markExecutionTerminal_def
  by (intro wp_rules remote_holding [OF u, THEN wp_mono] store_calls_holding [OF u, THEN wp_mono]
      fail_attempt_settles [OF u] run_L4_settles [OF u]) (use assms in auto)

lemma run_execution_settles:
  assumes u: "undisturbed W j a" and "of_attempt j a job" and "holding W j a w"
  shows "wp (run_execution W job plan adopted) (\<lambda>_ w'. row_sat j (settled W a) (w_store w')) w"
  unfolding run_execution_def
  by (intro wp_rules stage_invariant.exists_keeps [OF holding_stages [OF u], THEN wp_mono]
      fail_attempt_settles [OF u] finish_settles [OF u] run_L3_settles [OF u]) (use assms in auto)

lemma process_settles:
  assumes u: "undisturbed W j a" and "of_attempt j a job" and "holding W j a w"
  shows "wp (process W job) (\<lambda>_ w'. row_sat j (settled W a) (w_store w')) w"
  unfolding process_def run_plan_def
  by (intro wp_rules stage_invariant.retire_keeps [OF holding_stages [OF u], THEN wp_mono]
      store_calls_holding [OF u, THEN wp_mono] fail_attempt_settles [OF u] run_execution_settles [OF u])
    (use assms in \<open>auto intro: lost_settled\<close>)

text \<open>
  C10: an attempt settles its job. If the database answers, the process is not shut down and
  nobody else writes under this attempt's lease generation, then, whatever Kubernetes and
  NodeVault answer, whatever the clocks read and whatever other workers do, an attempt that
  starts with its lease held ends with the job succeeded, failed or back in the queue and no
  lease on it, or with a later attempt begun. It is back in the queue only while fewer than
  \<open>maxAttempts\<close> attempts have been made, so no job is retried for ever.
\<close>

theorem attempt_settles_job:
  assumes "undisturbed W (JobID job) (Attempt job)" and "store_ok (w_store w)" and "w_ctx w = Live"
    and "find_row (JobID job) (w_store w) = Some r" and "owns_active_lease (JobID job) (workerName W) (Attempt job) r"
  shows "\<exists>r'. find_row (JobID job) (w_store (snd (run_state (process W job) w))) = Some r' \<and>
    (Attempt job < r_attempt r' \<or>
     r_lease_owner r' = '''' \<and>
      (r_status r' = StatusSucceeded \<or> r_status r' = StatusFailed \<or>
       r_status r' = StatusQueued \<and> Attempt job < maxAttempts))"
proof -
  have "holding W (JobID job) (Attempt job) w"
    using assms by (auto simp: holding_def row_sat_def in_tenure_def)
  then have "row_sat (JobID job) (settled W (Attempt job)) (w_store (snd (run_state (process W job) w)))"
    using process_settles [OF assms(1), of job w] by (simp add: wp_run)
  then show ?thesis by (auto simp: row_sat_def settled_def overtaken_def)
qed

theorem attempt_settles_job_witness:
  "\<exists>r'. find_row ''job-1'' (w_store (snd (run_state (process (demo_worker []) demo_attempt) (demo_world demo_leased)))) = Some r' \<and>
    (1 < r_attempt r' \<or>
     r_lease_owner r' = '''' \<and>
      (r_status r' = StatusSucceeded \<or> r_status r' = StatusFailed \<or> r_status r' = StatusQueued \<and> 1 < maxAttempts))"
proof -
  have job: "JobID demo_attempt = ''job-1''" "Attempt demo_attempt = 1" by (simp_all add: demo_attempt_def)
  have "undisturbed (demo_worker []) ''job-1'' 1"
    using demo_env_ok by (simp add: undisturbed_def demo_worker_def demo_reply_def)
  moreover have "owns_active_lease ''job-1'' (workerName (demo_worker [])) 1 demo_leased"
    by (simp add: owns_active_lease_def owns_lease_def demo_worker_def)
  ultimately show ?thesis
    using attempt_settles_job [of "demo_worker []" demo_attempt "demo_world demo_leased" demo_leased]
      demo_store_ok [OF demo_leased_ok] demo_find [of demo_leased] job by simp
qed


end
