(* ===== verification/Worker_Retries.thy ===== *)
theory Worker_Retries
  imports Worker_Liveness
begin

text \<open>
  How often a job is leased. A worker that is left alone leases a job at most as often as
  the retry policy has attempts for it, over any number of rounds of its loop.
\<close>

section \<open>Calls on one job\<close>

text \<open>From \<open>s\<close> to \<open>s'\<close> only the row of \<open>j\<close> changed, and its attempt count did not.\<close>

definition touches :: "string \<Rightarrow> store \<Rightarrow> store \<Rightarrow> bool" where
  "touches j s s' \<longleftrightarrow> (\<forall>i. i \<noteq> j \<longrightarrow> find_row i s' = find_row i s) \<and>
     map_option r_attempt (find_row j s') = map_option r_attempt (find_row j s)"

lemma touches_refl: "touches j s s"
  by (simp add: touches_def)

lemma touches_trans: "touches j s t \<Longrightarrow> touches j t u \<Longrightarrow> touches j s u"
  by (simp add: touches_def)

lemma update_touches:
  assumes id: "\<And>r. r_job_id (f r) = r_job_id r" and P: "\<And>r. P r \<Longrightarrow> r_job_id r = j"
    and a: "\<And>r. r_attempt (f r) = r_attempt r"
  shows "touches j s (update_jobs P f s)"
proof -
  have "map_option (\<lambda>r. if P r then f r else r) (find_row i s) = find_row i s" if "i \<noteq> j" for i
    using that P find_row_Some [of i s] by (cases "find_row i s") auto
  then show ?thesis
    unfolding touches_def find_row_update_jobs [of f, OF id] by (auto simp: option.map_comp a intro!: map_option_cong)
qed

lemma ExecContext_touches:
  "(\<And>r. r_job_id (f r) = r_job_id r) \<Longrightarrow> (\<And>r. P r \<Longrightarrow> r_job_id r = j) \<Longrightarrow> (\<And>r. r_attempt (f r) = r_attempt r) \<Longrightarrow>
     touches j s (snd (ExecContext flt n m P f s))"
  by (auto simp: ExecContext_def touches_refl intro: update_touches split: option.split)

lemma own_calls_touch:
  "touches j s (snd (Heartbeat flt now j w a ttl s))"
  "touches j s (snd (EnsureExecution flt rnd now j s))"
  "touches j s (snd (MarkExecutionTerminal flt now j i s))"
  "touches j s (snd (ClaimTerminal flt now j w a s))"
  "touches j s (snd (CompleteJob flt now j w a res s))"
  "touches j s (snd (FailJob flt now j w a e rt d s))"
  "touches j s (snd (MarkFirstDeliveryPending flt now j w a p e nx s))"
  "touches j s (snd (MarkFirstDeliveryDeadLetter flt now j w a p e s))"
proof -
  show "touches j s (snd (EnsureExecution flt rnd now j s))"
    using EnsureExecution_cases [of flt rnd now j s] update_touches [of "mint_set _ now" "\<lambda>x. r_job_id x = j"]
    by (auto simp: touches_refl mint_set_def)
qed (auto simp: Heartbeat_def CompleteJob_def finishJob_def FailJob_def MarkFirstDeliveryPending_def
    MarkFirstDeliveryDeadLetter_def snd_claim_terminal snd_mark_terminal set_defs fence_defs
    intro!: ExecContext_touches)

section \<open>A worker left alone\<close>

text \<open>No database fault, no shutdown, and no other process at the store.\<close>

definition alone :: "Worker \<Rightarrow> bool" where
  "alone W \<longleftrightarrow> env_ok W \<and>
     (\<forall>n. rp_faults (replies W n) = no_faults \<and> \<not> rp_shutdown (replies W n) \<and> rp_others (replies W n) = [])"

lemma alone_undisturbed: "alone W \<Longrightarrow> undisturbed W j a"
  by (simp add: alone_def undisturbed_def)

lemma alone_arrive:
  "alone W \<Longrightarrow> w_store (arrive (next_reply W w) w) = w_store w \<and> w_ctx (arrive (next_reply W w) w) = w_ctx w"
  by (simp add: alone_def arrive_ctx)

fun leases :: "string \<Rightarrow> event list \<Rightarrow> nat" where
  "leases j [] = 0"
| "leases j (e # es) = (case e of EvLease (Inr job) \<Rightarrow> if JobID job = j then 1 else 0 | _ \<Rightarrow> 0) + leases j es"

fun leaseless :: "event \<Rightarrow> bool" where
  "leaseless (EvLease _) = False"
| "leaseless _ = True"

lemma leaseless_count: "leaseless e \<Longrightarrow> leases j (e # es) = leases j es"
  by (cases e) simp_all

text \<open>An attempt at job \<open>i\<close> leases nothing and touches no other job, and is not shut down.\<close>

definition within :: "string \<Rightarrow> store \<Rightarrow> event list \<Rightarrow> world \<Rightarrow> bool" where
  "within i s tr w \<longleftrightarrow> touches i s (w_store w) \<and> (\<forall>j. leases j (w_trace w) = leases j tr) \<and> w_ctx w \<noteq> Canceled"

lemma store_within:
  assumes "alone W" and "within i s tr w" and "\<And>flt r t. touches i t (snd (f flt r t))" and "\<And>x. leaseless (ev x)"
  shows "wp (store_op W bg f ev) (\<lambda>_. within i s tr) w"
proof (rule wp_store_op)
  note st = alone_arrive [OF assms(1), of w]
  fix x t
  assume "f (rp_faults (next_reply W w)) (next_reply W w) (w_store (arrive (next_reply W w) w)) = (x, t)"
  then have "touches i (w_store w) t" using assms(3) st by (metis snd_conv)
  then show "within i s tr (arrive (next_reply W w) w\<lparr>w_store := t, w_trace := ev x # w_trace w\<rparr>)"
    using assms(2,4) touches_trans st by (auto simp: within_def leaseless_count simp del: leases.simps)
qed (use alone_arrive [OF assms(1), of w] assms(2) in \<open>simp add: within_def\<close>)

lemma remote_within:
  assumes "alone W" and "within i s tr w" and "\<And>x. leaseless (ev x)"
  shows "wp (remote_op W bg f dead ev) (\<lambda>_. within i s tr) w"
  using alone_arrive [OF assms(1), of w] assms(2,3)
  by (intro wp_remote_op) (simp_all add: within_def leaseless_count del: leases.simps)

lemma pure_within:
  assumes "alone W" and "within i s tr w"
  shows "wp (sample W) (\<lambda>_. within i s tr) w" "wp (inc W m) (\<lambda>_. within i s tr) w" "wp lose (\<lambda>_. within i s tr) w"
  using assms alone_arrive [OF assms(1), of w] by (simp_all add: wp_sample wp_inc wp_lose within_def)

lemma store_calls_within:
  assumes "alone W" and "within i s tr w" and "JobID job = i"
  shows "wp (do_Heartbeat W job) (\<lambda>_. within i s tr) w" "wp (do_GetJob W job) (\<lambda>_. within i s tr) w"
    "wp (do_EnsureExecution W job) (\<lambda>_. within i s tr) w" "wp (do_MarkExecutionTerminal W bg job) (\<lambda>_. within i s tr) w"
    "wp (do_ClaimTerminal W job) (\<lambda>_. within i s tr) w" "wp (do_FailJob W job d) (\<lambda>_. within i s tr) w"
    "wp (do_CompleteJob W job summary) (\<lambda>_. within i s tr) w" "wp (do_markDeliveryPending W job b e) (\<lambda>_. within i s tr) w"
  unfolding store_calls using assms own_calls_touch
  by (auto intro!: store_within simp: touches_refl markDeliveryPending_def markFirstDeliveryFailure_def split: sum.split)

lemmas within_rules = store_calls_within [THEN wp_mono] remote_within [THEN wp_mono] pure_within [THEN wp_mono]

lemma heartbeat_within: "alone W \<Longrightarrow> within i s tr w \<Longrightarrow> JobID job = i \<Longrightarrow> wp (heartbeat W job) (\<lambda>_. within i s tr) w"
  unfolding heartbeat_def by (intro wp_rules within_rules) auto

lemma stillLeased_within: "alone W \<Longrightarrow> within i s tr w \<Longrightarrow> JobID job = i \<Longrightarrow> wp (stillLeased W job) (\<lambda>_. within i s tr) w"
  unfolding stillLeased_def by (intro wp_rules heartbeat_within [THEN wp_mono]) auto

lemma submit_within:
  assumes "alone W" and "within i s tr w" and "JobID job = i"
  shows "wp (submitCheckRecord W job sub) (\<lambda>_. within i s tr) w" "wp (submitScanRecord W job req) (\<lambda>_. within i s tr) w"
  using assms(2,3) unfolding submitCheckRecord_def submitScanRecord_def claimTerminal_def post_record_def
  by (intro wp_rules stillLeased_within [OF assms(1), THEN wp_mono] store_calls_within [OF assms(1), THEN wp_mono]
      remote_within [OF assms(1), THEN wp_mono]; simp)+

lemma within_attempt:
  assumes "alone W"
  shows "attempt_invariant W (\<lambda>job. JobID job = i) (\<lambda>_. True) (within i s tr)"
  by unfold_locales
    (auto simp: remote_calls markExecutionTerminal_def
      intro: pure_within [OF assms] heartbeat_within [OF assms] store_calls_within [OF assms] submit_within [OF assms]
      intro!: remote_within [OF assms] wp_bind store_calls_within(4) [OF assms, THEN wp_mono] wp_ret)


section \<open>The attempts a job has left\<close>

definition remaining :: "row \<Rightarrow> nat" where
  "remaining r = (if r_status r = StatusSucceeded \<or> r_status r = StatusFailed then 0 else nat (max 1 (maxAttempts - r_attempt r)))"

lemma attempt_spends:
  assumes "leaseable now r" and "settled W (r_attempt r + 1) r'" and "r_attempt r' = r_attempt r + 1"
  shows "remaining r' + 1 \<le> remaining r"
  using assms by (auto simp: remaining_def settled_def overtaken_def leaseable_def)

text \<open>What \<open>LeaseJob\<close> does when the database answers.\<close>

lemma LeaseJob_clean:
  assumes ok: "store_ok s" and ts: "ts_ok now" "ts_ok (now + ttl)"
    and call: "LeaseJob no_faults now w ttl s = (res, s')"
  shows "case res of
      Inl _ \<Rightarrow> s' = s \<and> filter (leaseable now) (jobs s) = []
    | Inr job \<Rightarrow> \<exists>r. find_row (JobID job) s = Some r \<and> leaseable now r \<and> Attempt job = r_attempt r + 1 \<and>
        find_row (JobID job) s' = Some (lease_set now w ttl r) \<and> (\<forall>i. i \<noteq> JobID job \<longrightarrow> find_row i s' = find_row i s)"
proof (cases "filter (leaseable now) (jobs s) = []")
  case True
  then show ?thesis using call by (auto simp: LeaseJob_def no_faults_def)
next
  case False
  define r where "r = hd (sort_key r_created_at (filter (leaseable now) (jobs s)))"
  obtain job where job: "res = Inr job" "s' = update_jobs (\<lambda>x. r_job_id x = r_job_id r) (lease_set now w ttl) s"
    "scanJob (lease_set now w ttl r) = Inr job" "find_row (r_job_id r) s = Some r" "leaseable now r"
    using LeaseJob_at [OF ok r_def False ts, of w] call by auto
  have "JobID job = r_job_id r" "Attempt job = r_attempt r + 1"
    using job(3) by (auto simp: scanJob_def lease_set_def split: sum.splits)
  then show ?thesis using job lease_u.find_row_other [of _ "r_job_id r"]
    by (auto simp: lease_u.find_row_update)
qed

section \<open>One round\<close>

text \<open>A round that leased job \<open>i\<close>: it made one attempt at it, and nothing else changed.\<close>

definition round_spent :: "Worker \<Rightarrow> string \<Rightarrow> world \<Rightarrow> world \<Rightarrow> bool" where
  "round_spent W i w u \<longleftrightarrow> store_ok (w_store u) \<and> w_ctx u \<noteq> Canceled \<and>
     (\<forall>j. leases j (w_trace u) = (if j = i then 1 else 0) + leases j (w_trace w)) \<and>
     (\<forall>j. j \<noteq> i \<longrightarrow> find_row j (w_store u) = find_row j (w_store w)) \<and>
     (\<exists>r r'. find_row i (w_store w) = Some r \<and> find_row i (w_store u) = Some r' \<and> remaining r' + 1 \<le> remaining r \<and>
        r_attempt r' = r_attempt r + 1 \<and> settled W (r_attempt r') r')"

lemma process_spends:
  assumes al: "alone W"
    and r: "find_row (JobID job) (w_store w) = Some r" "leaseable now r" "Attempt job = r_attempt r + 1"
    and s': "find_row (JobID job) s' = Some (lease_set now (workerName W) ttl r)"
      "\<forall>i. i \<noteq> JobID job \<longrightarrow> find_row i s' = find_row i (w_store w)" "store_ok s'"
    and w': "w_store w' = s'" "w_trace w' = EvLease (Inr job) # w_trace w" "w_ctx w' = Live"
  shows "wp (process W job) (\<lambda>_. round_spent W (JobID job) w) w'"
proof -
  let ?i = "JobID job"
  have env: "env_ok W" using al by (simp add: alone_def)
  have id: "r_job_id r = ?i" using find_row_Some [OF r(1)] by simp
  have "holding W ?i (Attempt job) w'"
    using s' w' r(3) id by (auto simp: holding_def row_sat_def in_tenure_def owns_active_lease_def owns_lease_def lease_set_def)
  then have "wp (process W job) (\<lambda>_ u. row_sat ?i (settled W (Attempt job)) (w_store u)) w'"
    by (intro process_settles [OF alone_undisturbed [OF al]]) simp_all
  moreover have "wp (process W job) (\<lambda>_. within ?i s' (w_trace w')) w'"
    using attempt_invariant.process_keeps [OF within_attempt [OF al]] w' by (simp add: within_def touches_refl)
  moreover have "wp (process W job) (\<lambda>_ u. store_step\<^sup>*\<^sup>* s' (w_store u)) w'"
    using reach.process_keeps [of W s' w' job] env w'(1) by (simp add: wp_run)
  ultimately have "wp (process W job) (\<lambda>_ u. row_sat ?i (settled W (Attempt job)) (w_store u) \<and> within ?i s' (w_trace w') u \<and>
      store_step\<^sup>*\<^sup>* s' (w_store u)) w'" by (intro wp_conj)
  then show ?thesis
  proof (rule wp_mono)
    fix u
    assume u: "row_sat ?i (settled W (Attempt job)) (w_store u) \<and> within ?i s' (w_trace w') u \<and> store_step\<^sup>*\<^sup>* s' (w_store u)"
    then have ok: "store_ok (w_store u)" using store_inv.inv_reach s'(3) by blast
    obtain r' where r': "find_row ?i (w_store u) = Some r'" "settled W (Attempt job) r'"
      using u by (auto simp: row_sat_def)
    have a: "r_attempt r' = r_attempt r + 1" using u r'(1) s'(1) by (simp add: within_def touches_def lease_set_def)
    then have "remaining r' + 1 \<le> remaining r" using attempt_spends [OF r(2)] r'(2) r(3) by simp
    then show "round_spent W ?i w u"
      using u ok r' a r(1,3) w'(2) s'(2) by (auto simp: round_spent_def within_def touches_def)
  qed
qed

text \<open>A round leases a job whenever one is leaseable, and otherwise leaves the store alone.\<close>

lemma round_effect:
  assumes al: "alone W" and ok: "store_ok (w_store w)" and ctx: "w_ctx w = Live"
  shows "wp (do_LeaseJob W) (\<lambda>res w'. w_ctx w' = Live \<and> (case res of
      Inl _ \<Rightarrow> w_store w' = w_store w \<and> (\<forall>j. leases j (w_trace w') = leases j (w_trace w)) \<and>
        filter (leaseable (rp_now (next_reply W w))) (jobs (w_store w)) = []
    | Inr job \<Rightarrow> wp (inc W JobsLeased) (\<lambda>_. wp (process W job) (\<lambda>_. round_spent W (JobID job) w)) w')) w"
  unfolding do_LeaseJob_def
proof (rule wp_store_op)
  let ?r = "next_reply W w" and ?s = "w_store w"
  note st = alone_arrive [OF al, of w]
  have env: "env_ok W" and flt: "rp_faults ?r = no_faults" using al by (simp_all add: alone_def)
  have ts: "ts_ok (rp_now ?r)" "ts_ok (rp_now ?r + leaseDuration)"
    using env_reply [OF env, of "w_step w"] by (simp_all add: reply_ok_def)
  fix res s'
  let ?w = "arrive ?r w\<lparr>w_store := s', w_trace := EvLease res # w_trace w\<rparr>"
  assume call: "LeaseJob (rp_faults ?r) (rp_now ?r) (workerName W) leaseDuration (w_store (arrive ?r w)) = (res, s')"
  then have c: "LeaseJob no_faults (rp_now ?r) (workerName W) leaseDuration ?s = (res, s')" using st flt by simp
  have "store_step\<^sup>*\<^sup>* ?s s'"
    using calls_reach(1) [OF env] c unfolding is_call_def by (metis snd_conv)
  then have ok': "store_ok s'" using store_inv.inv_reach ok by blast
  note lease = LeaseJob_clean [OF ok ts c]
  show "w_ctx ?w = Live \<and> (case res of
      Inl _ \<Rightarrow> w_store ?w = ?s \<and> (\<forall>j. leases j (w_trace ?w) = leases j (w_trace w)) \<and> filter (leaseable (rp_now ?r)) (jobs ?s) = []
    | Inr job \<Rightarrow> wp (inc W JobsLeased) (\<lambda>_. wp (process W job) (\<lambda>_. round_spent W (JobID job) w)) ?w)"
  proof (cases res)
    case (Inl e)
    then show ?thesis using lease st ctx by simp
  next
    case (Inr job)
    then obtain r where "find_row (JobID job) ?s = Some r" "leaseable (rp_now ?r) r" "Attempt job = r_attempt r + 1"
      "find_row (JobID job) s' = Some (lease_set (rp_now ?r) (workerName W) leaseDuration r)"
      "\<forall>i. i \<noteq> JobID job \<longrightarrow> find_row i s' = find_row i ?s"
      using lease by auto
    note p = process_spends [OF al this ok']
    show ?thesis using p Inr st ctx by (auto simp: wp_inc)
  qed
qed (use alone_arrive [OF al, of w] ctx in simp)

section \<open>Any number of rounds\<close>

text \<open>From \<open>w\<close> to \<open>u\<close> one round was made: nothing was leaseable, or one job got an attempt.\<close>

definition round_of :: "Worker \<Rightarrow> world \<Rightarrow> world \<Rightarrow> bool" where
  "round_of W w u \<longleftrightarrow> store_ok (w_store u) \<and> w_ctx u = Live \<and>
     ((\<exists>n. filter (leaseable (rp_now (replies W n))) (jobs (w_store w)) = []) \<and> w_store u = w_store w \<and>
        (\<forall>j. leases j (w_trace u) = leases j (w_trace w)) \<or>
      (\<exists>i. round_spent W i w u))"

lemma spent_round: "round_spent W i w u \<Longrightarrow> wp end_attempt (\<lambda>_. round_of W w) u"
  by (cases "w_ctx u") (auto simp: wp_end_attempt round_of_def round_spent_def)

lemma idle_round:
  assumes "alone W" and "store_ok (w_store w)" and "w_ctx u = Live" and "w_store u = w_store w"
    and "\<forall>j. leases j (w_trace u) = leases j (w_trace w)"
    and "filter (leaseable (rp_now (next_reply W w))) (jobs (w_store w)) = []"
  shows "wp (sample W) (\<lambda>_. round_of W w) u"
  using assms alone_arrive [OF assms(1), of u] by (auto simp: wp_sample round_of_def)

lemma Run_step:
  assumes "alone W" and "store_ok (w_store w)" and "w_ctx w = Live" and rest: "\<And>u. round_of W w u \<Longrightarrow> wp (Run W n) Q u"
  shows "wp (Run W (Suc n)) Q w"
  unfolding Run.simps
  by (intro wp_rules round_effect [OF assms(1-3), THEN wp_mono])
    (use assms in \<open>auto split: sum.splits intro!: wp_rules idle_round [THEN wp_mono] spent_round [THEN wp_mono] elim!: wp_mono\<close>)

definition budget :: "nat \<Rightarrow> string \<Rightarrow> world \<Rightarrow> bool" where
  "budget K j w \<longleftrightarrow> store_ok (w_store w) \<and> w_ctx w = Live \<and>
     (\<exists>r. find_row j (w_store w) = Some r \<and> leases j (w_trace w) + remaining r \<le> K)"

lemma round_budget:
  assumes b: "budget K j w" and r: "round_of W w u"
  shows "budget K j u"
proof (cases "\<exists>i. round_spent W i w u")
  case True
  then obtain i where i: "round_spent W i w u" by blast
  obtain q where q: "find_row j (w_store w) = Some q" "leases j (w_trace w) + remaining q \<le> K"
    using b by (auto simp: budget_def)
  show ?thesis using i q r by (cases "i = j") (auto simp: budget_def round_spent_def round_of_def)
next
  case False
  then show ?thesis using assms by (auto simp: budget_def round_of_def)
qed

lemma Run_budget: "alone W \<Longrightarrow> budget K j w \<Longrightarrow> wp (Run W n) (\<lambda>_. budget K j) w"
proof (induction n arbitrary: w)
  case 0
  then show ?case by (auto intro: wp_ret)
next
  case (Suc n)
  have "store_ok (w_store w)" "w_ctx w = Live" using Suc.prems(2) by (simp_all add: budget_def)
  then show ?case using Suc by (intro Run_step) (auto intro: round_budget)
qed

text \<open>
  C14: retrying ends. Left alone with a database that answers, a worker leases a job at most
  as often as the policy has attempts left for it: \<open>maxAttempts\<close> less those already made,
  once at least if the job is not finished, and never again once it is. This holds over any
  number of rounds of the loop and for all answers of Kubernetes and NodeVault, so no job is
  worked on for ever.
\<close>

theorem job_leases_bounded:
  assumes "alone W" and "store_ok (w_store w)" and "w_ctx w = Live" and "w_trace w = []" and "find_row j (w_store w) = Some r"
  shows "leases j (w_trace (snd (run_state (Run W n) w))) \<le>
    (if r_status r = StatusSucceeded \<or> r_status r = StatusFailed then 0 else nat (max 1 (maxAttempts - r_attempt r)))"
proof -
  have "budget (remaining r) j w" using assms(2-5) by (simp add: budget_def)
  then have "budget (remaining r) j (snd (run_state (Run W n) w))"
    using Run_budget [OF assms(1)] by (simp add: wp_run)
  then show ?thesis by (auto simp: budget_def remaining_def)
qed


theorem job_leases_bounded_witness:
  "leases ''job-1'' (w_trace (snd (run_state (Run (demo_worker []) 9) (demo_world demo_row)))) \<le> 5"
proof -
  have "alone (demo_worker [])" using demo_env_ok by (simp add: alone_def demo_worker_def demo_reply_def)
  then show ?thesis
    using job_leases_bounded [of "demo_worker []" "demo_world demo_row" "''job-1''" demo_row 9]
      demo_store_ok [OF demo_row_ok] demo_find [of demo_row] by (simp add: maxAttempts_def)
qed

section \<open>No job waits for ever\<close>

text \<open>The attempts left for all jobs of a store.\<close>

definition workload :: "store \<Rightarrow> nat" where
  "workload s = sum_list (map remaining (jobs s))"

lemma workload_sum:
  assumes "store_ok s"
  shows "workload s = (\<Sum>j \<in> {j. find_row j s \<noteq> None}. remaining (the (find_row j s)))"
proof -
  have d: "distinct (map r_job_id (jobs s))" using store_ok_distinct [OF assms] .
  have "workload s = (\<Sum>r \<in> set (jobs s). remaining r)"
    using d by (simp add: workload_def sum_list_distinct_conv_sum_set distinct_map)
  also have "\<dots> = (\<Sum>r \<in> set (jobs s). remaining (the (find_row (r_job_id r) s)))"
    using find_row_unique [OF d] by (intro sum.cong) auto
  also have "\<dots> = (\<Sum>j \<in> r_job_id ` set (jobs s). remaining (the (find_row j s)))"
    using d by (simp add: sum.reindex distinct_map)
  also have "r_job_id ` set (jobs s) = {j. find_row j s \<noteq> None}"
    using find_row_unique [OF d] find_row_Some by fastforce
  finally show ?thesis .
qed

lemma spent_workload:
  assumes "store_ok (w_store w)" and "round_spent W i w u"
  shows "workload (w_store u) < workload (w_store w)"
proof -
  let ?D = "{j. find_row j (w_store w) \<noteq> None}" and ?f = "\<lambda>w j. remaining (the (find_row j (w_store w)))"
  obtain r r' where i: "find_row i (w_store w) = Some r" "find_row i (w_store u) = Some r'" "remaining r' < remaining r"
    using assms(2) by (auto simp: round_spent_def)
  have same: "find_row j (w_store u) = find_row j (w_store w)" if "j \<noteq> i" for j
    using assms(2) that by (simp add: round_spent_def)
  have dom: "find_row j (w_store u) = None \<longleftrightarrow> find_row j (w_store w) = None" for j
    using same i by (cases "j = i") simp_all
  have fin: "finite ?D"
    by (rule finite_subset [of _ "r_job_id ` set (jobs (w_store w))"]) (auto dest: find_row_Some)
  have le: "?f u j \<le> ?f w j" for j using same i by (cases "j = i") simp_all
  have "(\<Sum>j \<in> ?D. ?f u j) < (\<Sum>j \<in> ?D. ?f w j)"
    by (rule sum_strict_mono_ex1 [OF fin]) (use le i in \<open>auto intro!: exI [of _ i]\<close>)
  moreover have "store_ok (w_store u)" using assms(2) by (simp add: round_spent_def)
  ultimately show ?thesis using assms(1) by (simp add: workload_sum dom)
qed

lemma leaseable_workload:
  assumes "find_row j s = Some r" and "leaseable now r"
  shows "0 < workload s"
proof -
  have "r \<in> set (jobs s)" using find_row_Some [OF assms(1)] by simp
  then have "remaining r \<le> workload s" unfolding workload_def by (intro member_le_sum_list) simp_all
  moreover have "0 < remaining r" using assms(2) by (auto simp: remaining_def leaseable_def)
  ultimately show ?thesis by simp
qed

text \<open>A job that got an attempt after attempt \<open>a\<close>, which is over.\<close>

definition attended :: "Worker \<Rightarrow> int \<Rightarrow> row \<Rightarrow> bool" where
  "attended W a r \<longleftrightarrow> a < r_attempt r \<and> settled W (r_attempt r) r"

lemma round_attended:
  assumes "row_sat j (attended W a) (w_store w)" and "round_of W w u"
  shows "row_sat j (attended W a) (w_store u) \<and> leases j (w_trace w) \<le> leases j (w_trace u)"
proof (cases "\<exists>i. round_spent W i w u")
  case True
  then obtain i where "round_spent W i w u" by blast
  then show ?thesis using assms(1) by (cases "i = j") (auto simp: round_spent_def row_sat_def attended_def)
next
  case False
  then show ?thesis using assms by (auto simp: round_of_def)
qed

lemma Run_attended:
  "alone W \<Longrightarrow> store_ok (w_store w) \<Longrightarrow> w_ctx w = Live \<Longrightarrow> K \<le> leases j (w_trace w) \<Longrightarrow> row_sat j (attended W a) (w_store w) \<Longrightarrow>
     wp (Run W n) (\<lambda>_ u. K \<le> leases j (w_trace u) \<and> row_sat j (attended W a) (w_store u)) w"
proof (induction n arbitrary: w)
  case 0
  then show ?case by (auto intro: wp_ret)
next
  case (Suc n)
  show ?case
  proof (rule Run_step [OF Suc.prems(1-3)])
    fix u
    assume u: "round_of W w u"
    note after = round_attended [OF Suc.prems(5) u]
    from after show "wp (Run W n) (\<lambda>_ u. K \<le> leases j (w_trace u) \<and> row_sat j (attended W a) (w_store u)) u"
      using u Suc.prems(1,4) by (intro Suc.IH) (auto simp: round_of_def)
  qed
qed

lemma Run_serves:
  assumes al: "alone W" and due: "\<forall>n. leaseable (rp_now (replies W n)) r"
  shows "store_ok (w_store w) \<Longrightarrow> w_ctx w = Live \<Longrightarrow> find_row j (w_store w) = Some r \<Longrightarrow> workload (w_store w) \<le> n \<Longrightarrow>
    wp (Run W n) (\<lambda>_ u. leases j (w_trace w) < leases j (w_trace u) \<and> row_sat j (attended W (r_attempt r)) (w_store u)) w"
proof (induction n arbitrary: w)
  case 0
  then show ?case using leaseable_workload due by fastforce
next
  case (Suc n)
  show ?case
  proof (rule Run_step [OF al Suc.prems(1,2)])
    fix u
    assume u: "round_of W w u"
    have "r \<in> set (jobs (w_store w))" using find_row_Some [OF Suc.prems(3)] by simp
    then have "\<exists>i. round_spent W i w u" using u due by (auto simp: round_of_def filter_empty_conv)
    then obtain i where i: "round_spent W i w u" by blast
    have ok: "store_ok (w_store u)" "w_ctx u = Live" using u by (simp_all add: round_of_def)
    show "wp (Run W n) (\<lambda>_ u. leases j (w_trace w) < leases j (w_trace u) \<and> row_sat j (attended W (r_attempt r)) (w_store u)) u"
    proof (cases "i = j")
      case True
      then have "Suc (leases j (w_trace w)) \<le> leases j (w_trace u)" using i by (simp add: round_spent_def)
      moreover have "row_sat j (attended W (r_attempt r)) (w_store u)"
        using i True Suc.prems(3) by (auto simp: round_spent_def row_sat_def attended_def)
      ultimately show ?thesis using Run_attended [OF al ok, where K = "Suc (leases j (w_trace w))"] by (simp add: Suc_le_eq)
    next
      case False
      then have "find_row j (w_store u) = Some r" "leases j (w_trace u) = leases j (w_trace w)"
        using i Suc.prems(3) by (simp_all add: round_spent_def)
      moreover have "workload (w_store u) \<le> n" using spent_workload [OF Suc.prems(1) i] Suc.prems(4) by simp
      ultimately show ?thesis using Suc.IH [of u] ok by simp
    qed
  qed
qed

lemma workload_bound:
  assumes "store_ok s"
  shows "workload s \<le> nat maxAttempts * length (jobs s)"
proof -
  have "remaining r \<le> nat maxAttempts" if "r \<in> set (jobs s)" for r
    using that assms lease_ok_attempt [of r] by (auto simp: store_ok_def row_ok_def remaining_def maxAttempts_def)
  then have "sum_list (map remaining (jobs s)) \<le> sum_list (map (\<lambda>_. nat maxAttempts) (jobs s))"
    by (intro sum_list_mono) simp
  then show ?thesis by (simp add: workload_def sum_list_triv mult.commute)
qed

text \<open>
  No job waits for ever. Left alone with a database that answers, a worker that has made
  \<open>maxAttempts\<close> rounds for every job in the store has worked on each job that was due all
  along: it has leased it, and the attempt is over, with the job succeeded, failed or queued
  for one of the attempts it has left. Every round with a job due makes an attempt, and every
  attempt uses up one of the finitely many the policy allows, whatever Kubernetes and
  NodeVault answer and however often other jobs fail.
\<close>

theorem due_job_is_worked_on:
  assumes "alone W" and "store_ok (w_store w)" and "w_ctx w = Live" and "find_row j (w_store w) = Some r"
    and "\<forall>n. leaseable (rp_now (replies W n)) r" and "nat maxAttempts * length (jobs (w_store w)) \<le> n"
  shows "leases j (w_trace w) < leases j (w_trace (snd (run_state (Run W n) w))) \<and>
    (\<exists>r'. find_row j (w_store (snd (run_state (Run W n) w))) = Some r' \<and> r_attempt r < r_attempt r' \<and> r_lease_owner r' = '''' \<and>
      (r_status r' = StatusSucceeded \<or> r_status r' = StatusFailed \<or>
       r_status r' = StatusQueued \<and> r_attempt r' < maxAttempts))"
  using Run_serves [OF assms(1,5,2-4), of n] workload_bound [OF assms(2)] assms(6)
  by (auto simp: wp_run row_sat_def attended_def settled_def overtaken_def)

theorem due_job_is_worked_on_witness:
  "0 < leases ''job-1'' (w_trace (snd (run_state (Run (demo_worker []) 5) (demo_world demo_row))))"
proof -
  have "alone (demo_worker [])" using demo_env_ok by (simp add: alone_def demo_worker_def demo_reply_def)
  moreover have "\<forall>n. leaseable (rp_now (replies (demo_worker []) n)) demo_row"
    by (simp add: demo_worker_def demo_row_def new_row_def leaseable_def due_for_retry_def)
  ultimately show ?thesis
    using due_job_is_worked_on [of "demo_worker []" "demo_world demo_row" "''job-1''" demo_row 5]
      demo_store_ok [OF demo_row_ok] demo_find [of demo_row] by (simp add: maxAttempts_def demo_store_def)
qed

end
