(* ===== verification/Main_Cmd.thy ===== *)
theory Main_Cmd
  imports Store_Create
begin

text \<open>
  cmd/nodesentinel/main.go: the settings, the start-up sequence, the readiness decision with
  the HTTP endpoints, and the supervision of the process's loops.
\<close>

section \<open>Settings\<close>

text \<open>\<open>strconv.Atoi\<close> on 64-bit platforms; the error value is only logged.\<close>

fun digits_value :: "string \<Rightarrow> int \<Rightarrow> int" where
  "digits_value [] n = n"
| "digits_value (c # cs) n = digits_value cs (10 * n + int (digit_val c))"

definition Atoi :: "string \<Rightarrow> int option" where
  "Atoi s =
     (let (neg, ds) = (case s of c # cs \<Rightarrow> if c = CHR ''-'' then (True, cs) else if c = CHR ''+'' then (False, cs) else (False, s)
                       | [] \<Rightarrow> (False, []));
          n = (if neg then - digits_value ds 0 else digits_value ds 0)
      in if ds \<noteq> [] \<and> list_all isDigit ds \<and> in_int64 n then Some n else None)"

definition parsePort :: "(string \<Rightarrow> string) \<Rightarrow> string \<Rightarrow> int \<Rightarrow> int option" where
  "parsePort getenv envKey fallback =
     (let value = (if getenv envKey = '''' then Itoa fallback else getenv envKey)
      in case Atoi value of
           None \<Rightarrow> None
         | Some port \<Rightarrow> if port < 1 \<or> port > 65535 then None else Some port)"

definition grpcPort :: "(string \<Rightarrow> string) \<Rightarrow> int option" where
  "grpcPort getenv = parsePort getenv ''NODESENTINEL_GRPC_PORT'' 50052"

definition httpPort :: "(string \<Rightarrow> string) \<Rightarrow> int option" where
  "httpPort getenv = parsePort getenv ''NODESENTINEL_HTTP_PORT'' 8080"

text \<open>\<open>host\<close> is the answer of \<open>os.Hostname\<close>, \<open>rd\<close> that of \<open>crypto/rand\<close>.\<close>

definition workerIdentity :: "string option \<Rightarrow> string + (nat \<Rightarrow> 8 word) \<Rightarrow> string + string" where
  "workerIdentity host rd =
     (let h = (case host of Some x \<Rightarrow> if x = '''' then ''unknown-host'' else x | None \<Rightarrow> ''unknown-host'')
      in case rd of
           Inl e \<Rightarrow> Inl (''generate worker identity suffix: '' @ e)
         | Inr f \<Rightarrow> Inr (''nodesentinel-'' @ h @ ''-'' @ EncodeToString (rand_bytes f 6)))"

section \<open>Readiness and the HTTP endpoints\<close>

record readiness =
  workerEnabled :: bool
  workerRunning :: bool
  deliveryRunning :: bool

text \<open>\<^const>\<open>None\<close> when ready; the probe write happens only when both loops run.\<close>

definition check :: "readiness \<Rightarrow> faults \<Rightarrow> time \<Rightarrow> store \<Rightarrow> string option \<times> store" where
  "check r flt now s =
     (if \<not> workerEnabled r then (Some ''worker disabled: no Kubernetes client'', s)
      else if \<not> workerRunning r then (Some ''job worker loop is not running'', s)
      else if \<not> deliveryRunning r then (Some ''result delivery loop is not running'', s)
      else case CheckWritable flt now s of
             (Inl e, s') \<Rightarrow> (Some (''work store is not writable: '' @ store_error_text e), s')
           | (Inr _, s') \<Rightarrow> (None, s'))"

record response =
  status_code :: int
  body_text :: string

text \<open>
  The mux: \<open>http.Error\<close> ends its text with a newline, an unknown path is answered 404, and
  \<open>metricsHandler\<close> is the answer of the Prometheus handler.
\<close>

definition newHTTPServer ::
  "response \<Rightarrow> readiness \<Rightarrow> faults \<Rightarrow> time \<Rightarrow> string \<Rightarrow> store \<Rightarrow> response \<times> store" where
  "newHTTPServer metricsHandler r flt now path s =
     (if path = ''/healthz'' then (\<lparr>status_code = 200, body_text = ''ok''\<rparr>, s)
      else if path = ''/readyz''
      then (case check r flt now s of
              (Some e, s') \<Rightarrow> (\<lparr>status_code = 503, body_text = ''not ready: '' @ e @ [CHR 0x0A]\<rparr>, s')
            | (None, s') \<Rightarrow> (\<lparr>status_code = 200, body_text = ''ready''\<rparr>, s'))
      else if path = ''/metrics'' then (metricsHandler, s)
      else (\<lparr>status_code = 404, body_text = ''404 page not found'' @ [CHR 0x0A]\<rparr>, s))"

section \<open>Start-up\<close>

text \<open>What the steps of \<open>main\<close> answer, in the order it takes them; \<^const>\<open>None\<close> is no error.\<close>

record startup =
  su_getenv :: "string \<Rightarrow> string"
  su_metrics :: "string option"
  su_store :: "string \<Rightarrow> string option"
  su_kube :: "string option"
  su_listen :: "int \<Rightarrow> string option"
  su_dynamic :: "string option"
  su_host :: "string option"
  su_rand :: "string + (nat \<Rightarrow> 8 word)"

record wiring =
  wi_dbPath :: string
  wi_grpc :: int
  wi_http :: int
  wi_owner :: "string option"
  wi_dynamic :: bool

text \<open>\<open>Inl code\<close> is \<open>os.Exit\<close>; \<open>wi_owner\<close> is the worker's name, if there is a worker.\<close>

definition main_start :: "startup \<Rightarrow> int + wiring" where
  "main_start e =
     (let dbPath = (if su_getenv e ''NODESENTINEL_DB_PATH'' = '''' then ''./nodesentinel.db''
                    else su_getenv e ''NODESENTINEL_DB_PATH'')
      in case grpcPort (su_getenv e) of
           None \<Rightarrow> Inl 1
         | Some port \<Rightarrow>
      (case httpPort (su_getenv e) of
           None \<Rightarrow> Inl 1
         | Some httpPortNum \<Rightarrow>
       if su_metrics e \<noteq> None then Inl 1
       else if su_store e dbPath \<noteq> None then Inl 1
       else if su_listen e port \<noteq> None then Inl 1
       else if su_kube e \<noteq> None
       then Inr \<lparr>wi_dbPath = dbPath, wi_grpc = port, wi_http = httpPortNum, wi_owner = None, wi_dynamic = False\<rparr>
       else case workerIdentity (su_host e) (su_rand e) of
              Inl _ \<Rightarrow> Inl 1
            | Inr owner \<Rightarrow>
                Inr \<lparr>wi_dbPath = dbPath, wi_grpc = port, wi_http = httpPortNum, wi_owner = Some owner,
                     wi_dynamic = (su_dynamic e = None)\<rparr>))"

section \<open>Supervision\<close>

text \<open>
  The goroutines \<open>main\<close> hands to the errgroup, and what they return. \<open>sv_returned\<close> lists the
  returns in their order; a loop that returned is no longer live.
\<close>

datatype loop = WorkerLoop | DeliveryLoop | GrpcStop | GrpcServe | HttpStop | HttpServe

datatype loop_error = ErrCanceled | ErrServe string | ErrShutdown string

record supervisor =
  sv_signal :: bool
  sv_returned :: "(loop \<times> loop_error option) list"
  sv_live :: "loop list"
  sv_ready :: readiness

text \<open>
  The libraries: whether the group's context is canceled once its functions returned these
  results, what \<open>Wait\<close> returns then, and what \<open>Serve\<close> of the gRPC server may return while
  \<open>GracefulStop\<close> may have been called or not.
\<close>

record libraries =
  eg_canceled :: "loop_error option list \<Rightarrow> bool"
  eg_Wait :: "loop_error option list \<Rightarrow> loop_error option"
  grpc_Serve :: "bool \<Rightarrow> string option \<Rightarrow> bool"

definition supervised :: "wiring \<Rightarrow> supervisor" where
  "supervised wi =
     \<lparr>sv_signal = False, sv_returned = [],
      sv_live = (if wi_owner wi \<noteq> None then [WorkerLoop, DeliveryLoop] else []) @ [GrpcStop, GrpcServe, HttpStop, HttpServe],
      sv_ready = \<lparr>workerEnabled = (wi_owner wi \<noteq> None), workerRunning = False, deliveryRunning = False\<rparr>\<rparr>"

text \<open>\<open>gCtx\<close> derives from the context the signals cancel.\<close>

definition gctx_done :: "libraries \<Rightarrow> supervisor \<Rightarrow> bool" where
  "gctx_done L s \<longleftrightarrow> sv_signal s \<or> eg_canceled L (map snd (sv_returned s))"

text \<open>
  What a loop may return: the two worker loops only \<open>gCtx.Err()\<close>, the two stoppers only once
  \<open>gCtx\<close> is done, the gRPC server what \<open>Serve\<close> does, and the HTTP server nil only once it is
  shut down (\<open>ErrServerClosed\<close>) and otherwise an error.
\<close>

fun may_return :: "libraries \<Rightarrow> bool \<Rightarrow> loop \<Rightarrow> loop_error option \<Rightarrow> bool" where
  "may_return L dn WorkerLoop r \<longleftrightarrow> dn \<and> r = Some ErrCanceled"
| "may_return L dn DeliveryLoop r \<longleftrightarrow> dn \<and> r = Some ErrCanceled"
| "may_return L dn GrpcStop r \<longleftrightarrow> dn \<and> r = None"
| "may_return L dn GrpcServe r \<longleftrightarrow>
     (case r of None \<Rightarrow> grpc_Serve L dn None | Some (ErrServe e) \<Rightarrow> grpc_Serve L dn (Some e) | _ \<Rightarrow> False)"
| "may_return L dn HttpStop r \<longleftrightarrow> dn \<and> (case r of None \<Rightarrow> True | Some (ErrShutdown _) \<Rightarrow> True | _ \<Rightarrow> False)"
| "may_return L dn HttpServe r \<longleftrightarrow> (case r of None \<Rightarrow> dn | Some (ErrServe _) \<Rightarrow> True | _ \<Rightarrow> False)"

text \<open>The flags follow the two worker loops: set as the loop begins, cleared as it returns.\<close>

fun begins :: "loop \<Rightarrow> readiness \<Rightarrow> readiness" where
  "begins WorkerLoop r = r\<lparr>workerRunning := True\<rparr>"
| "begins DeliveryLoop r = r\<lparr>deliveryRunning := True\<rparr>"
| "begins _ r = r"

fun returns :: "loop \<Rightarrow> readiness \<Rightarrow> readiness" where
  "returns WorkerLoop r = r\<lparr>workerRunning := False\<rparr>"
| "returns DeliveryLoop r = r\<lparr>deliveryRunning := False\<rparr>"
| "returns _ r = r"

definition loop_returns :: "loop \<Rightarrow> loop_error option \<Rightarrow> supervisor \<Rightarrow> supervisor" where
  "loop_returns l r s =
     s\<lparr>sv_live := removeAll l (sv_live s), sv_ready := returns l (sv_ready s), sv_returned := sv_returned s @ [(l, r)]\<rparr>"

inductive sup_step :: "libraries \<Rightarrow> supervisor \<Rightarrow> supervisor \<Rightarrow> bool" for L where
  signal: "sup_step L s (s\<lparr>sv_signal := True\<rparr>)"
| loop_begins: "l \<in> set (sv_live s) \<Longrightarrow> sup_step L s (s\<lparr>sv_ready := begins l (sv_ready s)\<rparr>)"
| loop_ends: "l \<in> set (sv_live s) \<Longrightarrow> may_return L (gctx_done L s) l r \<Longrightarrow> sup_step L s (loop_returns l r s)"

text \<open>The exit status once \<open>g.Wait\<close> has returned.\<close>

definition exit_code :: "libraries \<Rightarrow> supervisor \<Rightarrow> int" where
  "exit_code L s =
     (case eg_Wait L (map snd (sv_returned s)) of None \<Rightarrow> 0 | Some ErrCanceled \<Rightarrow> 0 | Some _ \<Rightarrow> 1)"

section \<open>The invariant of the supervised process\<close>

text \<open>The flags tell which loops are live, whatever the libraries do.\<close>

definition sup_ok :: "wiring \<Rightarrow> supervisor \<Rightarrow> bool" where
  "sup_ok wi s \<longleftrightarrow>
     (workerEnabled (sv_ready s) \<longleftrightarrow> wi_owner wi \<noteq> None) \<and>
     (workerRunning (sv_ready s) \<longrightarrow> WorkerLoop \<in> set (sv_live s)) \<and>
     (deliveryRunning (sv_ready s) \<longrightarrow> DeliveryLoop \<in> set (sv_live s))"

lemma supervised_ok: "sup_ok wi (supervised wi)"
  by (simp add: sup_ok_def supervised_def)

lemma begins_ok: "sup_ok wi s \<Longrightarrow> l \<in> set (sv_live s) \<Longrightarrow> sup_ok wi (s\<lparr>sv_ready := begins l (sv_ready s)\<rparr>)"
  by (cases l) (auto simp: sup_ok_def)

lemma returns_ok: "sup_ok wi s \<Longrightarrow> sup_ok wi (loop_returns l r s)"
  by (cases l) (auto simp: sup_ok_def loop_returns_def)

interpretation sup_inv: invariant_system "sup_step L" "sup_ok wi" for L wi
proof unfold_locales
  show "sup_ok wi s'" if "sup_ok wi s" "sup_step L s s'" for s s'
    using that(2)
  proof cases
    case signal
    then show ?thesis using that(1) by (simp add: sup_ok_def)
  next
    case (loop_begins l)
    then show ?thesis using begins_ok [OF that(1)] by simp
  next
    case (loop_ends l r)
    then show ?thesis using returns_ok [OF that(1)] by simp
  qed
qed

lemma supervised_reach: "(sup_step L)\<^sup>*\<^sup>* (supervised wi) s \<Longrightarrow> sup_ok wi s"
  using sup_inv.inv_reach supervised_ok by blast

text \<open>
  What the libraries document. An errgroup cancels its context the first time a function
  returns a non-nil error, and \<open>Wait\<close> returns the first non-nil error. \<open>Serve\<close> returns a
  non-nil error unless \<open>Stop\<close> or \<open>GracefulStop\<close> is called.
\<close>

definition libraries_ok :: "libraries \<Rightarrow> bool" where
  "libraries_ok L \<longleftrightarrow>
     (\<forall>rs. eg_canceled L rs \<longleftrightarrow> (\<exists>e. Some e \<in> set rs)) \<and>
     (\<forall>rs. eg_Wait L rs = (case find (\<lambda>r. r \<noteq> None) rs of None \<Rightarrow> None | Some r \<Rightarrow> r)) \<and>
     \<not> grpc_Serve L False None"

text \<open>The first return that is an error.\<close>

abbreviation first_failure :: "supervisor \<Rightarrow> (loop \<times> loop_error option) option" where
  "first_failure s \<equiv> find (\<lambda>x. snd x \<noteq> None) (sv_returned s)"

lemma no_failure_iff: "first_failure s = None \<longleftrightarrow> \<not> (\<exists>e. Some e \<in> set (map snd (sv_returned s)))"
  unfolding find_None_iff set_map image_iff by (metis option.distinct(1) option.exhaust)

lemma find_map_snd: "find (\<lambda>r. r \<noteq> None) (map snd xs) = map_option snd (find (\<lambda>x. snd x \<noteq> None) xs)"
  by (induction xs) simp_all

lemma find_snoc: "find P (xs @ [x]) = (case find P xs of None \<Rightarrow> if P x then Some x else None | Some y \<Rightarrow> Some y)"
  by (induction xs) simp_all

text \<open>A canceled context as the first failure means that a signal came; the gRPC stopper waits for one or for a failure.\<close>

definition stop_ok :: "supervisor \<Rightarrow> bool" where
  "stop_ok s \<longleftrightarrow> (\<forall>l. first_failure s = Some (l, Some ErrCanceled) \<longrightarrow> sv_signal s) \<and>
     (GrpcStop \<notin> set (sv_live s) \<longrightarrow> sv_signal s \<or> first_failure s \<noteq> None)"

lemma gctx_done_iff: "libraries_ok L \<Longrightarrow> gctx_done L s \<longleftrightarrow> sv_signal s \<or> first_failure s \<noteq> None"
  unfolding no_failure_iff gctx_done_def libraries_ok_def by blast

lemma ends_stop_ok:
  assumes "stop_ok s" and "may_return L (sv_signal s \<or> first_failure s \<noteq> None) l r"
  shows "stop_ok (loop_returns l r s)"
proof (cases "first_failure s")
  case None
  then show ?thesis using assms
    by (cases l) (auto simp: stop_ok_def loop_returns_def find_snoc split: option.splits loop_error.splits)
next
  case (Some x)
  then show ?thesis using assms(1) by (auto simp: stop_ok_def loop_returns_def find_snoc)
qed

lemma stop_reach:
  assumes "libraries_ok L" and "(sup_step L)\<^sup>*\<^sup>* (supervised wi) s"
  shows "stop_ok s"
  using assms(2)
proof (induction rule: rtranclp_induct)
  case base
  then show ?case by (simp add: stop_ok_def supervised_def)
next
  case (step s t)
  from step.hyps(2) show ?case
  proof cases
    case (loop_ends l r)
    then show ?thesis using ends_stop_ok [OF step.IH] gctx_done_iff [OF assms(1), of s] by simp
  qed (use step.IH in \<open>auto simp: stop_ok_def\<close>)
qed

text \<open>
  C30: the process never stops quietly. Once every supervised loop has returned, the exit
  status is 1 if the first loop that returned an error returned one of its own, whatever
  the others returned afterwards and whether or not a signal came as well, and 0 if the first
  error was the cancellation or there was none. A loop can end first by the cancellation only
  after a termination signal, so without a signal the status is 1.
\<close>

theorem exit_zero_only_on_signal:
  assumes L: "libraries_ok L" and run: "(sup_step L)\<^sup>*\<^sup>* (supervised wi) s" and "sv_live s = []"
  shows "exit_code L s =
      (case find (\<lambda>x. snd x \<noteq> None) (sv_returned s) of None \<Rightarrow> 0 | Some x \<Rightarrow> if snd x = Some ErrCanceled then 0 else 1) \<and>
    (sv_signal s \<or> exit_code L s = 1)"
proof -
  have "eg_Wait L rs = (case find (\<lambda>r. r \<noteq> None) rs of None \<Rightarrow> None | Some r \<Rightarrow> r)" for rs
    using L unfolding libraries_ok_def by blast
  then have wait: "eg_Wait L (map snd (sv_returned s)) = (case first_failure s of None \<Rightarrow> None | Some x \<Rightarrow> snd x)"
    by (cases "first_failure s") (simp_all only: find_map_snd option.simps)
  have code: "exit_code L s = (case first_failure s of None \<Rightarrow> 0 | Some x \<Rightarrow> if snd x = Some ErrCanceled then 0 else 1)"
  proof (cases "first_failure s")
    case None
    then show ?thesis unfolding exit_code_def wait by simp
  next
    case (Some x)
    then have "snd x \<noteq> None" by (metis (mono_tags, lifting) find_Some_iff)
    then obtain e where "snd x = Some e" by blast
    then show ?thesis unfolding exit_code_def wait Some by (cases e) simp_all
  qed
  have "stop_ok s" by (rule stop_reach [OF L run])
  then have "sv_signal s \<or> exit_code L s = 1"
    unfolding code using assms(3) by (cases "first_failure s") (auto simp: stop_ok_def split: prod.splits)
  then show ?thesis using code by simp
qed

text \<open>A process without a worker: the gRPC server fails, then a signal comes, and everything stops.\<close>

definition demo_libraries :: libraries where
  "demo_libraries = \<lparr>eg_canceled = list_ex (\<lambda>r. r \<noteq> None),
     eg_Wait = (\<lambda>rs. case find (\<lambda>r. r \<noteq> None) rs of None \<Rightarrow> None | Some r \<Rightarrow> r), grpc_Serve = (\<lambda>stopped r. r = None \<longrightarrow> stopped)\<rparr>"

lemma demo_libraries_ok: "libraries_ok demo_libraries"
  by (auto simp: libraries_ok_def demo_libraries_def list_ex_iff)

definition demo_wiring :: wiring where
  "demo_wiring = \<lparr>wi_dbPath = ''db'', wi_grpc = 50052, wi_http = 8080, wi_owner = None, wi_dynamic = False\<rparr>"

definition demo_failed :: supervisor where
  "demo_failed = (loop_returns GrpcServe (Some (ErrServe ''accept'')) (supervised demo_wiring))\<lparr>sv_signal := True\<rparr>"

definition demo_stopped :: supervisor where
  "demo_stopped = fold (\<lambda>l. loop_returns l None) [GrpcStop, HttpStop, HttpServe] demo_failed"

lemma demo_stops: "(sup_step demo_libraries)\<^sup>*\<^sup>* (supervised demo_wiring) demo_stopped"
proof -
  have ends: "sup_step L s (loop_returns l None s)" if "sv_signal s" "l \<in> set (sv_live s)" "l \<in> {GrpcStop, HttpStop, HttpServe}" for L s l
    using that by (intro sup_step.loop_ends) (cases l; simp add: gctx_done_def)+
  have all: "(sup_step L)\<^sup>*\<^sup>* s (fold (\<lambda>l. loop_returns l None) ls s)"
    if "sv_signal s" "set ls \<subseteq> set (sv_live s)" "distinct ls" "set ls \<subseteq> {GrpcStop, HttpStop, HttpServe}" for L s ls
    using that
  proof (induction ls arbitrary: s)
    case (Cons l ls)
    have "sup_step L s (loop_returns l None s)" using Cons.prems by (intro ends) auto
    moreover have "(sup_step L)\<^sup>*\<^sup>* (loop_returns l None s) (fold (\<lambda>l. loop_returns l None) ls (loop_returns l None s))"
      using Cons.prems by (intro Cons.IH) (auto simp: loop_returns_def)
    ultimately show ?case by (simp add: converse_rtranclp_into_rtranclp)
  qed simp
  let ?s = "supervised demo_wiring" and ?t = "loop_returns GrpcServe (Some (ErrServe ''accept'')) (supervised demo_wiring)"
  have "sup_step demo_libraries ?s ?t"
    by (rule sup_step.loop_ends) (simp_all add: supervised_def demo_libraries_def)
  moreover have "sup_step demo_libraries ?t demo_failed" unfolding demo_failed_def by (rule sup_step.signal)
  moreover have "(sup_step demo_libraries)\<^sup>*\<^sup>* demo_failed demo_stopped"
    unfolding demo_stopped_def by (rule all) (simp_all add: demo_failed_def loop_returns_def supervised_def demo_wiring_def)
  ultimately show ?thesis by (meson converse_rtranclp_into_rtranclp)
qed

lemma demo_stopped_returned:
  "sv_live demo_stopped = []"
  "sv_returned demo_stopped = [(GrpcServe, Some (ErrServe ''accept'')), (GrpcStop, None), (HttpStop, None), (HttpServe, None)]"
  by code_simp+

theorem exit_zero_only_on_signal_witness: "exit_code demo_libraries demo_stopped = 1"
  using exit_zero_only_on_signal [OF demo_libraries_ok demo_stops] demo_stopped_returned by simp

text \<open>
  C29: the readiness endpoint tells the truth. Whenever it answers 200 the process has a
  worker, the job loop and the delivery loop are both live, and the store has just committed
  a write that changed no job. Otherwise it answers 503, and then one of these fails or the
  write did.
\<close>

theorem readyz_truthful:
  assumes "(sup_step L)\<^sup>*\<^sup>* (supervised wi) s" and "newHTTPServer mh (sv_ready s) flt now ''/readyz'' st = (resp, st')"
  shows "if status_code resp = 200
    then wi_owner wi \<noteq> None \<and> WorkerLoop \<in> set (sv_live s) \<and> DeliveryLoop \<in> set (sv_live s) \<and>
      CheckWritable flt now st = (Inr (), st') \<and> jobs st' = jobs st
    else status_code resp = 503 \<and> st' = st \<and>
      (wi_owner wi = None \<or> \<not> workerRunning (sv_ready s) \<or> \<not> deliveryRunning (sv_ready s) \<or> (\<exists>e. CheckWritable flt now st = (Inl e, st)))"
  using supervised_reach [OF assms(1)] assms(2)
  by (auto simp: newHTTPServer_def check_def sup_ok_def CheckWritable_def split: if_splits option.splits)

definition demo_working :: supervisor where
  "demo_working = (supervised (demo_wiring\<lparr>wi_owner := Some ''w1''\<rparr>))
     \<lparr>sv_ready := \<lparr>workerEnabled = True, workerRunning = True, deliveryRunning = True\<rparr>\<rparr>"

lemma demo_works: "(sup_step demo_libraries)\<^sup>*\<^sup>* (supervised (demo_wiring\<lparr>wi_owner := Some ''w1''\<rparr>)) demo_working"
proof -
  let ?s = "supervised (demo_wiring\<lparr>wi_owner := Some ''w1''\<rparr>)"
  let ?t = "?s\<lparr>sv_ready := begins WorkerLoop (sv_ready ?s)\<rparr>"
  have "sup_step demo_libraries ?s ?t" by (rule sup_step.loop_begins) (simp add: supervised_def)
  moreover have "sup_step demo_libraries ?t (?t\<lparr>sv_ready := begins DeliveryLoop (sv_ready ?t)\<rparr>)"
    by (rule sup_step.loop_begins) (simp add: supervised_def)
  moreover have "?t\<lparr>sv_ready := begins DeliveryLoop (sv_ready ?t)\<rparr> = demo_working"
    by (simp add: demo_working_def supervised_def)
  ultimately show ?thesis by (metis converse_rtranclp_into_rtranclp rtranclp.rtrancl_refl)
qed

theorem readyz_truthful_witness:
  "\<exists>st'. newHTTPServer \<lparr>status_code = 200, body_text = ''''\<rparr> (sv_ready demo_working) no_faults 0 ''/readyz'' empty_store
      = (\<lparr>status_code = 200, body_text = ''ready''\<rparr>, st') \<and> jobs st' = jobs empty_store"
proof -
  obtain st' where "newHTTPServer \<lparr>status_code = 200, body_text = ''''\<rparr> (sv_ready demo_working) no_faults 0 ''/readyz'' empty_store
      = (\<lparr>status_code = 200, body_text = ''ready''\<rparr>, st')"
    by (simp add: newHTTPServer_def check_def demo_working_def CheckWritable_def no_faults_def)
  with readyz_truthful [OF demo_works this] show ?thesis by simp
qed

section \<open>Facts on the settings\<close>

lemma digits_value_itoa: "0 \<le> n \<Longrightarrow> digits_value (itoa n) m = m * 10 ^ length (itoa n) + n"
proof (induction n arbitrary: m rule: itoa.induct)
  case (1 n)
  have app: "digits_value (xs @ ys) k = digits_value ys (digits_value xs k)" for xs ys k
    by (induction xs arbitrary: k) simp_all
  show ?case
  proof (cases "n < 10")
    case True
    with 1 show ?thesis by (subst itoa.simps) (simp add: itoa.simps [of n])
  next
    case False
    with 1 show ?thesis by (subst (1 2) itoa.simps) (simp add: app algebra_simps)
  qed
qed

lemma port_in_range: "parsePort getenv key fallback = Some p \<Longrightarrow> 1 \<le> p \<and> p \<le> 65535"
  by (auto simp: parsePort_def Let_def split: option.splits if_splits)

lemma Atoi_Itoa:
  assumes "in_int64 n"
  shows "Atoi (Itoa n) = Some n"
proof -
  have hd: "\<exists>c cs. itoa k = c # cs \<and> c \<noteq> CHR ''-'' \<and> c \<noteq> CHR ''+''" for k
  proof -
    obtain c cs where c: "itoa k = c # cs" using itoa_ne [of k] by (cases "itoa k") auto
    then have "isDigit c" using itoa_digits [of c k] by simp
    then show ?thesis using c by (auto simp: isDigit_def)
  qed
  have all: "list_all isDigit (itoa k)" for k using itoa_digits by (auto simp: list_all_iff)
  show ?thesis
  proof (cases "n < 0")
    case True
    then show ?thesis using assms all [of "- n"] by (simp add: Atoi_def Itoa_def digits_value_itoa)
  next
    case False
    obtain c cs where c: "itoa n = c # cs" "c \<noteq> CHR ''-''" "c \<noteq> CHR ''+''" using hd by blast
    then have "Atoi (Itoa n) = (if in_int64 (digits_value (itoa n) 0) then Some (digits_value (itoa n) 0) else None)"
      using False all [of n] by (simp add: Atoi_def Itoa_def)
    then show ?thesis using False assms by (simp add: digits_value_itoa)
  qed
qed

text \<open>A port that is set to a number, or not set at all, is that number or the default.\<close>

lemma parsePort_set:
  assumes "1 \<le> p" and "p \<le> 65535" and "getenv key = Itoa p \<or> getenv key = '''' \<and> fallback = p"
  shows "parsePort getenv key fallback = Some p"
proof -
  have "in_int64 p" using assms(1,2) by (simp add: in_int64_def)
  moreover have "Itoa p \<noteq> ''''" by (simp add: Itoa_def)
  ultimately show ?thesis using assms Atoi_Itoa [of p] by (auto simp: parsePort_def)
qed

lemma workerIdentity_distinct:
  "workerIdentity h (Inr f) = workerIdentity h (Inr g) \<longleftrightarrow> rand_bytes f 6 = rand_bytes g 6"
proof -
  have "length (rand_bytes f 6) = length (rand_bytes g 6)" by (simp add: rand_bytes_def)
  then show ?thesis using EncodeToString_inject by (auto simp: workerIdentity_def)
qed

end
