(* ===== verification/Node_System.thy ===== *)
theory Node_System
  imports Ingress Delivery_Loop Worker_Retries Main_Cmd
begin

text \<open>
  The running process (cmd/nodesentinel): ingress handlers, worker loops, the delivery loop
  and the readiness probe at one store. Each of them is a sequence of valid calls of the
  store, so what the store promises holds for the process.
\<close>

section \<open>Steps of the process\<close>

text \<open>
  Each step is a part of the process running for a while, with everything it does not decide
  arbitrary. A step of the worker or of the delivery loop includes what the other parts and
  other processes did at the store meanwhile.
\<close>

inductive system_step :: "store \<Rightarrow> store \<Rightarrow> bool" where
  enqueue: "ts_ok now \<Longrightarrow> system_step s (snd (EnqueueValidationWork H order jobID flt now req s))"
| worker: "env_ok W \<Longrightarrow> w_store w = s \<Longrightarrow> system_step s (w_store (snd (run_state (Run W n) w)))"
| deliver: "list_all tick_ok ts \<Longrightarrow> system_step s (RunDeliveryLoop hasVault decode ts s)"
| probe: "ts_ok now \<Longrightarrow> system_step s (snd (newHTTPServer metricsHandler rd flt now path s))"

inductive_cases system_stepE: "system_step s t"

lemma enqueue_reach:
  assumes "ts_ok now"
  shows "store_step\<^sup>*\<^sup>* s (snd (EnqueueValidationWork H order jobID flt now req s))"
proof (cases "\<exists>r. req = Some r \<and> validate order r = None")
  case True
  then obtain r where r: "req = Some r" "validate order r = None" by blast
  have "store_step\<^sup>*\<^sup>* s (snd (CreateJob H flt now (job_request jobID r) s))"
    using assms by (intro call_reach [of "CallCreateJob H flt now (job_request jobID r)"]) simp_all
  moreover have "snd (EnqueueValidationWork H order jobID flt now req s) = snd (CreateJob H flt now (job_request jobID r) s)"
    using r by (auto simp: EnqueueValidationWork_def split: prod.splits sum.splits store_error.splits)
  ultimately show ?thesis by simp
qed (auto simp: EnqueueValidationWork_def split: option.splits)

lemma probe_reach:
  assumes "ts_ok now"
  shows "store_step\<^sup>*\<^sup>* s (snd (newHTTPServer metricsHandler rd flt now path s))"
proof -
  have "store_step\<^sup>*\<^sup>* s (snd (CheckWritable flt now s))"
    using assms by (intro call_reach [of "CallCheckWritable flt now"]) simp_all
  then show ?thesis by (auto simp: newHTTPServer_def check_def split: prod.splits sum.splits option.splits)
qed

lemma worker_reach: "env_ok W \<Longrightarrow> store_step\<^sup>*\<^sup>* (w_store w) (w_store (snd (run_state (Run W n) w)))"
  using reach.Run_keeps [of W "w_store w" w n] by (simp add: wp_run)

lemma system_step_reach: "system_step s t \<Longrightarrow> store_step\<^sup>*\<^sup>* s t"
  by (erule system_stepE) (auto intro: enqueue_reach worker_reach RunDeliveryLoop_reach probe_reach)

lemma system_reach: "system_step\<^sup>*\<^sup>* s t \<Longrightarrow> store_step\<^sup>*\<^sup>* s t"
  by (induction rule: rtranclp_induct) (auto intro: rtranclp_trans system_step_reach)

lemma system_ok: "store_ok s \<Longrightarrow> system_step\<^sup>*\<^sup>* s t \<Longrightarrow> store_ok t"
  using system_reach store_inv.inv_reach by blast

text \<open>What an accepted request has done.\<close>

lemma accepted_creates:
  assumes "store_ok s" and "ts_ok now" and perm: "\<And>fs. set (order fs) = set fs"
    and accepted: "EnqueueValidationWork H order jobID flt now (Some req) s = (Inr resp, s')"
  shows "store_ok s'" and "\<exists>job. CreateJob H flt now (job_request jobID req) s = (Inr job, s') \<and> JobID job = pb_JobId resp"
    and "req_ValidationRequestID (job_request jobID req) \<noteq> ''''"
proof -
  show "store_ok s'"
    using system_ok [OF assms(1) r_into_rtranclp [of system_step, OF system_step.enqueue [OF assms(2)]]] accepted by (metis snd_conv)
  show "\<exists>job. CreateJob H flt now (job_request jobID req) s = (Inr job, s') \<and> JobID job = pb_JobId resp"
    using accepted by (auto simp: Enqueue_Inr)
  have "acceptable req" using accepted validate_None [of order req, OF perm] by (auto simp: Enqueue_Inr)
  then show "req_ValidationRequestID (job_request jobID req) \<noteq> ''''" by (auto simp: acceptable_def job_request_def)
qed

section \<open>Reading what the process wrote\<close>

lemma GetJob_reads:
  assumes "store_ok s" and "find_row j s = Some r"
  shows "\<exists>job. GetJob no_faults n j s = Inr job \<and> JobID job = j \<and> JobStatus job = r_status r \<and>
    RequestedActions job = r_requested_actions r \<and> Attempt job = r_attempt r"
proof -
  have "stamps_ok r" using store_ok_row [OF assms] by (simp add: row_ok_def)
  then show ?thesis
    by (rule scanJob_ok) (use assms(2) find_row_Some [OF assms(2)] in \<open>auto simp: GetJob_def no_faults_def\<close>)
qed

lemma scan_all_reads: "\<forall>r \<in> set rs. stamps_ok r \<Longrightarrow> \<exists>js. scan_all rs = Inr js \<and> map JobID js = map r_job_id rs"
proof (induction rs)
  case (Cons r rs)
  then obtain js where "scan_all rs = Inr js" "map JobID js = map r_job_id rs" by auto
  moreover obtain job where "scanJob r = Inr job" "JobID job = r_job_id r"
    using Cons.prems scanJob_ok [of r] by (metis list.set_intros(1))
  ultimately show ?case by simp
qed simp

lemma ListJobs_reads:
  assumes "store_ok s"
  shows "\<exists>js. ListJobs no_faults st s = Inr js \<and> mset (map JobID js) =
    mset (map r_job_id (filter (\<lambda>r. case st of None \<Rightarrow> True | Some x \<Rightarrow> r_status r = x) (jobs s)))"
proof -
  let ?f = "filter (\<lambda>r. case st of None \<Rightarrow> True | Some x \<Rightarrow> r_status r = x) (jobs s)"
  have "\<forall>r \<in> set (sort_key r_created_at ?f). stamps_ok r" using assms by (auto simp: store_ok_def row_ok_def)
  from scan_all_reads [OF this] obtain js where js: "scan_all (sort_key r_created_at ?f) = Inr js"
    "map JobID js = map r_job_id (sort_key r_created_at ?f)" by blast
  have "mset (map JobID js) = mset (map r_job_id ?f)" using js(2) by (metis mset_map mset_sort)
  then show ?thesis using js(1) by (auto simp: ListJobs_def no_faults_def)
qed

end
