(* ===== verification/Worker_Release.thy ===== *)
theory Worker_Release
  imports Worker_Safety
begin

text \<open>
  When an attempt releases an execution identity. A released identity lets the next
  attempt start a second Job, so the release must not come while the first may still run.
\<close>

section \<open>What an attempt knows of a Job\<close>

text \<open>
  From the trace, newest event first. A Job may be running from the moment the attempt
  asked for it or saw it, until it is seen finished or absent. A refused creation shows
  that nothing runs under the name, unless something already might.
\<close>

datatype job_view = Unseen | MaybeRunning | Stopped

fun view :: "string \<Rightarrow> event list \<Rightarrow> job_view" where
  "view n [] = Unseen"
| "view n (EvCreate m res # tr) =
     (if m \<noteq> n then view n tr
      else case res of
        Some e \<Rightarrow> if createRejected e \<and> view n tr \<noteq> MaybeRunning then Stopped else MaybeRunning
      | None \<Rightarrow> MaybeRunning)"
| "view n (EvGet m res # tr) =
     (if m \<noteq> n then view n tr
      else case res of
        Inr conds \<Rightarrow> if decisive conds \<noteq> None then Stopped else MaybeRunning
      | Inl e \<Rightarrow> if IsNotFound e then Stopped else view n tr)"
| "view n (_ # tr) = view n tr"

definition minted :: "Job \<Rightarrow> event list \<Rightarrow> bool" where
  "minted job tr \<longleftrightarrow> EvEnsure (JobID job) (Inr (ExecutionID job, False)) \<in> set tr"

definition safe_release :: "Job \<Rightarrow> event list \<Rightarrow> bool" where
  "safe_release job tr \<longleftrightarrow> view (smokeJobName job) tr \<noteq> MaybeRunning \<and> view (l5aJobName job) tr \<noteq> MaybeRunning \<and>
     (minted job tr \<or> view (smokeJobName job) tr = Stopped \<or> view (l5aJobName job) tr = Stopped)"

text \<open>The exception: the L5-a Job was there, and creating it again was refused.\<close>

fun refused_again :: "Job \<Rightarrow> event list \<Rightarrow> bool" where
  "refused_again job (EvCreate n (Some e) # tr) =
     (n = l5aJobName job \<and> createRejected e \<and> view n tr = MaybeRunning \<and> view (smokeJobName job) tr \<noteq> MaybeRunning)"
| "refused_again job _ = False"

fun releases_ok :: "Job \<Rightarrow> event list \<Rightarrow> bool" where
  "releases_ok job [] = True"
| "releases_ok job (EvRelease i x # tr) =
     ((safe_release (job\<lparr>ExecutionID := i\<rparr>) tr \<or> refused_again (job\<lparr>ExecutionID := i\<rparr>) tr) \<and> releases_ok job tr)"
| "releases_ok job (_ # tr) = releases_ok job tr"

lemma names_differ: "smokeJobName job \<noteq> l5aJobName job"
  by (simp add: smokeJobName_def l5aJobName_def)

section \<open>Calls that change no view\<close>

fun viewless :: "event \<Rightarrow> bool" where
  "viewless (EvCreate _ _) = False"
| "viewless (EvGet _ _) = False"
| "viewless (EvRelease _ _) = False"
| "viewless _ = True"

lemma viewless_view: "viewless e \<Longrightarrow> view n (e # tr) = view n tr"
  by (cases e) simp_all

lemma viewless_releases: "viewless e \<Longrightarrow> releases_ok job (e # tr) = releases_ok job tr"
  by (cases e) simp_all

text \<open>
  \<open>released job m P w\<close>: the releases so far were right, \<open>P\<close> holds of the views of the
  identity's two Jobs, and if \<open>m\<close> this attempt minted the identity.
\<close>

definition released :: "Job \<Rightarrow> bool \<Rightarrow> (job_view \<Rightarrow> job_view \<Rightarrow> bool) \<Rightarrow> world \<Rightarrow> bool" where
  "released job m P w \<longleftrightarrow> releases_ok job (w_trace w) \<and>
     P (view (smokeJobName job) (w_trace w)) (view (l5aJobName job) (w_trace w)) \<and> (m \<longrightarrow> minted job (w_trace w))"

lemma released_mono: "released job m P w \<Longrightarrow> (\<And>s l. P s l \<Longrightarrow> Q s l) \<Longrightarrow> released job m Q w"
  by (auto simp: released_def)

lemma store_released:
  "released job m P w \<Longrightarrow> (\<And>x. viewless (ev x)) \<Longrightarrow> wp (store_op W bg f ev) (\<lambda>_. released job m P) w"
  by (intro wp_store_op) (simp_all add: released_def viewless_view viewless_releases minted_def)

lemma remote_released:
  "released job m P w \<Longrightarrow> (\<And>x. viewless (ev x)) \<Longrightarrow> wp (remote_op W bg f dead ev) (\<lambda>_. released job m P) w"
  by (intro wp_remote_op) (simp_all add: released_def viewless_view viewless_releases minted_def)

lemma pure_released:
  assumes "released job m P w"
  shows "wp (sample W) (\<lambda>_. released job m P) w" "wp (inc W k) (\<lambda>_. released job m P) w" "wp lose (\<lambda>_. released job m P) w"
  using assms by (simp_all add: wp_sample wp_inc wp_lose released_def minted_def)

lemmas released_ops = store_released [THEN wp_mono] remote_released [THEN wp_mono] pure_released [THEN wp_mono]

lemma stillLeased_released: "released job m P w \<Longrightarrow> wp (stillLeased W j) (\<lambda>_. released job m P) w"
  unfolding stillLeased_def heartbeat_def do_Heartbeat_def by (intro wp_rules released_ops) auto

lemma heartbeat_released: "released job m P w \<Longrightarrow> wp (heartbeat W j) (\<lambda>_. released job m P) w"
  unfolding heartbeat_def do_Heartbeat_def by (intro wp_rules released_ops) auto

lemma submit_released:
  assumes "released job m P w"
  shows "wp (submitCheckRecord W j sub) (\<lambda>_. released job m P) w" "wp (submitScanRecord W j req) (\<lambda>_. released job m P) w"
  using assms unfolding submitCheckRecord_def submitScanRecord_def claimTerminal_def store_calls remote_calls
  by (intro wp_rules stillLeased_released [THEN wp_mono] released_ops; simp)+

lemma quiet_released:
  assumes "released job m P w"
  shows "wp (deleteJob W n) (\<lambda>_. released job m P) w" "wp (list_pods W n) (\<lambda>_. released job m P) w"
    "wp (list_reports W) (\<lambda>_. released job m P) w" "wp (runDryRun W n) (\<lambda>_. released job m P) w"
    "wp (do_FailJob W j d) (\<lambda>_. released job m P) w" "wp (do_CompleteJob W j summary) (\<lambda>_. released job m P) w"
  using assms unfolding store_calls remote_calls by (auto intro!: store_released remote_released)

lemmas released_rules = pure_released [THEN wp_mono] heartbeat_released [THEN wp_mono]
  stillLeased_released [THEN wp_mono] submit_released [THEN wp_mono] quiet_released [THEN wp_mono]

section \<open>Calls that change a view\<close>

definition settles :: "api_error + job_condition list \<Rightarrow> bool" where
  "settles res = (case res of Inl e \<Rightarrow> IsNotFound e | Inr conds \<Rightarrow> decisive conds \<noteq> None)"

lemma ctx_error_kind [simp]: "\<not> IsNotFound ctx_error" "\<not> createRejected ctx_error" "\<not> IsAlreadyExists ctx_error"
  by (simp_all add: IsNotFound_def createRejected_def IsAlreadyExists_def ctx_error_def)

lemma get_smoke:
  "released job m (\<lambda>_. P) w \<Longrightarrow>
     wp (get_job W bg (smokeJobName job)) (\<lambda>res. released job m (\<lambda>s l. P l \<and> (settles res \<longrightarrow> s = Stopped))) w"
  unfolding get_job_def using names_differ [of job]
  by (intro wp_remote_op) (auto simp: released_def settles_def minted_def split: sum.splits)

lemma get_l5a:
  "released job m (\<lambda>s l. P s) w \<Longrightarrow>
     wp (get_job W bg (l5aJobName job)) (\<lambda>res. released job m (\<lambda>s l. P s \<and> (settles res \<longrightarrow> l = Stopped))) w"
  unfolding get_job_def using names_differ [of job]
  by (intro wp_remote_op) (auto simp: released_def settles_def minted_def split: sum.splits)

lemma create_smoke:
  "released job m (\<lambda>s l. P l \<and> (q \<longrightarrow> s \<noteq> MaybeRunning)) w \<Longrightarrow>
     wp (create_job W (smokeJobName job))
       (\<lambda>res. released job m (\<lambda>s l. P l \<and> (\<forall>e. q \<longrightarrow> res = Some e \<longrightarrow> createRejected e \<longrightarrow> s = Stopped))) w"
  unfolding create_job_def using names_differ [of job]
  by (intro wp_remote_op) (auto simp: released_def minted_def split: option.splits)

lemma create_l5a:
  "released job m (\<lambda>s l. s \<noteq> MaybeRunning) w \<Longrightarrow>
     wp (create_job W (l5aJobName job)) (\<lambda>res w'. released job m (\<lambda>s l. s \<noteq> MaybeRunning) w' \<and>
       (\<forall>e. res = Some e \<longrightarrow> createRejected e \<longrightarrow> safe_release job (w_trace w') \<or> refused_again job (w_trace w'))) w"
  unfolding create_job_def using names_differ [of job]
  by (intro wp_remote_op) (auto simp: released_def minted_def safe_release_def split: option.splits)

lemma release_released:
  "released job m P w \<Longrightarrow> safe_release job (w_trace w) \<or> refused_again job (w_trace w) \<Longrightarrow>
     wp (markExecutionTerminal W bg job) (\<lambda>_. released job m P) w"
  unfolding markExecutionTerminal_def do_MarkExecutionTerminal_def
  by (intro wp_rules wp_store_op) (auto simp: released_def minted_def)

lemma release_safe:
  "released job m P w \<Longrightarrow> (\<And>s l. P s l \<Longrightarrow> s \<noteq> MaybeRunning \<and> l \<noteq> MaybeRunning \<and> (m \<or> s = Stopped \<or> l = Stopped)) \<Longrightarrow>
     wp (markExecutionTerminal W bg job) (\<lambda>_. released job m P) w"
  by (rule release_released) (auto simp: released_def safe_release_def)

section \<open>The smoke-run\<close>

lemma exists_smoke:
  "released job m (\<lambda>_. P) w \<Longrightarrow> wp (job_exists W bg (smokeJobName job))
     (\<lambda>found. released job m (\<lambda>s l. P l \<and> (found = Inr False \<longrightarrow> s = Stopped))) w"
  unfolding job_exists_def
  by (intro wp_rules get_smoke [THEN wp_mono]) (auto simp: settles_def elim!: released_mono split: sum.splits if_splits)

lemma exists_l5a:
  "released job m (\<lambda>s l. P s) w \<Longrightarrow> wp (job_exists W bg (l5aJobName job))
     (\<lambda>found. released job m (\<lambda>s l. P s \<and> (found = Inr False \<longrightarrow> l = Stopped))) w"
  unfolding job_exists_def
  by (intro wp_rules get_l5a [THEN wp_mono]) (auto simp: settles_def elim!: released_mono split: sum.splits if_splits)

lemma confirm_smoke:
  "released job m (\<lambda>_. P) w \<Longrightarrow> wp (confirm_gone W (smokeJobName job) n)
     (\<lambda>r. released job m (\<lambda>s l. P l \<and> (r = None \<longrightarrow> s = Stopped))) w"
proof (induction n arbitrary: w)
  case 0
  then show ?case unfolding confirm_gone.simps [of W _ 0]
    by (intro wp_rules exists_smoke [THEN wp_mono]) (auto elim: released_mono)
next
  case (Suc n)
  from Suc.prems show ?case unfolding confirm_gone.simps [of W _ "Suc n"]
    by (intro wp_rules exists_smoke [THEN wp_mono]) (auto intro: Suc.IH elim: released_mono)
qed

lemma confirm_l5a:
  "released job m (\<lambda>s l. P s) w \<Longrightarrow> wp (confirm_gone W (l5aJobName job) n)
     (\<lambda>r. released job m (\<lambda>s l. P s \<and> (r = None \<longrightarrow> l = Stopped))) w"
proof (induction n arbitrary: w)
  case 0
  then show ?case unfolding confirm_gone.simps [of W _ 0]
    by (intro wp_rules exists_l5a [THEN wp_mono]) (auto elim: released_mono)
next
  case (Suc n)
  from Suc.prems show ?case unfolding confirm_gone.simps [of W _ "Suc n"]
    by (intro wp_rules exists_l5a [THEN wp_mono]) (auto intro: Suc.IH elim: released_mono)
qed

lemma delete_smoke:
  "released job m (\<lambda>_. P) w \<Longrightarrow> wp (deleteAndConfirmGone W (smokeJobName job))
     (\<lambda>r. released job m (\<lambda>s l. P l \<and> (r = None \<longrightarrow> s = Stopped))) w"
  unfolding deleteAndConfirmGone_def by (intro wp_rules released_rules confirm_smoke) (auto elim: released_mono)

lemma delete_l5a:
  "released job m (\<lambda>s l. P s) w \<Longrightarrow> wp (deleteAndConfirmGone W (l5aJobName job))
     (\<lambda>r. released job m (\<lambda>s l. P s \<and> (r = None \<longrightarrow> l = Stopped))) w"
  unfolding deleteAndConfirmGone_def by (intro wp_rules released_rules confirm_l5a) (auto elim: released_mono)

abbreviation in_L4 :: "job_view \<Rightarrow> job_view \<Rightarrow> bool" where
  "in_L4 s l \<equiv> l \<noteq> MaybeRunning"

abbreviation L4_stopped :: "job_view \<Rightarrow> job_view \<Rightarrow> bool" where
  "L4_stopped s l \<equiv> l \<noteq> MaybeRunning \<and> s = Stopped"

lemma createSmokeJob_released:
  assumes "released job m (\<lambda>s l. l \<noteq> MaybeRunning \<and> (rel \<longrightarrow> s \<noteq> MaybeRunning)) w"
  shows "wp (createSmokeJob W job (smokeJobName job) rel)
    (\<lambda>res w'. released job m in_L4 w' \<and> (\<forall>out. res = Some out \<longrightarrow> \<not> out_success out)) w"
  unfolding createSmokeJob_def
  by (intro wp_rules create_smoke [where q = rel and P = "\<lambda>l. l \<noteq> MaybeRunning", THEN wp_mono]
      exists_smoke [where P = "\<lambda>l. l \<noteq> MaybeRunning", THEN wp_mono]
      release_safe [where P = L4_stopped, THEN wp_mono])
    (use assms in \<open>auto simp: failed_def elim: released_mono\<close>)

lemma classify_empty: "\<not> out_success (classifySmokeRun ddl pods [])"
proof -
  have "classify_pods ps = Some out \<Longrightarrow> \<not> out_success out" for ps out
  proof (induction ps)
    case (Cons p ps)
    have "classify_containers cs = Some out \<Longrightarrow> \<not> out_success out" for cs
      by (induction cs) (auto simp: classify_container_def classify_terminated_def failed_def split: option.splits if_splits)
    with Cons show ?case by (auto simp: failed_def split: if_splits option.splits)
  qed simp
  then show ?thesis
    by (auto simp: classifySmokeRun_def classifyFromPods_def failed_def Let_def split: option.splits)
qed

lemma smoke_done_released:
  "released job m in_L4 w \<Longrightarrow> wp (smoke_done W job (smokeJobName job))
     (\<lambda>out. released job m (\<lambda>s l. l \<noteq> MaybeRunning \<and> (out_success out \<longrightarrow> s = Stopped))) w"
  unfolding smoke_done_def classify_smoke_def
  by (intro wp_rules released_rules delete_smoke [where P = "\<lambda>l. l \<noteq> MaybeRunning", THEN wp_mono]
      release_safe [where P = L4_stopped, THEN wp_mono])
    (auto simp: classify_empty failed_def elim: released_mono)

lemma smoke_ended_released:
  "released job m L4_stopped w \<Longrightarrow> wp (smoke_ended W job (smokeJobName job) rel conds c) (\<lambda>_. released job m L4_stopped) w"
  unfolding smoke_ended_def classify_smoke_def
  by (intro wp_rules released_rules release_safe [where P = L4_stopped, THEN wp_mono]) auto

lemma smoke_loop_released:
  "released job m in_L4 w \<Longrightarrow> wp (smoke_loop W job (smokeJobName job) rel confirmed ticks)
     (\<lambda>out. released job m (\<lambda>s l. l \<noteq> MaybeRunning \<and> (out_success out \<longrightarrow> s = Stopped))) w"
proof (induction ticks arbitrary: confirmed w)
  case Nil
  then show ?case by (simp add: smoke_done_released)
next
  case (Cons t ticks)
  show ?case
  proof (cases t)
    case HeartbeatTick
    with Cons show ?thesis by (auto intro!: wp_rules heartbeat_released [THEN wp_mono])
  next
    case PollTick
    from Cons.prems show ?thesis unfolding PollTick smoke_loop.simps
      by (intro wp_rules get_smoke [where P = "\<lambda>l. l \<noteq> MaybeRunning", THEN wp_mono]
          createSmokeJob_released [THEN wp_mono] release_safe [where P = L4_stopped, THEN wp_mono]
          smoke_ended_released [THEN wp_mono] Cons.IH)
        (auto simp: settles_def failed_def elim: released_mono)
  qed
qed

lemma runSmokeRun_released:
  "released job m (\<lambda>s l. l \<noteq> MaybeRunning \<and> (adopted \<or> s \<noteq> MaybeRunning)) w \<Longrightarrow>
     wp (runSmokeRun W job (smokeJobName job) adopted rel)
       (\<lambda>out. released job m (\<lambda>s l. l \<noteq> MaybeRunning \<and> (out_success out \<longrightarrow> s = Stopped))) w"
  unfolding runSmokeRun_def
  by (intro wp_rules released_rules createSmokeJob_released [THEN wp_mono] smoke_loop_released)
    (auto elim: released_mono)

section \<open>L5-a and the rest of the attempt\<close>

abbreviation after_L4 :: "job_view \<Rightarrow> job_view \<Rightarrow> bool" where
  "after_L4 s l \<equiv> s \<noteq> MaybeRunning"

abbreviation L5a_stopped :: "job_view \<Rightarrow> job_view \<Rightarrow> bool" where
  "L5a_stopped s l \<equiv> s \<noteq> MaybeRunning \<and> l = Stopped"

lemma reconcile_released:
  "released job m after_L4 w \<Longrightarrow> wp (reconcile_loop W (l5aJobName job) initial n) (\<lambda>_. released job m after_L4) w"
proof (induction n arbitrary: initial w)
  case 0
  then show ?case by (auto intro: wp_ret)
next
  case (Suc n)
  from Suc.prems show ?case unfolding reconcile_loop.simps
    by (intro wp_rules released_rules create_l5a [THEN wp_mono] Suc.IH) auto
qed

lemma l5a_create_released:
  "released job m after_L4 w \<Longrightarrow> wp (l5a_create W job (l5aJobName job)) (\<lambda>_. released job m after_L4) w"
  unfolding l5a_create_def reconcileL5aCreate_def
  by (intro wp_rules released_rules create_l5a [THEN wp_mono] release_released [where P = after_L4, THEN wp_mono]
      reconcile_released [THEN wp_mono]) auto

lemma waitL5aJob_released:
  "released job m after_L4 w \<Longrightarrow> wp (waitL5aJob W job (l5aJobName job) ticks) (\<lambda>_. released job m after_L4) w"
proof (induction ticks arbitrary: w)
  case Nil
  then show ?case unfolding waitL5aJob.simps
    by (intro wp_rules delete_l5a [where P = "\<lambda>s. s \<noteq> MaybeRunning", THEN wp_mono]
        release_safe [where P = L5a_stopped, THEN wp_mono]) (auto elim: released_mono)
next
  case (Cons t ticks)
  show ?case
  proof (cases t)
    case HeartbeatTick
    with Cons show ?thesis by (auto intro!: wp_rules heartbeat_released [THEN wp_mono])
  next
    case PollTick
    from Cons.prems show ?thesis unfolding PollTick waitL5aJob.simps extractPodExitCode_def
      by (intro wp_rules released_rules get_l5a [where P = "\<lambda>s. s \<noteq> MaybeRunning", THEN wp_mono]
          release_safe [where P = L5a_stopped, THEN wp_mono] Cons.IH)
        (auto simp: settles_def elim: released_mono)
  qed
qed

lemma runL5a_released: "released job m after_L4 w \<Longrightarrow> wp (runL5a W job terminal) (\<lambda>_. released job m after_L4) w"
  unfolding runL5a_def
  by (intro wp_rules released_rules l5a_create_released [THEN wp_mono] waitL5aJob_released [THEN wp_mono]) auto

lemma runL5b_released: "released job m P w \<Longrightarrow> wp (runL5b W job) (\<lambda>_. released job m P) w"
  unfolding runL5b_def submitNotAvailableScanRecord_def by (intro wp_rules released_rules) auto

lemma optional_stage_released:
  assumes "released job m P w" and stage: "\<And>w. released job m P w \<Longrightarrow> wp stage (\<lambda>_. released job m P) w"
  shows "wp (optional_stage W job planned stage a b) (\<lambda>_. released job m P) w"
  unfolding optional_stage_def
  by (intro wp_rules stillLeased_released [where m = m and P = P, THEN wp_mono] stage [THEN wp_mono]
      pure_released(2) [where m = m and P = P, THEN wp_mono]) (use assms in auto)

lemma complete_released: "released job m P w \<Longrightarrow> wp (complete_attempt W job summary) (\<lambda>_. released job m P) w"
  unfolding complete_attempt_def by (intro wp_rules released_rules) auto

lemma finish_released:
  "released job m after_L4 w \<Longrightarrow> wp (finishAfterL4 W job plan isL5ALast) (\<lambda>_. released job m after_L4) w"
  unfolding finishAfterL4_def
  by (intro wp_rules optional_stage_released [where m = m and P = after_L4, THEN wp_mono] complete_released
      runL5a_released runL5b_released) auto

lemma fail_attempt_released: "released job m P w \<Longrightarrow> wp (fail_attempt W j stage command cls why) (\<lambda>_. released job m P) w"
  unfolding fail_attempt_def reportTerminalFailure_def by (intro wp_rules released_rules) auto

lemma run_L4_released:
  "released job m (\<lambda>s l. l \<noteq> MaybeRunning \<and> (adopted \<or> s \<noteq> MaybeRunning)) w \<Longrightarrow>
     wp (run_L4 W job plan adopted) (\<lambda>_ w'. releases_ok job (w_trace w')) w"
  unfolding run_L4_def reportTerminalSuccess_def
  by (intro wp_rules released_rules runSmokeRun_released [THEN wp_mono] fail_attempt_released [THEN wp_mono]
      finish_released [THEN wp_mono])
    (auto simp: released_def)

lemma released_ok: "released job m P w \<Longrightarrow> releases_ok job (w_trace w)"
  by (simp add: released_def)

abbreviation not_running :: "job_view \<Rightarrow> job_view \<Rightarrow> bool" where
  "not_running s l \<equiv> s \<noteq> MaybeRunning \<and> l \<noteq> MaybeRunning"

lemma fail_attempt_ok:
  "released job m P w \<Longrightarrow> wp (fail_attempt W j stage command cls why) (\<lambda>_ w'. releases_ok job (w_trace w')) w"
  by (rule fail_attempt_released [THEN wp_mono]) (auto intro: released_ok)

lemma run_L3_released:
  assumes "released job (\<not> adopted) not_running w"
  shows "wp (run_L3 W job plan adopted) (\<lambda>_ w'. releases_ok job (w_trace w')) w"
  unfolding run_L3_def
  by (intro wp_rules quiet_released(4) [where m = "\<not> adopted" and P = not_running, THEN wp_mono]
      release_safe [where m = "\<not> adopted" and P = not_running, THEN wp_mono]
      fail_attempt_ok [where m = "\<not> adopted" and P = not_running] run_L4_released [where m = "\<not> adopted"])
    (use assms in \<open>auto elim: released_mono\<close>)

lemma run_execution_released:
  assumes "released job (\<not> adopted) not_running w"
  shows "wp (run_execution W job plan adopted) (\<lambda>_ w'. releases_ok job (w_trace w')) w"
  unfolding run_execution_def
  by (intro wp_rules exists_l5a [where m = "\<not> adopted" and P = "\<lambda>s. s \<noteq> MaybeRunning", THEN wp_mono]
      fail_attempt_ok [where m = "\<not> adopted" and P = after_L4]
      finish_released [where m = "\<not> adopted", THEN wp_mono] run_L3_released)
    (use assms in \<open>auto elim: released_mono intro: released_ok\<close>)

section \<open>Before the identity is established\<close>

definition no_release :: "world \<Rightarrow> bool" where
  "no_release w \<longleftrightarrow> (\<forall>i x. EvRelease i x \<notin> set (w_trace w))"

text \<open>Nothing was released, and of no Job but possibly \<open>n\<close> may it be that it runs.\<close>

definition calm :: "string option \<Rightarrow> world \<Rightarrow> bool" where
  "calm n w \<longleftrightarrow> no_release w \<and> (\<forall>m. n \<noteq> Some m \<longrightarrow> view m (w_trace w) \<noteq> MaybeRunning)"

lemma viewless_no_release: "viewless e \<Longrightarrow> (EvRelease i x = e) = False"
  by auto

lemma store_calm: "(\<And>x. viewless (ev x)) \<Longrightarrow> calm n w \<Longrightarrow> wp (store_op W bg f ev) (\<lambda>_. calm n) w"
  by (intro wp_store_op) (auto simp: calm_def no_release_def viewless_view viewless_no_release)

lemma remote_calm: "(\<And>x. viewless (ev x)) \<Longrightarrow> calm n w \<Longrightarrow> wp (remote_op W bg f dead ev) (\<lambda>_. calm n) w"
  by (intro wp_remote_op) (auto simp: calm_def no_release_def viewless_view viewless_no_release)

lemma sample_calm: "calm n w \<Longrightarrow> wp (sample W) (\<lambda>_. calm n) w"
  by (simp add: wp_sample calm_def no_release_def)

lemma lose_calm: "calm n w \<Longrightarrow> wp lose (\<lambda>_. calm n) w"
  by (simp add: wp_lose calm_def no_release_def)

lemmas calm_ops = store_calm [THEN wp_mono] remote_calm [THEN wp_mono] sample_calm [THEN wp_mono] lose_calm [THEN wp_mono]

lemma stillLeased_calm: "calm n w \<Longrightarrow> wp (stillLeased W job) (\<lambda>_. calm n) w"
  unfolding stillLeased_def heartbeat_def do_Heartbeat_def by (intro wp_rules calm_ops) auto

lemma exists_calm:
  "calm (Some n) w \<Longrightarrow> wp (job_exists W bg n) (\<lambda>found w'. calm (Some n) w' \<and> (found = Inr False \<longrightarrow> calm None w')) w"
  unfolding job_exists_def get_job_def
  by (intro wp_rules wp_remote_op) (auto simp: calm_def no_release_def split: sum.splits if_splits)

lemma confirm_calm:
  "calm (Some n) w \<Longrightarrow> wp (confirm_gone W n k) (\<lambda>r w'. calm (Some n) w' \<and> (r = None \<longrightarrow> calm None w')) w"
proof (induction k arbitrary: w)
  case 0
  then show ?case unfolding confirm_gone.simps [of W _ 0] by (intro wp_rules exists_calm [THEN wp_mono]) auto
next
  case (Suc k)
  from Suc.prems show ?case unfolding confirm_gone.simps [of W _ "Suc k"]
    by (intro wp_rules exists_calm [THEN wp_mono]) (auto intro: Suc.IH)
qed

lemma delete_calm: "calm None w \<Longrightarrow> wp (deleteAndConfirmGone W n) (\<lambda>r w'. no_release w' \<and> (r = None \<longrightarrow> calm None w')) w"
  unfolding deleteAndConfirmGone_def deleteJob_def
  by (intro wp_rules calm_ops confirm_calm [THEN wp_mono]) (auto simp: calm_def)

lemma retire_jobs_calm:
  "calm None w \<Longrightarrow> wp (retire_jobs W job names) (\<lambda>r w'. no_release w' \<and> (r = None \<longrightarrow> calm None w')) w"
proof (induction names arbitrary: w)
  case Nil
  then show ?case by (auto intro!: wp_ret simp: calm_def)
next
  case (Cons n names)
  from Cons.prems show ?case unfolding retire_jobs.simps do_GetJob_def
    by (intro wp_rules store_calm [where n = None, THEN wp_mono] delete_calm [THEN wp_mono]
        stillLeased_calm [where n = None, THEN wp_mono] Cons.IH) (auto simp: calm_def)
qed

lemma retire_calm:
  "calm None w \<Longrightarrow> wp (retireLegacyExecutions W job) (\<lambda>r w'. no_release w' \<and> (r = None \<longrightarrow> calm None w')) w"
  unfolding retireLegacyExecutions_def list_jobs_def
  by (intro wp_rules remote_calm [where n = None, THEN wp_mono] retire_jobs_calm) (auto simp: calm_def)

lemma no_release_ok: "\<forall>i x. EvRelease i x \<notin> set tr \<Longrightarrow> releases_ok job tr"
  by (induction job tr rule: releases_ok.induct) auto

lemma releases_ok_execution: "releases_ok (job\<lparr>ExecutionID := i\<rparr>) tr = releases_ok job tr"
  by (induction job tr rule: releases_ok.induct) auto

lemma releases_ok_split:
  "releases_ok job (as @ EvRelease i x # bs) \<Longrightarrow>
     safe_release (job\<lparr>ExecutionID := i\<rparr>) bs \<or> refused_again (job\<lparr>ExecutionID := i\<rparr>) bs"
proof (induction as)
  case (Cons e as)
  then show ?case by (cases e) auto
qed simp

lemma ensure_released:
  assumes "calm None w"
  shows "wp (do_EnsureExecution W job) (\<lambda>res w'. calm None w' \<and>
    (\<forall>i adopted. res = Inr (i, adopted) \<longrightarrow> released (job\<lparr>ExecutionID := i\<rparr>) (\<not> adopted) not_running w')) w"
  unfolding do_EnsureExecution_def
proof (rule wp_store_op)
  let ?r = "next_reply W w"
  show "calm None (arrive ?r w) \<and> (\<forall>i adopted. fst (EnsureExecution canceled (rp_entropy ?r) (rp_now ?r) (JobID job) (w_store (arrive ?r w)))
      = Inr (i, adopted) \<longrightarrow> released (job\<lparr>ExecutionID := i\<rparr>) (\<not> adopted) not_running (arrive ?r w))"
    using assms by (simp add: EnsureExecution_def canceled_def calm_def no_release_def)
  fix x s
  show "calm None (arrive ?r w\<lparr>w_store := s, w_trace := EvEnsure (JobID job) x # w_trace w\<rparr>) \<and>
      (\<forall>i adopted. x = Inr (i, adopted) \<longrightarrow>
        released (job\<lparr>ExecutionID := i\<rparr>) (\<not> adopted) not_running (arrive ?r w\<lparr>w_store := s, w_trace := EvEnsure (JobID job) x # w_trace w\<rparr>))"
    using assms by (auto simp: calm_def no_release_def released_def minted_def no_release_ok)
qed

lemma process_releases:
  assumes "calm None w"
  shows "wp (process W job) (\<lambda>_ w'. releases_ok job (w_trace w')) w"
proof -
  have fail: "wp (fail_attempt W job stage command cls why) (\<lambda>_ w'. releases_ok job (w_trace w')) u"
    if "no_release u" for u stage command cls why
    using that by (intro fail_attempt_ok [where m = False and P = "\<lambda>_ _. True"])
      (simp add: released_def no_release_def no_release_ok)
  have exec: "wp (run_execution W (job\<lparr>ExecutionID := i\<rparr>) plan adopted) (\<lambda>_ w'. releases_ok job (w_trace w')) u"
    if "released (job\<lparr>ExecutionID := i\<rparr>) (\<not> adopted) not_running u" for u i plan adopted
    using run_execution_released [OF that] by (simp add: releases_ok_execution)
  show ?thesis unfolding process_def run_plan_def
    by (intro wp_rules retire_calm [THEN wp_mono] ensure_released [THEN wp_mono] fail exec)
      (use assms in \<open>auto simp: calm_def no_release_def no_release_ok\<close>)
qed

text \<open>
  C16: an execution identity is released only on evidence. Whenever an attempt releases an
  identity, each of the two Jobs named for it was never asked for or seen by this attempt,
  or was last seen finished, absent or refused; and either this attempt minted the identity
  or it did see one of its Jobs stopped. The one exception is an L5-a Job found in the
  cluster whose repeated creation was refused.
\<close>

theorem release_needs_evidence:
  assumes "w_trace w = []" and "w_trace (snd (run_state (process W job) w)) = as @ EvRelease i x # bs"
  shows "safe_release (job\<lparr>ExecutionID := i\<rparr>) bs \<or> refused_again (job\<lparr>ExecutionID := i\<rparr>) bs"
proof -
  have "calm None w" using assms(1) by (simp add: calm_def no_release_def)
  then have "releases_ok job (as @ EvRelease i x # bs)"
    using process_releases [of w W job] assms(2) by (simp add: wp_run)
  then show ?thesis by (rule releases_ok_split)
qed

definition demo_success :: "event list" where
  "demo_success = demo_trace [] demo_attempt demo_leased"

lemma demo_success_release: "take 1 (drop 5 demo_success) = [EvRelease ''a1-0707070707070707'' (Inr ())]"
  by code_simp

theorem release_needs_evidence_witness:
  "\<exists>bs. demo_success = take 5 demo_success @ EvRelease ''a1-0707070707070707'' (Inr ()) # bs \<and>
     (safe_release (demo_attempt\<lparr>ExecutionID := ''a1-0707070707070707''\<rparr>) bs \<or>
      refused_again (demo_attempt\<lparr>ExecutionID := ''a1-0707070707070707''\<rparr>) bs)"
proof -
  obtain bs where "drop 5 demo_success = EvRelease ''a1-0707070707070707'' (Inr ()) # bs"
    using demo_success_release by (cases "drop 5 demo_success") auto
  then have tr: "demo_success = take 5 demo_success @ EvRelease ''a1-0707070707070707'' (Inr ()) # bs"
    by (metis append_take_drop_id)
  show ?thesis
    using release_needs_evidence [OF demo_world_fields(2) tr [unfolded demo_success_def demo_trace_def]] tr by blast
qed

end
