(* ===== verification/Worker_Takeover.thy ===== *)
theory Worker_Takeover
  imports Worker_Safety
begin

text \<open>
  A worker that takes over a job whose execution identity is still live stays with that
  identity: whatever it creates in the cluster carries the names of the execution it
  adopted.
\<close>

section \<open>A live identity stays live until the attempt adopts it\<close>

definition none_retires :: "Worker \<Rightarrow> string \<Rightarrow> string \<Rightarrow> bool" where
  "none_retires W j i \<longleftrightarrow> (\<forall>n. list_all (\<lambda>c. \<not> retires j i c) (rp_others (replies W n)))"

abbreviation alive :: "string \<Rightarrow> string \<Rightarrow> world \<Rightarrow> bool" where
  "alive j i w \<equiv> live_execution j i (w_store w)"

lemma arrive_alive: "none_retires W j i \<Longrightarrow> alive j i w \<Longrightarrow> alive j i (arrive (next_reply W w) w)"
  by (simp add: none_retires_def run_calls_live)

lemma store_alive:
  assumes "none_retires W j i" and "alive j i w"
    and "\<And>flt r s. live_execution j i s \<Longrightarrow> live_execution j i (snd (f flt r s))"
  shows "wp (store_op W bg f ev) (\<lambda>_. alive j i) w"
proof -
  have a: "alive j i (arrive (next_reply W w) w)" using assms(1,2) by (rule arrive_alive)
  have "live_execution j i s" if "f flt r (w_store (arrive (next_reply W w) w)) = (x, s)" for flt r x s
    using assms(3) [OF a, of flt r] that by simp
  with a show ?thesis by (intro wp_store_op) auto
qed

lemma remote_alive: "none_retires W j i \<Longrightarrow> alive j i w \<Longrightarrow> wp (remote_op W bg f dead ev) (\<lambda>_. alive j i) w"
  using arrive_alive [of W j i w] by (intro wp_remote_op) simp_all

lemma heartbeat_alive: "none_retires W j i \<Longrightarrow> alive j i w \<Longrightarrow> wp (heartbeat W job) (\<lambda>_. alive j i) w"
  unfolding heartbeat_def do_Heartbeat_def
  by (intro wp_rules store_alive [THEN wp_mono])
    (auto simp: wp_lose retires_def dest: exec_call_live [of j i _ "CallHeartbeat _ _ _ _ _ _"])

lemma release_alive:
  "none_retires W j i \<Longrightarrow> ExecutionID job \<noteq> i \<Longrightarrow> alive j i w \<Longrightarrow> wp (markExecutionTerminal W bg job) (\<lambda>_. alive j i) w"
  unfolding markExecutionTerminal_def do_MarkExecutionTerminal_def
  by (intro wp_rules store_alive [THEN wp_mono])
    (auto simp: retires_def dest: exec_call_live [of j i _ "CallMarkExecutionTerminal _ _ _ _"])

text \<open>The stage calls of an attempt that has not adopted \<open>i\<close>.\<close>

lemma alive_stage:
  assumes "none_retires W j i"
  shows "stage_invariant W (\<lambda>job. ExecutionID job \<noteq> i) (\<lambda>_. True) (alive j i)"
proof unfold_locales
  show "wp (sample W) (\<lambda>_. alive j i) w" if "alive j i w" for w
    using arrive_alive [OF assms that] by (simp add: wp_sample)
  show "wp (inc W m) (\<lambda>_. alive j i) w" if "alive j i w" for w m using that by (simp add: wp_inc)
qed (auto simp: do_GetJob_def remote_calls intro!: store_alive remote_alive heartbeat_alive release_alive assms)

section \<open>Jobs created\<close>

text \<open>Every Job asked for has one of the two names of the execution \<open>job\<close> carries.\<close>

fun created_as :: "Job \<Rightarrow> event \<Rightarrow> bool" where
  "created_as job (EvCreate n _) \<longleftrightarrow> n = smokeJobName job \<or> n = l5aJobName job"
| "created_as job _ = True"

definition creates_only :: "Job \<Rightarrow> event list \<Rightarrow> bool" where
  "creates_only job tr = list_all (created_as job) tr"

lemma store_creates:
  "creates_only e (w_trace w) \<Longrightarrow> (\<And>x. created_as e (ev x)) \<Longrightarrow> wp (store_op W bg f ev) (\<lambda>_ w'. creates_only e (w_trace w')) w"
  by (intro wp_store_op) (auto simp: creates_only_def)

lemma remote_creates:
  "creates_only e (w_trace w) \<Longrightarrow> (\<And>x. created_as e (ev x)) \<Longrightarrow> wp (remote_op W bg f dead ev) (\<lambda>_ w'. creates_only e (w_trace w')) w"
  by (intro wp_remote_op) (auto simp: creates_only_def)

lemmas creates_ops = store_creates [THEN wp_mono] remote_creates [THEN wp_mono]

lemma heartbeat_creates:
  "creates_only e (w_trace w) \<Longrightarrow> wp (heartbeat W job) (\<lambda>_ w'. creates_only e (w_trace w')) w"
  unfolding heartbeat_def do_Heartbeat_def by (intro wp_rules creates_ops) (auto simp: wp_lose creates_only_def)

lemma stillLeased_creates:
  "creates_only e (w_trace w) \<Longrightarrow> wp (stillLeased W job) (\<lambda>_ w'. creates_only e (w_trace w')) w"
  unfolding stillLeased_def by (intro wp_rules heartbeat_creates [THEN wp_mono]) auto

lemma submit_creates:
  assumes "creates_only e (w_trace w)"
  shows "wp (submitCheckRecord W job sub) (\<lambda>_ w'. creates_only e (w_trace w')) w"
    and "wp (submitScanRecord W job req) (\<lambda>_ w'. creates_only e (w_trace w')) w"
  using assms unfolding submitCheckRecord_def submitScanRecord_def claimTerminal_def do_ClaimTerminal_def
    do_markDeliveryPending_def post_record_def
  by (intro wp_rules stillLeased_creates [THEN wp_mono] creates_ops; simp add: creates_only_def)+

lemma inc_creates: "creates_only e (w_trace w) \<Longrightarrow> wp (inc W m) (\<lambda>_ w'. creates_only e (w_trace w')) w"
  by (simp add: wp_inc)

abbreviation carries :: "Job \<Rightarrow> Job \<Rightarrow> bool" where
  "carries e job \<equiv> smokeJobName job = smokeJobName e \<and> l5aJobName job = l5aJobName e"

interpretation own_names: execution_invariant W "carries e" "\<lambda>n. n = smokeJobName e \<or> n = l5aJobName e"
    "\<lambda>w. creates_only e (w_trace w)" for W e
proof unfold_locales
  show "wp (sample W) (\<lambda>_ w'. creates_only e (w_trace w')) w" if "creates_only e (w_trace w)" for w
    using that by (simp add: wp_sample)
  show "wp (markExecutionTerminal W bg job) (\<lambda>_ w'. creates_only e (w_trace w')) w"
    if "creates_only e (w_trace w)" for bg job w
    using that unfolding markExecutionTerminal_def do_MarkExecutionTerminal_def
    by (intro wp_rules creates_ops) (auto simp: creates_only_def)
qed (auto simp: do_GetJob_def do_FailJob_def do_CompleteJob_def remote_calls
    intro!: inc_creates store_creates remote_creates heartbeat_creates submit_creates)

section \<open>The takeover\<close>

text \<open>Retiring the executions of older workers does not look at the job's identity.\<close>

lemma heartbeat_execution [simp]: "heartbeat W (job\<lparr>ExecutionID := i\<rparr>) = heartbeat W job"
  by (simp add: heartbeat_def do_Heartbeat_def)

lemma stillLeased_execution [simp]: "stillLeased W (job\<lparr>ExecutionID := i\<rparr>) = stillLeased W job"
  by (simp add: stillLeased_def cong: if_cong)

lemma retire_jobs_execution: "retire_jobs W (job\<lparr>ExecutionID := i\<rparr>) names = retire_jobs W job names"
  by (induction names) (simp_all add: do_GetJob_def cong: if_cong option.case_cong sum.case_cong)

lemma retire_execution: "retireLegacyExecutions W (job\<lparr>ExecutionID := i\<rparr>) = retireLegacyExecutions W job"
  by (simp add: retireLegacyExecutions_def retire_jobs_execution cong: if_cong sum.case_cong)

lemma fail_names:
  "creates_only e (w_trace w) \<Longrightarrow> wp (fail_attempt W job stage command cls why) (\<lambda>_ w'. creates_only e (w_trace w')) w"
  unfolding fail_attempt_def reportTerminalFailure_def do_FailJob_def
  by (intro wp_rules own_names.call_rules(1) inc_creates [THEN wp_mono] submit_creates [THEN wp_mono] creates_ops)
    auto

lemma ensure_adopts:
  assumes "live_execution j i s" and "EnsureExecution flt rnd now j s = (Inr (k, adopted), s')"
  shows "k = i"
  using assms by (auto simp: live_execution_def EnsureExecution_def split: option.splits if_splits)

lemma ensure_alive:
  assumes "none_retires W (JobID job) i" and "alive (JobID job) i w" and "creates_only e (w_trace w)"
  shows "wp (do_EnsureExecution W job)
    (\<lambda>res w'. creates_only e (w_trace w') \<and> (\<forall>k adopted. res = Inr (k, adopted) \<longrightarrow> k = i)) w"
  unfolding do_EnsureExecution_def
proof (rule wp_store_op)
  have a: "live_execution (JobID job) i (w_store (arrive (next_reply W w) w))" using assms by (intro arrive_alive)
  fix x s
  assume "EnsureExecution (rp_faults (next_reply W w)) (rp_entropy (next_reply W w)) (rp_now (next_reply W w))
    (JobID job) (w_store (arrive (next_reply W w) w)) = (x, s)"
  then show "creates_only e (w_trace (arrive (next_reply W w) w\<lparr>w_store := s, w_trace := EvEnsure (JobID job) x # w_trace w\<rparr>)) \<and>
      (\<forall>k adopted. x = Inr (k, adopted) \<longrightarrow> k = i)"
    using ensure_adopts [OF a] assms(3) by (auto simp: creates_only_def)
qed (use assms(3) in \<open>auto simp: EnsureExecution_def canceled_def\<close>)

lemma retire_alive:
  assumes "none_retires W (JobID job) i" and "ExecutionID job \<noteq> i" and "alive (JobID job) i w"
    and "creates_only (job\<lparr>ExecutionID := i\<rparr>) (w_trace w)"
  shows "wp (retireLegacyExecutions W job)
    (\<lambda>_ w'. alive (JobID job) i w' \<and> creates_only (job\<lparr>ExecutionID := i\<rparr>) (w_trace w')) w"
  using stage_invariant.retire_keeps [OF alive_stage [OF assms(1)] assms(2,3)]
    own_names.retire_keeps [of "job\<lparr>ExecutionID := i\<rparr>" "job\<lparr>ExecutionID := i\<rparr>" w W] assms(4)
  by (intro wp_conj) (simp_all add: retire_execution)

text \<open>
  C9: a worker that takes over a job starts no second execution. When the stored identity
  is live as the attempt begins and no other process retires it, every Job the attempt asks
  the cluster for, in any stage and under any faults, has the smoke-run or the L5-a name of
  that identity: the very names under which its predecessor created them.
\<close>

theorem takeover_creates_no_second_job:
  assumes live: "live_execution (JobID job) i (w_store w)" and "none_retires W (JobID job) i" and "w_trace w = []"
    and new: "EvCreate n x \<in> set (w_trace (snd (run_state (process W job) w)))"
  shows "n = smokeJobName (job\<lparr>ExecutionID := i\<rparr>) \<or> n = l5aJobName (job\<lparr>ExecutionID := i\<rparr>)"
proof -
  let ?e = "job\<lparr>ExecutionID := i\<rparr>"
  have none: "creates_only ?e (w_trace w)" using assms(3) by (simp add: creates_only_def)
  have "i \<noteq> ''''" using live by (auto simp: live_execution_def)
  then have "wp (process W job) (\<lambda>_ w'. creates_only ?e (w_trace w')) w"
    unfolding process_def run_plan_def
    by (intro wp_rules retire_alive [where i = i, THEN wp_mono] ensure_alive [where i = i and e = ?e, THEN wp_mono]
        fail_names own_names.run_execution_keeps) (use assms(1,2) none in auto)
  then have "created_as ?e (EvCreate n x)" using new by (auto simp: wp_run creates_only_def list_all_iff)
  then show ?thesis by simp
qed

text \<open>The adopted Job is not found, so the attempt creates it under the same name.\<close>

definition demo_inherited :: row where
  "demo_inherited = demo_leased\<lparr>r_execution_id := ''a0-00'', r_execution_terminal := False\<rparr>"

definition demo_adopted :: Job where
  "demo_adopted = demo_attempt\<lparr>ExecutionID := ''a0-00''\<rparr>"

definition api_refusal :: "api_kind \<Rightarrow> api_error" where
  "api_refusal k = \<lparr>api_kind = k, api_text = ''refused''\<rparr>"

definition demo_takeover :: "reply list" where
  "demo_takeover = [demo_reply, demo_reply\<lparr>rp_ticks := [PollTick, PollTick]\<rparr>, demo_reply\<lparr>rp_get := Inl (api_refusal NotFound)\<rparr>]"

definition creations :: "event list \<Rightarrow> event list" where
  "creations tr = filter (\<lambda>e. case e of EvCreate _ _ \<Rightarrow> True | _ \<Rightarrow> False) tr"

lemma demo_takeover_creates:
  "creations (demo_trace demo_takeover demo_adopted demo_inherited) = [EvCreate ''smoke-job-1-a0-00'' None]"
  by code_simp

theorem takeover_creates_no_second_job_witness:
  "EvCreate ''smoke-job-1-a0-00'' None \<in> set (demo_trace demo_takeover demo_adopted demo_inherited) \<and>
   (''smoke-job-1-a0-00'' = smokeJobName (demo_adopted\<lparr>ExecutionID := ''a0-00''\<rparr>) \<or>
    ''smoke-job-1-a0-00'' = l5aJobName (demo_adopted\<lparr>ExecutionID := ''a0-00''\<rparr>))"
proof -
  have "EvCreate ''smoke-job-1-a0-00'' None \<in> set (creations (demo_trace demo_takeover demo_adopted demo_inherited))"
    by (simp add: demo_takeover_creates)
  then have c: "EvCreate ''smoke-job-1-a0-00'' None \<in> set (demo_trace demo_takeover demo_adopted demo_inherited)"
    by (simp add: creations_def)
  have "r_job_id demo_inherited = ''job-1''" by (simp add: demo_inherited_def)
  then have "live_execution ''job-1'' ''a0-00'' (demo_store demo_inherited)"
    using demo_find [of demo_inherited] by (simp add: live_execution_def demo_inherited_def)
  moreover have "JobID demo_adopted = ''job-1''" by (simp add: demo_adopted_def demo_attempt_def)
  moreover have "none_retires (demo_worker demo_takeover) ''job-1'' ''a0-00''"
  proof -
    have "set demo_takeover \<subseteq> {r. rp_others r = []}" by (auto simp: demo_takeover_def demo_reply_def)
    then have "rp_others (replies (demo_worker demo_takeover) n) = []" for n
      by (auto simp: demo_worker_def demo_reply_def dest!: nth_mem)
    then show ?thesis by (simp add: none_retires_def)
  qed
  ultimately show ?thesis
    using takeover_creates_no_second_job [of demo_adopted "''a0-00''" "demo_world demo_inherited" "demo_worker demo_takeover"
        "''smoke-job-1-a0-00''" None] c by (simp add: demo_trace_def)
qed

end
