(* ===== verification/Worker_Findings.thy ===== *)
theory Worker_Findings
  imports Worker_Release Worker_Takeover
begin

text \<open>
  Concrete attempts in which pkg/worker does something its comments rule out.
\<close>

section \<open>A running L5-a Job whose identity is released\<close>

text \<open>
  The adopted L5-a Job is seen running; the attempt creates it again and the creation is
  refused (a quota is checked before the name is). The branch for refused creations
  releases the identity, on the ground that the Job was never created.
\<close>

definition demo_l5a_running :: "event list" where
  "demo_l5a_running =
     demo_trace [demo_reply, demo_reply\<lparr>rp_get := Inr []\<rparr>, demo_reply, demo_reply,
        demo_reply\<lparr>rp_create := Some (api_refusal Forbidden)\<rparr>]
       (demo_adopted\<lparr>RequestedActions := [''smoke_run'', ''profile'']\<rparr>) demo_inherited"

lemma running_l5a_identity_released:
  "take 5 (rev demo_l5a_running) =
     [EvEnsure ''job-1'' (Inr (''a0-00'', True)), EvGet ''l5a-job-1-a0-00'' (Inr []), EvHeartbeat (Inr ()),
      EvCreate ''l5a-job-1-a0-00'' (Some (api_refusal Forbidden)), EvRelease ''a0-00'' (Inr ())]"
  by code_simp

section \<open>An adopted smoke Job, never seen, whose identity is released\<close>

text \<open>
  The worker shuts down between adopting an identity and its first poll. The delete and
  the check find no Job, and the identity is released, although an absent Job that was
  never seen may still be on its way: the poll loop creates it again for that reason.
\<close>

definition demo_unseen :: "event list" where
  "demo_unseen =
     demo_trace [demo_reply, demo_reply\<lparr>rp_shutdown := True, rp_ticks := []\<rparr>, demo_reply, demo_reply,
        demo_reply\<lparr>rp_get := Inl (api_refusal NotFound)\<rparr>]
       demo_adopted demo_inherited"

lemma unseen_job_identity_released:
  "rev demo_unseen =
     [EvEnsure ''job-1'' (Inr (''a0-00'', True)), EvDelete ''smoke-job-1-a0-00'' None,
      EvGet ''smoke-job-1-a0-00'' (Inl (api_refusal NotFound)), EvRelease ''a0-00'' (Inr ())]"
  by code_simp

section \<open>A skipped stage counted as submitted\<close>

text \<open>Without a NodeVault client L5-a is skipped, and still counted and summarised as submitted.\<close>

definition demo_no_vault :: world where
  "demo_no_vault =
     snd (run_state (process (demo_worker []\<lparr>vaultClient := False\<rparr>)
       (demo_attempt\<lparr>RequestedActions := [''smoke_run'', ''profile'']\<rparr>)) (demo_world demo_leased))"

definition last_step :: "world \<Rightarrow> event list \<times> metric list" where
  "last_step w = (filter (\<lambda>e. case e of EvPost _ _ \<Rightarrow> True | EvComplete _ _ _ \<Rightarrow> True | _ \<Rightarrow> False) (w_trace w), w_metrics w)"

lemma skipped_stage_submitted:
  "last_step demo_no_vault =
     ([EvComplete ''job-1'' ''L3 dry-run passed; L4 smoke-run succeeded; L5-a submitted; L5-b skipped (not requested)'' (Inr ())],
      [JobsCompleted, L5aSubmitted])"
  by code_simp

end
