(* ===== verification/Worker_Completion.thy ===== *)
theory Worker_Completion
  imports Worker_Retries
begin

text \<open>
  Every job comes to an end. A run is cut into stretches, each later than the one before by
  the longest retry delay; each stretch spends at least one attempt of every unfinished job,
  so \<open>maxAttempts\<close> stretches finish them all.
\<close>

section \<open>What rounds keep\<close>

definition finished :: "row \<Rightarrow> bool" where
  "finished r \<longleftrightarrow> r_status r = StatusSucceeded \<or> r_status r = StatusFailed"

text \<open>The same jobs, those finished untouched, and no more work than before.\<close>

definition advances :: "store \<Rightarrow> store \<Rightarrow> bool" where
  "advances s t \<longleftrightarrow> (\<forall>j. find_row j t = None \<longleftrightarrow> find_row j s = None) \<and>
     (\<forall>j r. find_row j s = Some r \<longrightarrow> finished r \<longrightarrow> find_row j t = Some r) \<and> workload t \<le> workload s"

lemma advances_refl: "advances s s"
  by (simp add: advances_def)

lemma advances_trans: "advances s t \<Longrightarrow> advances t u \<Longrightarrow> advances s u"
  by (simp add: advances_def)

lemma finished_remaining: "finished r \<Longrightarrow> remaining r = 0"
  by (simp add: finished_def remaining_def)

lemma spent_advances:
  assumes "store_ok (w_store w)" and "round_spent W i w u"
  shows "advances (w_store w) (w_store u)"
proof -
  obtain r r' where i: "find_row i (w_store w) = Some r" "find_row i (w_store u) = Some r'" "remaining r' < remaining r"
    using assms(2) by (auto simp: round_spent_def)
  then have "\<not> finished r" using finished_remaining by force
  moreover have "find_row j (w_store u) = find_row j (w_store w)" if "j \<noteq> i" for j
    using assms(2) that by (simp add: round_spent_def)
  moreover have "workload (w_store u) \<le> workload (w_store w)" using spent_workload [OF assms] by simp
  ultimately show ?thesis unfolding advances_def using i by (metis option.distinct(1) option.inject)
qed

lemma round_advances: "store_ok (w_store w) \<Longrightarrow> round_of W w u \<Longrightarrow> advances (w_store w) (w_store u)"
  by (auto simp: round_of_def advances_refl dest: spent_advances)

lemma Run_advances:
  "alone W \<Longrightarrow> store_ok (w_store w) \<Longrightarrow> w_ctx w = Live \<Longrightarrow> advances s (w_store w) \<Longrightarrow>
     wp (Run W n) (\<lambda>_ u. store_ok (w_store u) \<and> advances s (w_store u)) w"
proof (induction n arbitrary: w)
  case 0
  then show ?case by (auto intro: wp_ret)
next
  case (Suc n)
  show ?case
  proof (rule Run_step [OF Suc.prems(1-3)])
    fix u
    assume u: "round_of W w u"
    have "advances s (w_store u)" using advances_trans [OF Suc.prems(4) round_advances [OF Suc.prems(2) u]] .
    then show "wp (Run W n) (\<lambda>_ u. store_ok (w_store u) \<and> advances s (w_store u)) u"
      using Suc.prems(1) u by (intro Suc.IH) (simp_all add: round_of_def)
  qed
qed

section \<open>Stretches\<close>

text \<open>A worker goes on, or starts again, at the store the last stretch left.\<close>

definition start_world :: "store \<Rightarrow> world" where
  "start_world s = \<lparr>w_store = s, w_ctx = Live, w_step = 0, w_trace = [], w_metrics = []\<rparr>"

definition stretch :: "Worker \<Rightarrow> nat \<Rightarrow> store \<Rightarrow> store" where
  "stretch W n s = w_store (snd (run_state (Run W n) (start_world s)))"

fun stretches :: "(Worker \<times> nat) list \<Rightarrow> store \<Rightarrow> store" where
  "stretches [] s = s"
| "stretches ((W, n) # xs) s = stretches xs (stretch W n s)"

text \<open>Every unfinished job may be leased at every clock reading of the worker.\<close>

definition all_leaseable :: "store \<Rightarrow> Worker \<Rightarrow> bool" where
  "all_leaseable s W \<longleftrightarrow> (\<forall>j r. find_row j s = Some r \<longrightarrow> \<not> finished r \<longrightarrow> (\<forall>n. leaseable (rp_now (replies W n)) r))"

lemma stretch_effect:
  assumes al: "alone W" and ok: "store_ok s" and due: "all_leaseable s W" and n: "workload s \<le> n"
  shows "store_ok (stretch W n s)" and "advances s (stretch W n s)"
    and "find_row j (stretch W n s) = Some r' \<Longrightarrow> \<not> finished r' \<Longrightarrow>
      \<exists>r. find_row j s = Some r \<and> r_attempt r < r_attempt r' \<and> r_attempt r' < maxAttempts \<and>
        r_status r' = StatusQueued \<and> paced W r'"
proof -
  have w: "store_ok (w_store (start_world s))" "w_ctx (start_world s) = Live" "w_store (start_world s) = s"
    using ok by (simp_all add: start_world_def)
  show adv: "store_ok (stretch W n s)" "advances s (stretch W n s)"
    using Run_advances [OF al w(1,2), of s n] w(3) by (simp_all add: stretch_def wp_run advances_refl)
  assume r': "find_row j (stretch W n s) = Some r'" "\<not> finished r'"
  then obtain r where r: "find_row j s = Some r" using adv(2) unfolding advances_def by (metis option.exhaust)
  then have "\<not> finished r" using adv(2) r' by (auto simp: advances_def)
  then have "\<forall>k. leaseable (rp_now (replies W k)) r" using due r by (simp add: all_leaseable_def)
  from Run_serves [OF al this w(1,2)] have "row_sat j (attended W (r_attempt r)) (stretch W n s)"
    using r n w(3) by (simp add: stretch_def wp_run)
  then have "attended W (r_attempt r) r'" using r'(1) by (simp add: row_sat_def)
  then show "\<exists>r. find_row j s = Some r \<and> r_attempt r < r_attempt r' \<and> r_attempt r' < maxAttempts \<and>
      r_status r' = StatusQueued \<and> paced W r'"
    using r r'(2) by (auto simp: attended_def settled_def overtaken_def finished_def)
qed

lemma stretch_advances: "alone W \<Longrightarrow> store_ok s \<Longrightarrow> store_ok (stretch W n s) \<and> advances s (stretch W n s)"
  using Run_advances [of W "start_world s" s n] by (simp add: stretch_def start_world_def wp_run advances_refl)

lemma stretches_advance: "\<forall>(W, n) \<in> set xs. alone W \<Longrightarrow> store_ok s \<Longrightarrow> advances s (stretches xs s)"
proof (induction xs arbitrary: s)
  case Nil
  then show ?case by (simp add: advances_refl)
next
  case (Cons x xs)
  obtain W n where x: "x = (W, n)" by fastforce
  then have "store_ok (stretch W n s)" "advances s (stretch W n s)"
    using Cons.prems stretch_advances by auto
  then show ?case using Cons.IH [of "stretch W n s"] Cons.prems(1) x advances_trans by auto
qed

section \<open>Enough stretches\<close>

text \<open>The readings of \<open>V\<close> come at least \<open>RetryMaxDelay\<close> after those of \<open>W\<close>.\<close>

definition later :: "Worker \<Rightarrow> Worker \<Rightarrow> bool" where
  "later W V \<longleftrightarrow> (\<forall>i k. rp_now (replies W i) + RetryMaxDelay \<le> rp_now (replies V k))"

text \<open>Clocks whose nanoseconds fit an int64, with room for a retry delay.\<close>

definition nano_ok :: "Worker \<Rightarrow> bool" where
  "nano_ok W \<longleftrightarrow> (\<forall>n. in_int64 (rp_now (replies W n)) \<and> in_int64 (rp_now (replies W n) + RetryMaxDelay))"

lemma paced_leaseable:
  assumes "paced W r" and "r_status r = StatusQueued" and "later W V" and "nano_ok W" and "nano_ok V"
  shows "leaseable (rp_now (replies V k)) r"
proof -
  obtain n d where d: "0 < d" "d \<le> RetryMaxDelay" "r_retry_not_before r = Some (UnixNano (rp_now (replies W n) + d))"
    using assms(1) by (auto simp: paced_def)
  have "in_int64 (rp_now (replies W n))" "in_int64 (rp_now (replies W n) + RetryMaxDelay)" "in_int64 (rp_now (replies V k))"
    using assms(4,5) by (simp_all add: nano_ok_def)
  moreover from this d have "in_int64 (rp_now (replies W n) + d)" by (auto simp: in_int64_def)
  moreover have "rp_now (replies W n) + d \<le> rp_now (replies V k)" using assms(3) d(2) unfolding later_def by (smt (verit))
  ultimately show ?thesis using d(3) assms(2) by (simp add: leaseable_def due_for_retry_def UnixNano_def)
qed

lemma stretches_finish:
  assumes "\<forall>(W, n) \<in> set xs. alone W \<and> nano_ok W \<and> N \<le> n" and "sorted_wrt (\<lambda>x y. later (fst x) (fst y)) xs"
    and "store_ok s" and "workload s \<le> N" and "xs \<noteq> [] \<longrightarrow> all_leaseable s (fst (hd xs))"
    and "\<forall>j r. find_row j s = Some r \<longrightarrow> \<not> finished r \<longrightarrow> k \<le> r_attempt r \<and> (0 < k \<longrightarrow> r_attempt r < maxAttempts)"
    and "0 \<le> k" and "maxAttempts \<le> k + int (length xs)"
  shows "find_row j (stretches xs s) = Some r \<Longrightarrow> finished r"
  using assms
proof (induction xs arbitrary: s k)
  case Nil
  then show ?case by (force simp: maxAttempts_def)
next
  case (Cons x xs)
  obtain W n where x: "x = (W, n)" by fastforce
  have W: "alone W" "nano_ok W" "workload s \<le> n" "all_leaseable s W" using Cons.prems x by auto
  let ?s = "stretch W n s"
  note eff = stretch_effect [OF W(1) Cons.prems(4) W(4,3)]
  have due: "all_leaseable ?s V" if "(V, m) \<in> set xs" for V m
    unfolding all_leaseable_def
  proof (intro allI impI)
    fix j r k
    assume r: "find_row j ?s = Some r" "\<not> finished r"
    have "later W V" "nano_ok V" using Cons.prems(2,3) that x by auto
    then show "leaseable (rp_now (replies V k)) r" using eff(3) [OF r] paced_leaseable W(2) by blast
  qed
  have att: "k + 1 \<le> r_attempt r \<and> r_attempt r < maxAttempts" if r: "find_row j ?s = Some r" "\<not> finished r" for j r
  proof -
    obtain r0 where r0: "find_row j s = Some r0" "r_attempt r0 < r_attempt r" "r_attempt r < maxAttempts"
      using eff(3) [OF r] by blast
    have "\<not> finished r0" using eff(2) r0(1) r by (auto simp: advances_def)
    then show ?thesis using Cons.prems(7) r0 by fastforce
  qed
  show ?case
  proof (rule Cons.IH [of ?s "k + 1"])
    show "find_row j (stretches xs ?s) = Some r" using Cons.prems(1) x by simp
    show "xs \<noteq> [] \<longrightarrow> all_leaseable ?s (fst (hd xs))" using due [of "fst (hd xs)" "snd (hd xs)"] by simp
    show "workload ?s \<le> N" using eff(2) Cons.prems(5) by (simp add: advances_def)
  qed (use Cons.prems due att eff(1) in auto)
qed

text \<open>
  C13: every job comes to an end. Take a run of a worker left alone with a database that
  answers, cut into at least \<open>maxAttempts\<close> stretches that each make \<open>maxAttempts\<close> rounds for
  every job and begin \<open>RetryMaxDelay\<close> after the last one ended, and let every unfinished job
  be due at the first. Then every job is still in the store and has succeeded or failed,
  whatever Kubernetes and NodeVault answered. Every retry falls due by the next stretch, and every stretch spends an
  attempt of every job that is left.
\<close>

theorem every_job_finishes:
  assumes "store_ok s" and "\<forall>(W, n) \<in> set xs. alone W \<and> nano_ok W \<and> nat maxAttempts * length (jobs s) \<le> n"
    and "sorted_wrt (\<lambda>x y. later (fst x) (fst y)) xs" and "maxAttempts \<le> int (length xs)"
    and "all_leaseable s (fst (hd xs))"
    and "find_row j s = Some r"
  shows "\<exists>r'. find_row j (stretches xs s) = Some r' \<and> (r_status r' = StatusSucceeded \<or> r_status r' = StatusFailed)"
proof -
  have "advances s (stretches xs s)" using assms(1,2) by (intro stretches_advance) auto
  then obtain r' where r': "find_row j (stretches xs s) = Some r'"
    using assms(6) unfolding advances_def by (metis option.exhaust)
  then have "finished r'"
    using stretches_finish [of xs "nat maxAttempts * length (jobs s)" s 0] assms(1-5) workload_bound [OF assms(1)]
      lease_ok_attempt store_ok_row [OF assms(1)] by (fastforce simp: row_ok_def)
  then show ?thesis using r' by (simp add: finished_def)
qed

text \<open>Five stretches, a minute apart.\<close>

definition demo_at :: "time \<Rightarrow> Worker" where
  "demo_at t = demo_worker []\<lparr>replies := (\<lambda>_. demo_reply\<lparr>rp_now := t\<rparr>)\<rparr>"

definition demo_stretches :: "(Worker \<times> nat) list" where
  "demo_stretches = map (\<lambda>k. (demo_at (int k * minute), 5)) [0, 1, 2, 3, 4]"

lemma demo_at_alone: "0 \<le> t \<Longrightarrow> t \<le> 4 * minute \<Longrightarrow> alone (demo_at t) \<and> nano_ok (demo_at t)"
  using demo_env_ok unfolding alone_def env_ok_def nano_ok_def demo_at_def
  by (simp add: demo_worker_def demo_reply_def reply_ok_def ts_ok_def leaseDuration_def in_int64_def RetryMaxDelay_def)

theorem every_job_finishes_witness:
  "\<exists>r. find_row ''job-1'' (stretches demo_stretches (demo_store demo_row)) = Some r \<and>
     (r_status r = StatusSucceeded \<or> r_status r = StatusFailed)"
proof (rule every_job_finishes)
  show "find_row ''job-1'' (demo_store demo_row) = Some demo_row" using demo_find [of demo_row] by (simp add: demo_store_def)
  show "store_ok (demo_store demo_row)" using demo_store_ok [OF demo_row_ok] .
  show "\<forall>(W, n) \<in> set demo_stretches. alone W \<and> nano_ok W \<and> nat maxAttempts * length (jobs (demo_store demo_row)) \<le> n"
    using demo_at_alone by (simp add: demo_stretches_def demo_store_def maxAttempts_def)
  show "sorted_wrt (\<lambda>x y. later (fst x) (fst y)) demo_stretches"
    by (simp add: demo_stretches_def later_def demo_at_def demo_reply_def RetryMaxDelay_def)
  show "maxAttempts \<le> int (length demo_stretches)" by (simp add: demo_stretches_def maxAttempts_def)
  show "all_leaseable (demo_store demo_row) (fst (hd demo_stretches))"
    by (auto simp: all_leaseable_def demo_store_def find_row_def leaseable_def due_for_retry_def demo_row_def new_row_def split: if_splits)
qed

end
