(* ===== verification/Metric_Counters.thy ===== *)
theory Metric_Counters
  imports Worker_World
begin

text \<open>
  pkg/metrics: the counters a worker increments, their registration and the calls that
  increment them. Instruments and the exporter belong to OpenTelemetry and Prometheus:
  \<open>int64Counter\<close> is \<open>meter.Int64Counter\<close>, \<open>add\<close> is the \<open>Add\<close> of an instrument on the
  exporter's state, \<open>scrape\<close> is what the endpoint shows for an instrument and its labels.
\<close>

section \<open>Registration\<close>

text \<open>A field is \<^const>\<open>None\<close> until \<open>New\<close> has filled it.\<close>

record 'c Metrics =
  jobsLeased :: "'c option"
  jobsCompleted :: "'c option"
  jobsFailed :: "'c option"
  l5aSubmitted :: "'c option"
  l5aErrors :: "'c option"
  l5bSubmitted :: "'c option"
  l5bErrors :: "'c option"
  failuresClassified :: "'c option"

definition empty_metrics :: "'c Metrics" where
  "empty_metrics =
     \<lparr>jobsLeased = None, jobsCompleted = None, jobsFailed = None, l5aSubmitted = None, l5aErrors = None,
      l5bSubmitted = None, l5bErrors = None, failuresClassified = None\<rparr>"

text \<open>The table of \<open>New\<close>: the field an instrument is stored in, and its name.\<close>

definition counters :: "(('c option \<Rightarrow> 'c Metrics \<Rightarrow> 'c Metrics) \<times> string) list" where
  "counters =
     [(\<lambda>c m. m\<lparr>jobsLeased := c\<rparr>, ''nodesentinel_jobs_leased''),
      (\<lambda>c m. m\<lparr>jobsCompleted := c\<rparr>, ''nodesentinel_jobs_completed''),
      (\<lambda>c m. m\<lparr>jobsFailed := c\<rparr>, ''nodesentinel_jobs_failed''),
      (\<lambda>c m. m\<lparr>l5aSubmitted := c\<rparr>, ''nodesentinel_l5a_check_records_submitted''),
      (\<lambda>c m. m\<lparr>l5aErrors := c\<rparr>, ''nodesentinel_l5a_submit_errors''),
      (\<lambda>c m. m\<lparr>l5bSubmitted := c\<rparr>, ''nodesentinel_l5b_scan_records_submitted''),
      (\<lambda>c m. m\<lparr>l5bErrors := c\<rparr>, ''nodesentinel_l5b_submit_errors''),
      (\<lambda>c m. m\<lparr>failuresClassified := c\<rparr>, ''nodesentinel_failures_classified'')]"

fun register ::
  "(string \<Rightarrow> string + 'c) \<Rightarrow> (('c option \<Rightarrow> 'c Metrics \<Rightarrow> 'c Metrics) \<times> string) list \<Rightarrow> 'c Metrics \<Rightarrow> string + 'c Metrics" where
  "register int64Counter [] m = Inr m"
| "register int64Counter ((dest, name) # cs) m =
     (case int64Counter name of Inl e \<Rightarrow> Inl e | Inr c \<Rightarrow> register int64Counter cs (dest (Some c) m))"

text \<open>\<open>exporter\<close> is the error of creating the exporter, if any.\<close>

definition New_metrics :: "string option \<Rightarrow> (string \<Rightarrow> string + 'c) \<Rightarrow> string + 'c Metrics" where
  "New_metrics exporter int64Counter =
     (case exporter of Some e \<Rightarrow> Inl e | None \<Rightarrow> register int64Counter counters empty_metrics)"

section \<open>Increments\<close>

type_synonym labels = "(string \<times> string) list"

text \<open>The string a \<open>FailureClass\<close> is (failureclass.go).\<close>

fun FailureClass_string :: "FailureClass \<Rightarrow> string" where
  "FailureClass_string FailureClassDeterministic = ''DETERMINISTIC''"
| "FailureClass_string FailureClassTransientInfra = ''TRANSIENT_INFRA''"
| "FailureClass_string FailureClassResourceObservation = ''RESOURCE_OBSERVATION''"
| "FailureClass_string FailureClassUnknown = ''UNKNOWN''"

definition class_labels :: "FailureClass \<Rightarrow> string \<Rightarrow> labels" where
  "class_labels c stage = [(''class'', FailureClass_string c), (''stage'', stage)]"

text \<open>One equation per \<open>Inc\<close> method; \<^const>\<open>None\<close> is the panic of a method call on a nil instrument.\<close>

fun Inc :: "('c \<Rightarrow> int \<Rightarrow> labels \<Rightarrow> 's \<Rightarrow> 's) \<Rightarrow> 'c Metrics \<Rightarrow> metric \<Rightarrow> 's \<Rightarrow> 's option" where
  "Inc add m JobsLeased s = map_option (\<lambda>c. add c 1 [] s) (jobsLeased m)"
| "Inc add m JobsCompleted s = map_option (\<lambda>c. add c 1 [] s) (jobsCompleted m)"
| "Inc add m JobsFailed s = map_option (\<lambda>c. add c 1 [] s) (jobsFailed m)"
| "Inc add m L5aSubmitted s = map_option (\<lambda>c. add c 1 [] s) (l5aSubmitted m)"
| "Inc add m L5aErrors s = map_option (\<lambda>c. add c 1 [] s) (l5aErrors m)"
| "Inc add m L5bSubmitted s = map_option (\<lambda>c. add c 1 [] s) (l5bSubmitted m)"
| "Inc add m L5bErrors s = map_option (\<lambda>c. add c 1 [] s) (l5bErrors m)"
| "Inc add m (FailuresClassified cls stage) s = map_option (\<lambda>c. add c 1 (class_labels cls stage) s) (failuresClassified m)"

text \<open>All increments of a run, the newest first.\<close>

fun Inc_all :: "('c \<Rightarrow> int \<Rightarrow> labels \<Rightarrow> 's \<Rightarrow> 's) \<Rightarrow> 'c Metrics \<Rightarrow> metric list \<Rightarrow> 's \<Rightarrow> 's option" where
  "Inc_all add m [] s = Some s"
| "Inc_all add m (x # xs) s = Option.bind (Inc_all add m xs s) (Inc add m x)"

section \<open>What the endpoint shows\<close>

fun series :: "metric \<Rightarrow> string \<times> labels" where
  "series JobsLeased = (''nodesentinel_jobs_leased'', [])"
| "series JobsCompleted = (''nodesentinel_jobs_completed'', [])"
| "series JobsFailed = (''nodesentinel_jobs_failed'', [])"
| "series L5aSubmitted = (''nodesentinel_l5a_check_records_submitted'', [])"
| "series L5aErrors = (''nodesentinel_l5a_submit_errors'', [])"
| "series L5bSubmitted = (''nodesentinel_l5b_scan_records_submitted'', [])"
| "series L5bErrors = (''nodesentinel_l5b_submit_errors'', [])"
| "series (FailuresClassified cls stage) = (''nodesentinel_failures_classified'', class_labels cls stage)"

text \<open>
  The documented behaviour of an instrument: what is added to it appears at the endpoint
  under its name and the labels given, and nowhere else.
\<close>

definition exported :: "(string \<Rightarrow> string + 'c) \<Rightarrow> ('c \<Rightarrow> int \<Rightarrow> labels \<Rightarrow> 's \<Rightarrow> 's) \<Rightarrow> ('s \<Rightarrow> string \<times> labels \<Rightarrow> int) \<Rightarrow> bool" where
  "exported int64Counter add scrape \<longleftrightarrow>
     (\<forall>name c k l s q. int64Counter name = Inr c \<longrightarrow>
        scrape (add c k l s) q = scrape s q + (if q = (name, l) then k else 0))"

lemma New_fields:
  assumes "New_metrics exporter int64Counter = Inr m"
  shows "\<exists>c. int64Counter (fst (series x)) = Inr c \<and> Inc add m x s = Some (add c 1 (snd (series x)) s)"
  using assms by (cases x) (auto simp: New_metrics_def counters_def empty_metrics_def split: option.splits sum.splits)

lemma Inc_all_shown:
  assumes m: "New_metrics exporter int64Counter = Inr m" and ex: "exported int64Counter add scrape"
  shows "\<exists>s'. Inc_all add m xs s = Some s' \<and>
    (\<forall>q. scrape s' q = scrape s q + int (length (filter (\<lambda>x. series x = q) xs)))"
proof (induction xs)
  case Nil
  show ?case by simp
next
  case (Cons x xs)
  then obtain s' where s': "Inc_all add m xs s = Some s'"
    "\<forall>q. scrape s' q = scrape s q + int (length (filter (\<lambda>x. series x = q) xs))" by blast
  obtain c where c: "int64Counter (fst (series x)) = Inr c" "Inc add m x s' = Some (add c 1 (snd (series x)) s')"
    using New_fields [OF m, of x add s'] by blast
  have "scrape (add c 1 (snd (series x)) s') q = scrape s' q + (if q = series x then 1 else 0)" for q
    using ex c(1) by (cases "series x"; cases q) (auto simp: exported_def)
  then have "scrape (add c 1 (snd (series x)) s') q = scrape s q + int (length (filter (\<lambda>x. series x = q) (x # xs)))" for q
    using s'(2) by (cases "series x = q") simp_all
  moreover have "Inc_all add m (x # xs) s = Some (add c 1 (snd (series x)) s')" using s'(1) c(2) by simp
  ultimately show ?case by blast
qed

lemma FailureClass_string_inj: "FailureClass_string c = FailureClass_string d \<longleftrightarrow> c = d"
  by (cases c; cases d) simp_all

lemma series_inj [simp]: "series x = series y \<longleftrightarrow> x = y"
  by (cases x; cases y) (simp_all add: class_labels_def FailureClass_string_inj)

lemma shown_count: "length (filter (\<lambda>x. series x = series y) xs) = count_list xs y"
  by (induction xs) auto

end
