(* ===== verification/Worker_Metrics.thy ===== *)
theory Worker_Metrics
  imports Worker_Logic Metric_Counters
begin

text \<open>
  The counters against what a worker did: leases, completions and failures appear at the
  metrics endpoint as often as they happened, and the labels stay within their fixed sets.
\<close>

section \<open>The ledger\<close>

fun lease_granted :: "event \<Rightarrow> bool" where
  "lease_granted (EvLease (Inr _)) = True"
| "lease_granted _ = False"

fun completion_accepted :: "event \<Rightarrow> bool" where
  "completion_accepted (EvComplete _ _ (Inr _)) = True"
| "completion_accepted _ = False"

fun failure_written :: "event \<Rightarrow> bool" where
  "failure_written (EvFail _ _ _) = True"
| "failure_written _ = False"

abbreviation happened :: "(event \<Rightarrow> bool) \<Rightarrow> world \<Rightarrow> nat" where
  "happened P w \<equiv> length (filter P (w_trace w))"

abbreviation counter :: "metric \<Rightarrow> world \<Rightarrow> nat" where
  "counter x w \<equiv> count_list (w_metrics w) x"

definition stage_labels :: "string set" where
  "stage_labels = {StageL3, StageL4, StageL5A}"

fun label_ok :: "metric \<Rightarrow> bool" where
  "label_ok (FailuresClassified c stage) = (stage \<in> stage_labels)"
| "label_ok _ = True"

text \<open>Counters and trace agree, and \<open>d\<close> attempts are under way.\<close>

definition ledger :: "nat \<Rightarrow> world \<Rightarrow> bool" where
  "ledger d w \<longleftrightarrow> counter JobsLeased w = happened lease_granted w \<and>
     counter JobsCompleted w = happened completion_accepted w \<and>
     happened failure_written w \<le> counter JobsFailed w \<and>
     counter JobsCompleted w + counter JobsFailed w + d \<le> counter JobsLeased w \<and>
     list_all label_ok (w_metrics w)"

fun uncounted :: "event \<Rightarrow> bool" where
  "uncounted (EvLease _) = False"
| "uncounted (EvComplete _ _ _) = False"
| "uncounted (EvFail _ _ _) = False"
| "uncounted _ = True"

lemma uncounted_not: "uncounted e \<Longrightarrow> \<not> lease_granted e \<and> \<not> completion_accepted e \<and> \<not> failure_written e"
  by (cases e) simp_all

lemma ledger_event: "uncounted e \<Longrightarrow> ledger d (w\<lparr>w_trace := e # w_trace w\<rparr>) = ledger d w"
  using uncounted_not [of e] by (simp add: ledger_def)

section \<open>The stages\<close>

lemma store_ledger: "(\<And>x. uncounted (ev x)) \<Longrightarrow> ledger d w \<Longrightarrow> wp (store_op W bg f ev) (\<lambda>_. ledger d) w"
  using uncounted_not by (intro wp_store_op) (auto simp: ledger_def)

lemma remote_ledger: "(\<And>x. uncounted (ev x)) \<Longrightarrow> ledger d w \<Longrightarrow> wp (remote_op W bg f dead ev) (\<lambda>_. ledger d) w"
  using uncounted_not by (intro wp_remote_op) (auto simp: ledger_def)

lemma pure_ledger:
  "ledger d w \<Longrightarrow> wp (sample W) (\<lambda>_. ledger d) w" "ledger d w \<Longrightarrow> wp lose (\<lambda>_. ledger d) w"
  "ledger d w \<Longrightarrow> wp end_attempt (\<lambda>_. ledger d) w"
  by (simp_all add: wp_sample wp_lose wp_end_attempt ledger_def)

lemma inc_ledger: "stage_metric m \<Longrightarrow> ledger d w \<Longrightarrow> wp (inc W m) (\<lambda>_. ledger d) w"
  by (cases m) (auto simp: wp_inc ledger_def stage_labels_def)

lemmas ledger_rules = store_ledger [THEN wp_mono] remote_ledger [THEN wp_mono] pure_ledger [THEN wp_mono]

lemma heartbeat_ledger: "ledger d w \<Longrightarrow> wp (heartbeat W job) (\<lambda>_. ledger d) w"
  unfolding heartbeat_def do_Heartbeat_def by (intro wp_rules ledger_rules) auto

lemma stillLeased_ledger: "ledger d w \<Longrightarrow> wp (stillLeased W job) (\<lambda>_. ledger d) w"
  unfolding stillLeased_def by (intro wp_rules heartbeat_ledger [THEN wp_mono]) auto

lemma submit_ledger:
  assumes "ledger d w"
  shows "wp (submitCheckRecord W job sub) (\<lambda>_. ledger d) w" "wp (submitScanRecord W job req) (\<lambda>_. ledger d) w"
  using assms unfolding submitCheckRecord_def submitScanRecord_def claimTerminal_def do_ClaimTerminal_def
    do_markDeliveryPending_def post_record_def
  by (intro wp_rules stillLeased_ledger [THEN wp_mono] ledger_rules; simp)+

lemma release_ledger: "ledger d w \<Longrightarrow> wp (markExecutionTerminal W bg job) (\<lambda>_. ledger d) w"
  unfolding markExecutionTerminal_def do_MarkExecutionTerminal_def by (intro wp_rules ledger_rules) auto

interpretation stage_ledger: submit_invariant W "\<lambda>_. True" "\<lambda>_. True" "ledger d" for W d
  by unfold_locales
    (auto simp: do_GetJob_def remote_calls
      intro: inc_ledger pure_ledger heartbeat_ledger store_ledger remote_ledger submit_ledger release_ledger)

section \<open>The ends of an attempt\<close>

lemma CompleteJob_canceled: "fst (CompleteJob canceled now j w a res s) \<noteq> Inr ()"
  by (simp add: CompleteJob_def finishJob_def ExecContext_def canceled_def)

lemma complete_ledger: "metrics W \<Longrightarrow> ledger 1 w \<Longrightarrow> wp (complete_attempt W job summary) (\<lambda>_. ledger 0) w"
  unfolding complete_attempt_def do_CompleteJob_def
  by (intro wp_rules wp_store_op) (auto simp: wp_inc ledger_def CompleteJob_canceled split: sum.splits intro!: wp_rules)

lemma report_ledger: "ledger d w \<Longrightarrow> wp (reportTerminalFailure W job stage command dec) (\<lambda>_. ledger d) w"
  unfolding reportTerminalFailure_def by (intro wp_rules submit_ledger [THEN wp_mono]) auto

lemma classified_ledger: "stage \<in> stage_labels \<Longrightarrow> ledger d w \<Longrightarrow> wp (inc W (FailuresClassified c stage)) (\<lambda>_. ledger d) w"
  by (simp add: wp_inc ledger_def)

lemma fail_job_ledger: "metrics W \<Longrightarrow> ledger 1 w \<Longrightarrow> wp (do_FailJob W job dec) (\<lambda>_. wp (inc W JobsFailed) (\<lambda>_. ledger 0)) w"
  unfolding do_FailJob_def by (intro wp_store_op) (simp_all add: wp_inc ledger_def)

lemma fail_ledger:
  "metrics W \<Longrightarrow> stage \<in> stage_labels \<Longrightarrow> ledger 1 w \<Longrightarrow> wp (fail_attempt W job stage command cls why) (\<lambda>_. ledger 0) w"
  unfolding fail_attempt_def
  by (intro wp_rules pure_ledger(1) [where d = 1, THEN wp_mono] classified_ledger [where d = 1, THEN wp_mono]
      report_ledger [where d = 1, THEN wp_mono] fail_job_ledger [THEN wp_mono]) auto

lemma ledger_mono: "ledger 1 w \<Longrightarrow> ledger 0 w"
  by (simp add: ledger_def)

lemma finish_ledger: "metrics W \<Longrightarrow> ledger 1 w \<Longrightarrow> wp (finishAfterL4 W job plan isL5ALast) (\<lambda>_. ledger 0) w"
  unfolding finishAfterL4_def
  by (intro wp_rules stage_ledger.optional_stage_keeps [where d = 1, THEN wp_mono] stage_ledger.runL5a_keeps
      stage_ledger.runL5b_keeps complete_ledger) (auto intro: ledger_mono)

lemma stages_named: "StageL3 \<in> stage_labels" "StageL4 \<in> stage_labels"
  by (simp_all add: stage_labels_def)

lemma run_L4_ledger: "metrics W \<Longrightarrow> ledger 1 w \<Longrightarrow> wp (run_L4 W job plan adopted) (\<lambda>_. ledger 0) w"
  unfolding run_L4_def
  by (intro wp_rules stage_ledger.runSmokeRun_keeps [where d = 1, THEN wp_mono] fail_ledger
      stage_ledger.success_report_keeps [where d = 1, THEN wp_mono] finish_ledger)
    (auto intro: ledger_mono stages_named)

lemma run_L3_ledger: "metrics W \<Longrightarrow> ledger 1 w \<Longrightarrow> wp (run_L3 W job plan adopted) (\<lambda>_. ledger 0) w"
  unfolding run_L3_def runDryRun_def
  by (intro wp_rules remote_ledger [where d = 1, THEN wp_mono] release_ledger [where d = 1, THEN wp_mono]
      fail_ledger run_L4_ledger) (auto intro: stages_named)

lemma run_execution_ledger: "metrics W \<Longrightarrow> ledger 1 w \<Longrightarrow> wp (run_execution W job plan adopted) (\<lambda>_. ledger 0) w"
  unfolding run_execution_def
  by (intro wp_rules stage_ledger.exists_keeps [where d = 1, THEN wp_mono] fail_ledger finish_ledger run_L3_ledger)
    (auto intro: stages_named)

lemma process_ledger: "metrics W \<Longrightarrow> ledger 1 w \<Longrightarrow> wp (process W job) (\<lambda>_. ledger 0) w"
  unfolding process_def run_plan_def do_EnsureExecution_def
  by (intro wp_rules stage_ledger.retire_keeps [where d = 1, THEN wp_mono] store_ledger [where d = 1, THEN wp_mono]
      fail_ledger run_execution_ledger) (auto intro: stages_named ledger_mono)

section \<open>The loop\<close>

lemma lease_ledger:
  "metrics W \<Longrightarrow> ledger 0 w \<Longrightarrow> wp (do_LeaseJob W)
     (\<lambda>res w'. case res of Inl _ \<Rightarrow> ledger 0 w' | Inr _ \<Rightarrow> wp (inc W JobsLeased) (\<lambda>_. ledger 1) w') w"
  unfolding do_LeaseJob_def
  by (intro wp_store_op) (auto simp: wp_inc ledger_def LeaseJob_def canceled_def split: sum.splits)

lemma Run_ledger: "metrics W \<Longrightarrow> ledger 0 w \<Longrightarrow> wp (Run W n) (\<lambda>_. ledger 0) w"
proof (induction n arbitrary: w)
  case 0
  then show ?case by (auto intro: wp_ret)
next
  case (Suc n)
  show ?case unfolding Run.simps
    by (intro wp_rules lease_ledger [OF Suc.prems, THEN wp_mono])
      (auto split: sum.splits intro!: wp_rules pure_ledger [THEN wp_mono] process_ledger [THEN wp_mono] Suc elim!: wp_mono)
qed

section \<open>The endpoint\<close>

lemma no_series:
  assumes "list_all label_ok xs" and "stage \<notin> stage_labels"
  shows "length (filter (\<lambda>x. series x = (''nodesentinel_failures_classified'', class_labels c stage)) xs) = 0"
proof -
  have "FailuresClassified c stage \<notin> set xs" using assms by (auto simp: list_all_iff)
  then show ?thesis using shown_count [of "FailuresClassified c stage" xs] by (simp only: series.simps count_list_0_iff) simp
qed

text \<open>
  C34: the metrics endpoint tells the truth about a worker. Whatever the cluster, NodeVault,
  the database and other workers answer, after any number of rounds of the loop the endpoint
  shows as many leased jobs as leases were granted, as many completed jobs as completions
  the store accepted, and at least one failed job per failure written; attempts that ended
  never outnumber leases, and no failure is counted under a stage other than L3, L4 or L5A.
  No increment meets an instrument that \<open>New\<close> did not create.
\<close>

theorem metrics_endpoint_truthful:
  assumes "New_metrics exporter int64Counter = Inr m" and "exported int64Counter add scrape"
    and "\<forall>q. scrape s q = 0" and "metrics W" and "w_trace w = []" and "w_metrics w = []"
    and w': "w' = snd (run_state (Run W n) w)"
  shows "\<exists>s'. Inc_all add m (w_metrics w') s = Some s' \<and>
    scrape s' (''nodesentinel_jobs_leased'', []) = int (happened lease_granted w') \<and>
    scrape s' (''nodesentinel_jobs_completed'', []) = int (happened completion_accepted w') \<and>
    int (happened failure_written w') \<le> scrape s' (''nodesentinel_jobs_failed'', []) \<and>
    scrape s' (''nodesentinel_jobs_completed'', []) + scrape s' (''nodesentinel_jobs_failed'', [])
      \<le> scrape s' (''nodesentinel_jobs_leased'', []) \<and>
    (\<forall>c stage. stage \<notin> {StageL3, StageL4, StageL5A} \<longrightarrow>
      scrape s' (''nodesentinel_failures_classified'', class_labels c stage) = 0)"
proof -
  have "ledger 0 w" using assms(5,6) by (simp add: ledger_def)
  then have l: "ledger 0 w'" using Run_ledger [OF assms(4)] w' by (simp add: wp_run)
  obtain s' where s': "Inc_all add m (w_metrics w') s = Some s'"
    "\<And>q. scrape s' q = int (length (filter (\<lambda>x. series x = q) (w_metrics w')))"
    using Inc_all_shown [OF assms(1,2), of "w_metrics w'" s] assms(3) by auto
  have n: "scrape s' (series x) = int (counter x w')" for x unfolding s'(2) by (simp only: shown_count)
  note shown = n [of JobsLeased] n [of JobsCompleted] n [of JobsFailed]
  have "scrape s' (''nodesentinel_failures_classified'', class_labels c stage) = 0"
    if "stage \<notin> {StageL3, StageL4, StageL5A}" for c stage
    using no_series [of "w_metrics w'" stage c] l that s'(2) by (simp add: ledger_def stage_labels_def)
  with shown l s'(1) show ?thesis by (auto simp: ledger_def)
qed

text \<open>An exporter that keeps one number per series.\<close>

definition demo_add :: "string \<Rightarrow> int \<Rightarrow> labels \<Rightarrow> (string \<times> labels \<Rightarrow> int) \<Rightarrow> string \<times> labels \<Rightarrow> int" where
  "demo_add name k l s = s((name, l) := s (name, l) + k)"

theorem metrics_endpoint_truthful_witness:
  "\<exists>m s'. New_metrics None (Inr :: string \<Rightarrow> string + string) = Inr m \<and>
     Inc_all demo_add m (w_metrics (snd (run_state (Run (demo_worker []) 3) (demo_world demo_row)))) (\<lambda>_. 0) = Some s' \<and>
     s' (''nodesentinel_jobs_leased'', []) =
       int (happened lease_granted (snd (run_state (Run (demo_worker []) 3) (demo_world demo_row))))"
proof -
  obtain m where m: "New_metrics None (Inr :: string \<Rightarrow> string + string) = Inr m"
    by (simp add: New_metrics_def counters_def)
  have "exported (Inr :: string \<Rightarrow> string + string) demo_add (\<lambda>s. s)"
    by (simp add: exported_def demo_add_def)
  from metrics_endpoint_truthful [OF m this, where s = "\<lambda>_. 0" and W = "demo_worker []" and w = "demo_world demo_row" and n = 3,
      OF _ _ _ _ refl] m
  show ?thesis by (auto simp: demo_worker_def demo_world_def)
qed


text \<open>
  The counter of failed jobs may run ahead of the failures written: \<open>process\<close> ignores the
  error of \<open>FailJob\<close> and counts in any case, here after a shutdown has canceled the call.
\<close>

definition demo_canceled_failure :: world where
  "demo_canceled_failure = snd (run_state (process (demo_worker [demo_reply\<lparr>rp_shutdown := True\<rparr>])
     (demo_attempt\<lparr>RequestedActions := [''x'']\<rparr>)) (demo_world demo_leased))"

lemma failed_counted_unwritten:
  "JobsFailed \<in> set (w_metrics demo_canceled_failure) \<and> \<not> list_ex failure_written (w_trace demo_canceled_failure)"
proof -
  have "map_prod (\<lambda>m. JobsFailed \<in> set m) (list_ex failure_written) (w_metrics demo_canceled_failure, w_trace demo_canceled_failure)
      = (True, False)" by code_simp
  then show ?thesis by simp
qed


end
