(* ===== verification/Scan_Verdict.thy ===== *)
theory Scan_Verdict
  imports Worker_Logic
begin

text \<open>
  What an L5-b scan record may say: the verdict of a report on the very image, or that none
  is available.
\<close>

fun posted_as :: "(submission \<Rightarrow> bool) \<Rightarrow> event \<Rightarrow> bool" where
  "posted_as P (EvPost b _) = P b"
| "posted_as P _ = True"

abbreviation posts_only :: "(submission \<Rightarrow> bool) \<Rightarrow> world \<Rightarrow> bool" where
  "posts_only P w \<equiv> list_all (posted_as P) (w_trace w)"

lemma store_posts: "posts_only P w \<Longrightarrow> (\<And>x. posted_as P (ev x)) \<Longrightarrow> wp (store_op W bg f ev) (\<lambda>_. posts_only P) w"
  by (intro wp_store_op) simp_all

lemma remote_posts: "posts_only P w \<Longrightarrow> (\<And>x. posted_as P (ev x)) \<Longrightarrow> wp (remote_op W bg f dead ev) (\<lambda>_. posts_only P) w"
  by (intro wp_remote_op) simp_all

lemma lose_posts: "posts_only P w \<Longrightarrow> wp lose (\<lambda>_. posts_only P) w"
  by (simp add: wp_lose)

lemma submitScanRecord_posts:
  "posts_only P w \<Longrightarrow> P (ScanBody req) \<Longrightarrow> wp (submitScanRecord W job req) (\<lambda>_. posts_only P) w"
  unfolding submitScanRecord_def stillLeased_def heartbeat_def claimTerminal_def store_calls post_record_def
  by (intro wp_rules store_posts [THEN wp_mono] remote_posts [THEN wp_mono] lose_posts [THEN wp_mono]) auto

text \<open>Under a context that has ended nothing is posted at all.\<close>

abbreviation dead_posts :: "(submission \<Rightarrow> bool) \<Rightarrow> world \<Rightarrow> bool" where
  "dead_posts P w \<equiv> posts_only P w \<and> w_ctx w \<noteq> Live"

lemma store_dead: "dead_posts P w \<Longrightarrow> (\<And>x. posted_as P (ev x)) \<Longrightarrow> wp (store_op W bg f ev) (\<lambda>_. dead_posts P) w"
  by (intro wp_store_op) (simp_all add: arrive_ctx)

lemma remote_dead: "dead_posts P w \<Longrightarrow> wp (remote_op W False f dead ev) (\<lambda>_. dead_posts P) w"
  by (intro wp_remote_op) (simp_all add: arrive_ctx)

lemma lose_dead: "dead_posts P w \<Longrightarrow> wp lose (\<lambda>_. dead_posts P) w"
  by (simp add: wp_lose)

lemma submitScanRecord_dead: "dead_posts P w \<Longrightarrow> wp (submitScanRecord W job req) (\<lambda>_. posts_only P) w"
  unfolding submitScanRecord_def stillLeased_def heartbeat_def claimTerminal_def store_calls post_record_def
  by (intro wp_rules store_dead [THEN wp_mono] remote_dead [THEN wp_mono] lose_dead [THEN wp_mono]) auto

section \<open>What a report says\<close>

text \<open>The value at a path of keys.\<close>

fun json_at :: "json \<Rightarrow> string list \<Rightarrow> json option" where
  "json_at v [] = Some v"
| "json_at (JMap m) (f # fs) = (case map_of m f of Some v \<Rightarrow> json_at v fs | None \<Rightarrow> None)"
| "json_at _ (f # fs) = None"

lemma json_at_append: "json_at v (xs @ ys) = (case json_at v xs of Some w \<Rightarrow> json_at w ys | None \<Rightarrow> None)"
  by (induction v xs rule: json_at.induct) (simp_all split: option.splits)

lemma nestedMap_at: "nestedMap obj fs = Some m \<longleftrightarrow> json_at (JMap obj) fs = Some (JMap m)"
proof (induction obj fs rule: nestedMap.induct)
  case (2 obj f fs)
  show ?case
  proof (cases "map_of obj f")
    case (Some v)
    then show ?thesis using 2 by (cases v; cases fs) auto
  qed simp
qed auto

lemma nestedStr_at: "fs \<noteq> [] \<Longrightarrow> nestedStr obj fs = Some v \<longleftrightarrow> json_at (JMap obj) fs = Some (JStr v)"
proof (induction obj fs rule: nestedStr.induct)
  case (2 obj f)
  then show ?case by (auto split: option.splits json.splits)
next
  case (3 obj f g fs)
  show ?case
  proof (cases "map_of obj f")
    case (Some w)
    then show ?thesis using 3 by (cases w) auto
  qed simp
qed simp

lemma json_at_key: "json_at v [k] = (case v of JMap m \<Rightarrow> map_of m k | _ \<Rightarrow> None)"
  by (cases v) (simp_all split: option.splits)

declare json_at.simps [simp del] nestedStr.simps [simp del] nestedMap.simps [simp del]

text \<open>
  The scanner a report names, a count of its summary (absent or not a number: zero), and the
  first report on the job's image, which is of use if it names its scanner.
\<close>

definition scanner_of :: "json_object \<Rightarrow> string" where
  "scanner_of obj = (case json_at (JMap obj) [''report'', ''scanner'', ''name''] of Some (JStr v) \<Rightarrow> v | _ \<Rightarrow> '''')"

definition count_at :: "json_object \<Rightarrow> string \<Rightarrow> int" where
  "count_at obj key =
     (case json_at (JMap obj) [''report'', ''summary'', key] of
        Some (JInt n) \<Rightarrow> n | Some (JFloat m e) \<Rightarrow> int_of_float m e | _ \<Rightarrow> 0)"

definition usable_report :: "bool \<Rightarrow> string \<Rightarrow> string + json_object list \<Rightarrow> json_object option" where
  "usable_report kube digest res =
     (case res of
        Inl _ \<Rightarrow> None
      | Inr items \<Rightarrow>
          if \<not> kube then None
          else case find (\<lambda>obj. json_at (JMap obj) [''report'', ''artifact'', ''digest''] = Some (JStr digest)) items of
                 None \<Rightarrow> None
               | Some obj \<Rightarrow> if scanner_of obj = '''' then None else Some obj)"

lemma parse_scanner: "tv_Scanner (parseTrivySummary obj) = scanner_of obj"
proof -
  have "or_empty (nestedStr obj fs) = (case json_at (JMap obj) fs of Some (JStr v) \<Rightarrow> v | _ \<Rightarrow> '''')" if "fs \<noteq> []" for fs
  proof (cases "nestedStr obj fs")
    case None
    then have "json_at (JMap obj) fs \<noteq> Some (JStr v)" for v using nestedStr_at [OF that, of obj v] by simp
    then show ?thesis unfolding None or_empty_def by (simp split: option.splits json.splits)
  next
    case (Some v)
    then show ?thesis using nestedStr_at [OF that, of obj v] by (simp add: or_empty_def)
  qed
  then show ?thesis by (simp add: parseTrivySummary_def scanner_of_def Let_def)
qed

lemma count_parsed:
  "(case nestedMap obj [''report'', ''summary''] of Some summary \<Rightarrow> nestedInt summary key | None \<Rightarrow> 0) = count_at obj key"
proof -
  have at: "json_at (JMap obj) [''report'', ''summary'', key] =
      (case json_at (JMap obj) [''report'', ''summary''] of Some w \<Rightarrow> json_at w [key] | None \<Rightarrow> None)"
    using json_at_append [of "JMap obj" "[''report'', ''summary'']" "[key]"] by simp
  show ?thesis
  proof (cases "nestedMap obj [''report'', ''summary'']")
    case None
    then have "json_at (JMap obj) [''report'', ''summary''] \<noteq> Some (JMap m)" for m using nestedMap_at [of obj _ m] by (metis option.distinct(1))
    then have "json_at (JMap obj) [''report'', ''summary'', key] = None"
      unfolding at by (auto simp: json_at_key split: option.splits json.splits)
    then show ?thesis unfolding None count_at_def by simp
  next
    case (Some m)
    then have "json_at (JMap obj) [''report'', ''summary'', key] = map_of m key"
      unfolding at using nestedMap_at [of obj _ m] by (simp add: json_at_key)
    then show ?thesis unfolding Some count_at_def by (simp add: nestedInt_def split: option.splits json.splits)
  qed
qed

lemma parse_counts:
  "tv_CriticalCount (parseTrivySummary obj) = count_at obj ''criticalCount''"
  "tv_HighCount (parseTrivySummary obj) = count_at obj ''highCount''"
  "tv_MediumCount (parseTrivySummary obj) = count_at obj ''mediumCount''"
  "tv_LowCount (parseTrivySummary obj) = count_at obj ''lowCount''"
  by (simp_all only: parseTrivySummary_def Let_def count_parsed trivyVulnSummary.simps)

section \<open>The record says what the report says\<close>

definition honest :: "Worker \<Rightarrow> Job \<Rightarrow> string + json_object list \<Rightarrow> submission \<Rightarrow> bool" where
  "honest W job res b \<longleftrightarrow>
     (\<exists>req. b = ScanBody req \<and> sr_Terminal req \<and> sr_SentinelJobID req = JobID job \<and> sr_ImageDigest req = ImageDigest job \<and>
        (case usable_report (dynamicKube W) (ImageDigest job) res of
           None \<Rightarrow> sr_PolicyResult req = ''not-available'' \<and> sr_CriticalCount req = 0 \<and> sr_HighCount req = 0 \<and>
             sr_MediumCount req = 0 \<and> sr_LowCount req = 0
         | Some obj \<Rightarrow> sr_Scanner req = scanner_of obj \<and>
             sr_CriticalCount req = count_at obj ''criticalCount'' \<and> sr_HighCount req = count_at obj ''highCount'' \<and>
             sr_MediumCount req = count_at obj ''mediumCount'' \<and> sr_LowCount req = count_at obj ''lowCount'' \<and>
             sr_PolicyResult req =
               (if count_at obj ''criticalCount'' > 0 \<or> count_at obj ''highCount'' > 0 then ''warning'' else ''passed'')))"

lemma matching_usable:
  "usable_report True digest (Inr items) =
     (case find (\<lambda>obj. nestedStr obj [''report'', ''artifact'', ''digest''] = Some digest) items of
        None \<Rightarrow> None | Some obj \<Rightarrow> if tv_Scanner (parseTrivySummary obj) = '''' then None else Some obj)"
  by (simp add: usable_report_def nestedStr_at parse_scanner split: option.splits)

lemma not_available_honest:
  "usable_report (dynamicKube W) (ImageDigest job) res = None \<Longrightarrow> honest W job res (ScanBody (not_available_request job))"
  by (simp add: honest_def not_available_request_def)

lemma no_kube_honest: "\<not> dynamicKube W \<Longrightarrow> honest W job res (ScanBody (not_available_request job))"
  by (rule not_available_honest) (simp add: usable_report_def split: sum.splits)

lemma no_list_honest: "honest W job (Inl e) (ScanBody (not_available_request job))"
  by (rule not_available_honest) (simp add: usable_report_def)

lemma no_match_honest:
  assumes "dynamicKube W" and "case matching_report (ImageDigest job) items of None \<Rightarrow> True | Some m \<Rightarrow> tv_Scanner m = ''''"
  shows "honest W job (Inr items) (ScanBody (not_available_request job))"
  using assms by (intro not_available_honest) (auto simp: matching_usable matching_report_def split: option.splits)

lemma matching_honest:
  assumes "dynamicKube W" and "matching_report (ImageDigest job) items = Some m" and "tv_Scanner m \<noteq> ''''"
  shows "honest W job (Inr items) (ScanBody (scan_request job m))"
  using assms by (auto simp: honest_def matching_usable matching_report_def scan_request_def parse_scanner parse_counts)

lemma reports_first:
  "posts_only P w \<Longrightarrow> wp (list_reports W) (\<lambda>res w'. posts_only P w' \<and> (w_ctx w' = Live \<longrightarrow> res = rp_reports (next_reply W w)) \<and>
     (w_ctx w' \<noteq> Live \<longrightarrow> (\<exists>e. res = Inl e))) w"
  unfolding list_reports_def by (intro wp_remote_op) simp_all

lemma submit_live_or_dead:
  assumes "posts_only P w" and "w_ctx w = Live \<Longrightarrow> P (ScanBody req)"
  shows "wp (submitScanRecord W job req) (\<lambda>_. posts_only P) w"
  using assms submitScanRecord_posts submitScanRecord_dead by (cases "w_ctx w = Live") blast+

lemma runL5b_honest:
  assumes "posts_only (honest W job (rp_reports (next_reply W w))) w"
  shows "wp (runL5b W job) (\<lambda>_. posts_only (honest W job (rp_reports (next_reply W w)))) w"
proof -
  let ?P = "honest W job (rp_reports (next_reply W w))"
  have none: "?P (ScanBody (not_available_request job))" if "Inl e = rp_reports (next_reply W w)" for e
    unfolding that [symmetric] by (rule no_list_honest)
  have no_match: "?P (ScanBody (not_available_request job))" if "Inr items = rp_reports (next_reply W w)" "dynamicKube W"
    "case matching_report (ImageDigest job) items of None \<Rightarrow> True | Some m \<Rightarrow> tv_Scanner m = ''''" for items
    unfolding that(1) [symmetric] by (rule no_match_honest [OF that(2,3)])
  have match: "?P (ScanBody (scan_request job m))" if "Inr items = rp_reports (next_reply W w)" "dynamicKube W"
    "matching_report (ImageDigest job) items = Some m" "tv_Scanner m \<noteq> ''''" for items m
    unfolding that(1) [symmetric] by (rule matching_honest [OF that(2-4)])
  show ?thesis unfolding runL5b_def submitNotAvailableScanRecord_def
    by (intro wp_rules reports_first [OF assms, THEN wp_mono] submit_live_or_dead)
      (use assms no_kube_honest none no_match match in auto)
qed

text \<open>
  C38: a scan record says what the report says. Every record the L5-b stage posts is a
  terminal record of this job and its image. If there is a dynamic client, the reports can be
  listed, and the first report on the job's image digest names its scanner, then the record
  carries that scanner and the four counts of the report's summary, and it passes exactly
  when neither critical nor high findings are counted. In every other case, and only then,
  the record says that no scan is available, and counts nothing.
\<close>

theorem scan_record_rests_on_report:
  assumes "w_trace w = []" and post: "EvPost b x \<in> set (w_trace (snd (run_state (runL5b W job) w)))"
  shows "\<exists>req. b = ScanBody req \<and> sr_Terminal req \<and> sr_SentinelJobID req = JobID job \<and> sr_ImageDigest req = ImageDigest job \<and>
    (case usable_report (dynamicKube W) (ImageDigest job) (rp_reports (replies W (w_step w))) of
       None \<Rightarrow> sr_PolicyResult req = ''not-available'' \<and> sr_CriticalCount req = 0 \<and> sr_HighCount req = 0 \<and>
         sr_MediumCount req = 0 \<and> sr_LowCount req = 0
     | Some obj \<Rightarrow> sr_Scanner req = scanner_of obj \<and>
         sr_CriticalCount req = count_at obj ''criticalCount'' \<and> sr_HighCount req = count_at obj ''highCount'' \<and>
         sr_MediumCount req = count_at obj ''mediumCount'' \<and> sr_LowCount req = count_at obj ''lowCount'' \<and>
         sr_PolicyResult req =
           (if count_at obj ''criticalCount'' > 0 \<or> count_at obj ''highCount'' > 0 then ''warning'' else ''passed''))"
proof -
  have "posts_only (honest W job (rp_reports (next_reply W w))) (snd (run_state (runL5b W job) w))"
    using runL5b_honest [of W job w] assms(1) by (simp add: wp_run)
  then have "posted_as (honest W job (rp_reports (next_reply W w))) (EvPost b x)" using post by (auto simp: list_all_iff)
  then show ?thesis by (simp add: honest_def)
qed

definition demo_report :: json_object where
  "demo_report = [(''report'', JMap
     [(''artifact'', JMap [(''digest'', JStr ''sha256:1'')]), (''scanner'', JMap [(''name'', JStr ''Trivy'')]),
      (''summary'', JMap [(''criticalCount'', JInt 0), (''highCount'', JFloat 3 0)])])]"

definition demo_scan :: Worker where
  "demo_scan = demo_worker [demo_reply\<lparr>rp_reports := Inr [demo_report]\<rparr>]\<lparr>dynamicKube := True\<rparr>"

definition scan_posts :: "event list \<Rightarrow> string list" where
  "scan_posts tr = [sr_PolicyResult req. EvPost (ScanBody req) _ \<leftarrow> tr]"

lemma demo_scan_posts:
  "scan_posts (w_trace (snd (run_state (runL5b demo_scan demo_attempt) (demo_world demo_leased)))) = [''warning'']"
  by code_simp

lemma scan_posts_mem: "v \<in> set (scan_posts tr) \<Longrightarrow> \<exists>req x. EvPost (ScanBody req) x \<in> set tr \<and> sr_PolicyResult req = v"
  by (auto simp: scan_posts_def split: event.splits submission.splits)

theorem scan_record_rests_on_report_witness:
  "\<exists>req x. EvPost (ScanBody req) x \<in> set (w_trace (snd (run_state (runL5b demo_scan demo_attempt) (demo_world demo_leased)))) \<and>
     sr_PolicyResult req = ''warning'' \<and> sr_Scanner req = ''Trivy'' \<and> sr_CriticalCount req = 0 \<and> sr_HighCount req = 3"
proof -
  let ?tr = "w_trace (snd (run_state (runL5b demo_scan demo_attempt) (demo_world demo_leased)))"
  obtain req x where p: "EvPost (ScanBody req) x \<in> set ?tr" and v: "sr_PolicyResult req = ''warning''"
    using scan_posts_mem [of "''warning''" ?tr] demo_scan_posts by auto
  have "rp_reports (replies demo_scan (w_step (demo_world demo_leased))) = Inr [demo_report]" "dynamicKube demo_scan"
    by (simp_all add: demo_scan_def demo_worker_def demo_world_def)
  moreover have "usable_report True (ImageDigest demo_attempt) (Inr [demo_report]) = Some demo_report" by code_simp
  moreover have "scanner_of demo_report = ''Trivy''" "count_at demo_report ''criticalCount'' = 0" "count_at demo_report ''highCount'' = 3"
    by code_simp+
  ultimately show ?thesis
    using scan_record_rests_on_report [OF demo_world_fields(2) p] v p by (intro exI [of _ req] exI [of _ x]) auto
qed

end
