(* ===== verification/Kube_Config.thy ===== *)
theory Kube_Config
  imports Main_Cmd
begin

text \<open>
  pkg/worker/k8sclient.go: which configuration the Kubernetes clients are built from. The
  environment is a parameter, and so are \<open>rest.InClusterConfig\<close>, loading a kubeconfig file
  and building a client, which belong to client-go.
\<close>

section \<open>Paths\<close>

text \<open>\<open>filepath.Clean\<close> and \<open>filepath.Join\<close> on Unix.\<close>

fun split_path :: "string \<Rightarrow> string \<Rightarrow> string list" where
  "split_path acc [] = [rev acc]"
| "split_path acc (c # cs) = (if c = CHR ''/'' then rev acc # split_path [] cs else split_path (c # acc) cs)"

text \<open>\<open>out\<close> is the result so far, its last element first.\<close>

fun clean_parts :: "bool \<Rightarrow> string list \<Rightarrow> string list \<Rightarrow> string list" where
  "clean_parts rooted out [] = rev out"
| "clean_parts rooted out (p # ps) =
     (if p = '''' \<or> p = ''.'' then clean_parts rooted out ps
      else if p = ''..''
      then (if out \<noteq> [] \<and> hd out \<noteq> ''..'' then clean_parts rooted (tl out) ps
            else if rooted then clean_parts rooted out ps
            else clean_parts rooted (''..'' # out) ps)
      else clean_parts rooted (p # out) ps)"

fun join_parts :: "string list \<Rightarrow> string" where
  "join_parts [] = ''''"
| "join_parts [p] = p"
| "join_parts (p # ps) = p @ ''/'' @ join_parts ps"

definition Clean :: "string \<Rightarrow> string" where
  "Clean path =
     (if path = '''' then ''.''
      else let rooted = (hd path = CHR ''/'');
               out = join_parts (clean_parts rooted [] (split_path [] path))
           in if rooted then ''/'' @ out else if out = '''' then ''.'' else out)"

definition Join :: "string list \<Rightarrow> string" where
  "Join elems = (case dropWhile (\<lambda>e. e = '''') elems of [] \<Rightarrow> '''' | es \<Rightarrow> Clean (join_parts es))"

section \<open>The configuration\<close>

definition UserHomeDir :: "(string \<Rightarrow> string) \<Rightarrow> string + string" where
  "UserHomeDir getenv = (if getenv ''HOME'' = '''' then Inl ''$HOME is not defined'' else Inr (getenv ''HOME''))"

definition buildOutOfClusterConfig :: "(string \<Rightarrow> string) \<Rightarrow> (string \<Rightarrow> string + 'cfg) \<Rightarrow> string + 'cfg" where
  "buildOutOfClusterConfig getenv buildConfig =
     (if getenv ''KUBECONFIG'' = ''''
      then case UserHomeDir getenv of
             Inl e \<Rightarrow> Inl (''resolve home dir: '' @ e)
           | Inr home \<Rightarrow> buildConfig (Join [home, ''.kube'', ''config''])
      else buildConfig (getenv ''KUBECONFIG''))"

definition NewKubeClient ::
  "string + 'cfg \<Rightarrow> (string \<Rightarrow> string) \<Rightarrow> (string \<Rightarrow> string + 'cfg) \<Rightarrow> ('cfg \<Rightarrow> string + 'c) \<Rightarrow> string + 'c" where
  "NewKubeClient inCluster getenv buildConfig newForConfig =
     (case (case inCluster of
              Inr cfg \<Rightarrow> Inr cfg
            | Inl _ \<Rightarrow> (case buildOutOfClusterConfig getenv buildConfig of
                         Inl e \<Rightarrow> Inl (''load kube config: '' @ e)
                       | Inr cfg \<Rightarrow> Inr cfg)) of
        Inl e \<Rightarrow> Inl e
      | Inr cfg \<Rightarrow>
          (case newForConfig cfg of Inl e \<Rightarrow> Inl (''build k8s client: '' @ e) | Inr c \<Rightarrow> Inr c))"

definition NewDynamicKubeClient ::
  "string + 'cfg \<Rightarrow> (string \<Rightarrow> string) \<Rightarrow> (string \<Rightarrow> string + 'cfg) \<Rightarrow> ('cfg \<Rightarrow> string + 'd) \<Rightarrow> string + 'd" where
  "NewDynamicKubeClient inCluster getenv buildConfig newForConfig =
     (case (case inCluster of
              Inr cfg \<Rightarrow> Inr cfg
            | Inl _ \<Rightarrow> (case buildOutOfClusterConfig getenv buildConfig of
                         Inl e \<Rightarrow> Inl (''load kube config: '' @ e)
                       | Inr cfg \<Rightarrow> Inr cfg)) of
        Inl e \<Rightarrow> Inl e
      | Inr cfg \<Rightarrow>
          (case newForConfig cfg of Inl e \<Rightarrow> Inl (''build dynamic k8s client: '' @ e) | Inr c \<Rightarrow> Inr c))"

section \<open>Clean paths\<close>

text \<open>A path element \<open>Clean\<close> keeps.\<close>

definition plain :: "string \<Rightarrow> bool" where
  "plain p \<longleftrightarrow> p \<noteq> '''' \<and> p \<noteq> ''.'' \<and> p \<noteq> ''..'' \<and> CHR ''/'' \<notin> set p"

lemma split_path_plain: "CHR ''/'' \<notin> set p \<Longrightarrow> split_path acc (p @ CHR ''/'' # cs) = (rev acc @ p) # split_path [] cs"
  by (induction p arbitrary: acc) auto

lemma split_path_last: "CHR ''/'' \<notin> set p \<Longrightarrow> split_path acc p = [rev acc @ p]"
  by (induction p arbitrary: acc) auto

lemma split_join: "ps \<noteq> [] \<Longrightarrow> \<forall>p \<in> set ps. CHR ''/'' \<notin> set p \<Longrightarrow> split_path [] (join_parts ps) = ps"
  by (induction ps rule: join_parts.induct) (simp_all add: split_path_plain split_path_last)

lemma clean_plain: "\<forall>p \<in> set ps. plain p \<Longrightarrow> clean_parts rooted out ps = rev out @ ps"
  by (induction ps arbitrary: out) (auto simp: plain_def)

text \<open>An absolute path of plain elements is what it seems.\<close>

lemma Clean_absolute:
  assumes "ps \<noteq> []" and "\<forall>p \<in> set ps. plain p"
  shows "Clean (''/'' @ join_parts ps) = ''/'' @ join_parts ps"
proof -
  have "\<forall>p \<in> set ps. CHR ''/'' \<notin> set p" using assms(2) by (simp add: plain_def)
  then have "split_path [] (''/'' @ join_parts ps) = '''' # ps" using split_join [OF assms(1)] by simp
  then show ?thesis using clean_plain [OF assms(2), of True "[]"] by (simp add: Clean_def)
qed

lemma join_parts_append: "ps \<noteq> [] \<Longrightarrow> qs \<noteq> [] \<Longrightarrow> join_parts (ps @ qs) = join_parts ps @ ''/'' @ join_parts qs"
proof (induction ps rule: join_parts.induct)
  case (2 p)
  then show ?case by (cases qs) simp_all
qed simp_all

lemma kubeconfig_in_home:
  assumes "ps \<noteq> []" and "\<forall>p \<in> set ps. plain p"
  shows "Join [''/'' @ join_parts ps, ''.kube'', ''config''] = ''/'' @ join_parts ps @ ''/.kube/config''"
proof -
  have p: "\<forall>p \<in> set (ps @ [''.kube'', ''config'']). plain p" using assms(2) by (auto simp: plain_def)
  have "''/'' @ join_parts ps @ ''/.kube/config'' = ''/'' @ join_parts (ps @ [''.kube'', ''config''])"
    using assms(1) by (simp add: join_parts_append)
  then show ?thesis using Clean_absolute [OF _ p] assms(1) by (simp add: Join_def)
qed

section \<open>Selection\<close>

text \<open>
  Both clients are built from the same configuration: the in-cluster one if there is one,
  else the file \<open>KUBECONFIG\<close> names, else \<open>.kube/config\<close> in the home directory.
\<close>

theorem kube_config_selection:
  fixes inCluster :: "string + 'cfg" and buildConfig :: "string \<Rightarrow> string + 'cfg"
  assumes "ps \<noteq> []" and "\<forall>p \<in> set ps. plain p" and "getenv ''HOME'' = ''/'' @ join_parts ps"
  defines "path \<equiv> if getenv ''KUBECONFIG'' = '''' then getenv ''HOME'' @ ''/.kube/config'' else getenv ''KUBECONFIG''"
  defines "selected \<equiv> (case inCluster of Inr cfg \<Rightarrow> Inr cfg | Inl _ \<Rightarrow> buildConfig path)"
  shows "NewKubeClient inCluster getenv buildConfig newForConfig = Inr c \<longleftrightarrow> (\<exists>cfg. selected = Inr cfg \<and> newForConfig cfg = Inr c)"
    and "NewDynamicKubeClient inCluster getenv buildConfig newDynamic = Inr d \<longleftrightarrow> (\<exists>cfg. selected = Inr cfg \<and> newDynamic cfg = Inr d)"
proof -
  have "buildOutOfClusterConfig getenv buildConfig = buildConfig path"
    using kubeconfig_in_home [OF assms(1,2)] assms(3) by (simp add: buildOutOfClusterConfig_def UserHomeDir_def path_def)
  then show "NewKubeClient inCluster getenv buildConfig newForConfig = Inr c \<longleftrightarrow> (\<exists>cfg. selected = Inr cfg \<and> newForConfig cfg = Inr c)"
    "NewDynamicKubeClient inCluster getenv buildConfig newDynamic = Inr d \<longleftrightarrow> (\<exists>cfg. selected = Inr cfg \<and> newDynamic cfg = Inr d)"
    by (auto simp: NewKubeClient_def NewDynamicKubeClient_def selected_def split: sum.splits)
qed


end
