(* ===== verification/Spec2Isabelle.thy ===== *)
theory Spec2Isabelle
  imports Lease_Protocol Store_Open Node_System Worker_Findings Worker_Completion Worker_Metrics Scan_Verdict Kube_Config
begin

text \<open>
  \<^bold>\<open>NodeSentinel: a verification of the validation worker and its work store.\<close>

  NodeSentinel accepts validation requests for container images over gRPC (pkg/ingress),
  keeps them as jobs in a SQLite work store (pkg/work, pkg/work/sqlite), and works them off
  (pkg/worker): a worker leases a job, runs up to four stages for it in a Kubernetes cluster
  (L3 admission dry-run, L4 smoke-run, L5-a functional validation, L5-b vulnerability scan),
  reports the results to NodeVault (pkg/vaultclient) and closes the job. Reports that could
  not be delivered wait in a ledger of the same table, from which a second loop redelivers
  them. cmd/nodesentinel wires and supervises the parts.

  \<^bold>\<open>Foundations.\<close> \<open>Go_Prelude\<close> has the parts of Go the code uses (int64 arithmetic, strconv,
  hex, crypto/rand) and lemmas on lists and strings. \<open>Timestamps\<close> models \<open>formatTS\<close> and
  \<open>time.Parse\<close> on RFC 3339 text; an instant is an integer of nanoseconds. \<open>Work_Types\<close> is
  pkg/work: \<open>Job\<close>, \<open>JobRequest\<close>, the statuses, the store's errors, \<open>RetryDelay\<close>.

  \<^bold>\<open>The store.\<close> \<open>Sqlite_Store\<close> models every method of store.go on a table of \<open>row\<close>s: each SQL
  statement is a predicate (its WHERE clause) and an update (its SET clause), each method
  the transaction around them. A \<open>faults\<close> argument decides for every database call whether
  it fails, so every error path and rollback is a branch. \<open>Store_Steps\<close> makes every method a
  \<open>store_call\<close> and refines it to \<open>row_step\<close>, the columns one call may change; the locale
  \<open>keyed_update\<close> is interpreted for every statement. \<open>Store_Invariants\<close> has the transition
  system locales, the invariant \<open>store_ok\<close> and the history of a row. \<open>Store_Properties\<close>,
  \<open>Store_Claims\<close> and \<open>Store_Create\<close> hold the contracts of the methods: lease exclusion and
  fencing, retry pacing, the delivery ledger and its claims, the terminal slot, the
  execution identity, idempotent creation. \<open>Store_Tenure\<close> follows one lease generation
  through arbitrary calls. \<open>Lease_Protocol\<close> states the lease protocol as an abstract machine
  and proves that the store refines it. \<open>Schema\<close> models \<open>initSchema\<close> and the migrations on
  an untyped database and compares them with the defaults a legacy row must get;
  \<open>Store_Open\<close> is the opening of the file and the writer lock, with SQLite's locks as a
  parameter and their documented behaviour as a hypothesis.

  \<^bold>\<open>The stages' logic.\<close> \<open>Retry_Policy\<close> is classify.go, failureclass.go and the stage plan;
  \<open>Job_Names\<close> is jobspec.go and the names of l5a.go; \<open>Vault_Client\<close> is pkg/vaultclient with
  the HTTP exchange as a parameter; \<open>Delivery\<close> is delivery.go, where the concurrent posts of
  a batch are an arbitrary order of their outcome writes, with arbitrary calls of the workers
  and the ingress before each of them, and shows that a pass resolves its batch all the same;
  \<open>Delivery_Loop\<close> is its loop, as a list of ticks, with the proof that it clears a backlog; \<open>Ingress\<close> is pkg/ingress;
  \<open>Metric_Counters\<close> is pkg/metrics with instruments and endpoint as parameters.

  \<^bold>\<open>The worker.\<close> \<open>Worker_World\<close>, \<open>Worker_Pipeline\<close>, \<open>Scan_Report\<close> and \<open>Worker_Process\<close> are
  worker.go, l5a.go and l5b.go, function by function, as programs in the state monad over a
  \<open>world\<close>: the shared store, the attempt's context, the metric increments and the trace of
  calls made. The n-th interaction takes the n-th \<open>reply\<close>, which holds what the code does
  not decide: the calls other goroutines and processes made to the store meanwhile, a
  shutdown, database faults, clocks, random numbers, and the answers of Kubernetes and
  NodeVault. Theorems hold for all replies, hence for every interleaving with other workers.
  \<open>Worker_Logic\<close> gives a weakest-precondition calculus and the chain of locales
  (\<open>stage_invariant\<close> to \<open>run_invariant\<close>) that prove an invariant of an attempt from what
  single calls keep; each property is an interpretation. \<open>Worker_Safety\<close> shows that the
  worker moves the store only by valid calls, posts at most one terminal record, does
  nothing after a lost lease, and reports no end of a job it requeues; \<open>Worker_Release\<close> that
  identities are released on evidence; \<open>Worker_Takeover\<close> that a takeover starts no second
  execution; \<open>Worker_Liveness\<close> that an attempt settles its job; \<open>Worker_Retries\<close> that a worker
  left alone leases no job more often than the policy allows and leaves no due job waiting,
  by a workload that every round with a job due reduces; \<open>Worker_Completion\<close> cuts a run into
  stretches, each longer than the workload and the longest retry delay, and shows that after
  as many stretches as there are attempts every job has finished; \<open>Worker_Metrics\<close> that the
  endpoint shows what happened; \<open>Scan_Verdict\<close> that a scan record says what the report says, by a reading of
  its own of the JSON. \<open>Worker_Demo\<close> and \<open>Worker_Findings\<close> are concrete attempts, the latter those
  in which the code departs from its comments.

  \<^bold>\<open>The process.\<close> \<open>Main_Cmd\<close> is main.go: settings, start-up, readiness and the HTTP endpoints,
  and the supervised loops as a step relation with its invariants, where the errgroup and the
  gRPC server are parameters. \<open>Kube_Config\<close> is k8sclient.go, with
  client-go as parameters. \<open>Node_System\<close> puts the parts together at one store, as a step
  relation whose steps are an ingress call, rounds of a worker, ticks of the delivery loop
  and a readiness probe, and shows that each is a sequence of valid store calls. The
  properties at the end of this theory are those of the whole process: what it wrote it can
  read, an accepted request is neither lost nor doubled, and it is worked on.

  \<^bold>\<open>Bounds.\<close> All functions are total. A wait (a ticker with a deadline) runs over the list of
  ticks its reply gives and ends with it, the confirmation of a deletion over the number of
  polls its reply gives, \<open>Run\<close> over a number of rounds and \<open>RunDeliveryLoop\<close> over a list of
  ticks; all are arbitrary in the theorems, so no fuel limits them, and where a result is
  promised after enough rounds or ticks, their number is stated. Instants lie in the years 0 to 9999 (\<open>ts_ok\<close>), where the
  text order of timestamps is their order; retry times are int64 nanoseconds and wrap.

  \<^bold>\<open>Not modelled.\<close> Logging; JSON text, HTTP and gRPC transport, TLS, the loading of
  Kubernetes configurations, OpenTelemetry instruments and the Prometheus handler, which are
  libraries the sources call and parameters here; the generated protobuf code; the
  connection-pool settings; the interleaving of other calls between the insert or commit and
  the read that follows it in \<open>CreateJob\<close> and \<open>LeaseJob\<close>, which are one step each; the JSON text
  of \<open>requested_actions\<close>, which a row holds as a list, and the width of its counters; SHA-256, a parameter of \<open>requestFingerprint\<close>. The deadline of a
  stage is visible only as errors of calls and as the end of a wait. Other calls
  at the store come before every single call of a worker's run, and before the claim and
  every outcome write of a pass of the delivery loop; a process step of \<open>Node_System\<close> is one
  such run or pass with the calls in between.
\<close>

section \<open>The process as a whole\<close>

text \<open>
  C33: whatever the process has done, every row of its store is one the program can read
  back: \<open>GetJob\<close> finds every job, with the status stored, and \<open>ListJobs\<close> lists exactly the
  jobs with the status asked for; neither fails on a timestamp.
\<close>

theorem stored_jobs_readable:
  assumes "system_step\<^sup>*\<^sup>* empty_store s"
  shows "(\<forall>r \<in> set (jobs s). \<exists>job. GetJob no_faults 0 (r_job_id r) s = Inr job \<and> JobID job = r_job_id r \<and> JobStatus job = r_status r) \<and>
    (\<exists>js. ListJobs no_faults st s = Inr js \<and> mset (map JobID js) =
       mset (map r_job_id (filter (\<lambda>r. case st of None \<Rightarrow> True | Some x \<Rightarrow> r_status r = x) (jobs s))))"
proof -
  have ok: "store_ok s" using system_ok [OF store_ok_empty assms] .
  have "\<exists>job. GetJob no_faults 0 (r_job_id r) s = Inr job \<and> JobID job = r_job_id r \<and> JobStatus job = r_status r"
    if "r \<in> set (jobs s)" for r
    using GetJob_reads [OF ok find_row_unique [OF store_ok_distinct [OF ok] that]] by blast
  then show ?thesis using ListJobs_reads [OF ok] by blast
qed

definition demo_accepted :: store where
  "demo_accepted = snd (EnqueueValidationWork (\<lambda>x. x) (\<lambda>fs. fs) ''job-1'' no_faults 0 (Some demo_pb) empty_store)"

lemma demo_accepted_step: "system_step empty_store demo_accepted"
  unfolding demo_accepted_def by (rule system_step.enqueue) (simp add: ts_ok_def)

theorem stored_jobs_readable_witness: "\<exists>js. ListJobs no_faults None demo_accepted = Inr js"
  using stored_jobs_readable [OF r_into_rtranclp [of system_step, OF demo_accepted_step], of None] by blast

text \<open>
  C11: an accepted request is never lost and never doubled. Once the ingress has answered a
  request with a job id, then after anything the process may do since, the store has exactly
  one job for that validation request, it is the job of the answer, it was created from a
  request with the same fingerprint, and it can be read.
\<close>

theorem accepted_request_survives:
  assumes "system_step\<^sup>*\<^sup>* empty_store s" and now: "ts_ok now" and perm: "\<And>fs. set (order fs) = set fs"
    and accepted: "EnqueueValidationWork H order jobID flt now (Some req) s = (Inr resp, s')"
    and later: "system_step\<^sup>*\<^sup>* s' t"
  shows "\<exists>r job. {x \<in> set (jobs t). r_validation_request_id x = Some (pb_ValidationRequestId req)} = {r} \<and>
    r_job_id r = pb_JobId resp \<and> r_request_fingerprint r = requestFingerprint H (job_request jobID req) \<and>
    GetJob no_faults 0 (pb_JobId resp) t = Inr job \<and> JobID job = pb_JobId resp"
proof -
  have ok: "store_ok s" using system_ok [OF store_ok_empty assms(1)] .
  note created = accepted_creates [OF ok now perm accepted]
  have okt: "store_ok t" using system_ok [OF created(1) later] .
  obtain r0 where r0: "find_row (pb_JobId resp) s' = Some r0"
    "r_validation_request_id r0 = Some (pb_ValidationRequestId req)"
    "r_request_fingerprint r0 = requestFingerprint H (job_request jobID req)"
    using CreateJob_cases_result [OF ok _ created(3)] created(2) by (fastforce simp: job_request_def)
  obtain r where r: "find_row (pb_JobId resp) t = Some r" "row_evolves r0 r"
    using row_history [OF system_reach [OF later] created(1) r0(1)] by blast
  have rt: "r \<in> set (jobs t)" "r_job_id r = pb_JobId resp" "r_validation_request_id r = Some (pb_ValidationRequestId req)"
    "r_request_fingerprint r = requestFingerprint H (job_request jobID req)"
    using r r0 find_row_Some [OF r(1)] by (auto simp: row_evolves_def request_kept_def)
  have "keys_ok t" using okt by (simp add: store_ok_def)
  then have "{x \<in> set (jobs t). r_validation_request_id x = Some (pb_ValidationRequestId req)} = {r}"
    using rt(1,3) keys_ok_vrid_unique by blast
  then show ?thesis using rt GetJob_reads [OF okt r(1), of 0] by blast
qed

definition demo_probed :: "store \<Rightarrow> store" where
  "demo_probed s = snd (newHTTPServer \<lparr>status_code = 200, body_text = ''''\<rparr>
     \<lparr>workerEnabled = True, workerRunning = True, deliveryRunning = True\<rparr> no_faults minute ''/readyz'' s)"

theorem accepted_request_survives_witness:
  "\<exists>resp s' r. EnqueueValidationWork (\<lambda>x. x) (\<lambda>fs. fs) ''job-1'' no_faults 0 (Some demo_pb) empty_store = (Inr resp, s') \<and>
     {x \<in> set (jobs (demo_probed s')). r_validation_request_id x = Some ''v1''} = {r} \<and> r_job_id r = pb_JobId resp"
proof -
  obtain resp s' where e: "EnqueueValidationWork (\<lambda>x. x) (\<lambda>fs. fs) ''job-1'' no_faults 0 (Some demo_pb) empty_store = (Inr resp, s')"
    using demo_enqueue by blast
  have "system_step s' (demo_probed s')" unfolding demo_probed_def by (rule system_step.probe) (simp add: ts_ok_def)
  from accepted_request_survives [OF rtranclp.rtrancl_refl _ _ e r_into_rtranclp [of system_step, OF this]]
  show ?thesis using e by (auto simp: ts_ok_def demo_pb_def)
qed

text \<open>
  C12: an accepted request is worked on. If the ingress accepts a new request and a worker is
  then left alone with a database that answers, then after \<open>maxAttempts\<close> rounds for every job
  in the store the worker has leased the new job and finished an attempt at it: the job has
  succeeded, has failed, or is queued for a further attempt while it has attempts left. This
  holds whatever the other jobs are and whatever Kubernetes and NodeVault answer.
\<close>

theorem accepted_request_is_worked_on:
  assumes "system_step\<^sup>*\<^sup>* empty_store s" and "ts_ok now" and perm: "\<And>fs. set (order fs) = set fs"
    and new: "\<forall>x \<in> set (jobs s). r_validation_request_id x \<noteq> Some (pb_ValidationRequestId req)"
    and accepted: "EnqueueValidationWork H order jobID flt now (Some req) s = (Inr resp, s')"
    and W: "alone W" and w: "w_store w = s'" "w_ctx w = Live" "w_trace w = []"
    and n: "nat maxAttempts * (length (jobs s) + 1) \<le> n"
  shows "0 < leases (pb_JobId resp) (w_trace (snd (run_state (Run W n) w))) \<and>
    (\<exists>r. find_row (pb_JobId resp) (w_store (snd (run_state (Run W n) w))) = Some r \<and> 1 \<le> r_attempt r \<and> r_lease_owner r = '''' \<and>
      (r_status r = StatusSucceeded \<or> r_status r = StatusFailed \<or> r_status r = StatusQueued \<and> r_attempt r < maxAttempts))"
proof -
  have ok: "store_ok s" using system_ok [OF store_ok_empty assms(1)] .
  note created = accepted_creates [OF ok assms(2) perm accepted]
  let ?r = "new_row H now (job_request jobID req)"
  have r: "find_row (pb_JobId resp) s' = Some ?r" "jobs s' = jobs s @ [?r]"
    using CreateJob_fresh [OF _ created(3)] created(2) new by (fastforce simp: job_request_def)+
  have due: "\<forall>k. leaseable (rp_now (replies W k)) ?r" by (simp add: leaseable_def due_for_retry_def new_row_def)
  have load: "workload (w_store w) \<le> n" using workload_bound [OF created(1)] r(2) n w(1) by (simp add: algebra_simps)
  have "r_attempt ?r = 0" by (simp add: new_row_def)
  then show ?thesis
    using Run_serves [OF W due, of w "pb_JobId resp" n] created(1) w r(1) load
    by (auto simp: wp_run row_sat_def attended_def settled_def overtaken_def)
qed

theorem accepted_request_is_worked_on_witness:
  "\<exists>resp s'. EnqueueValidationWork (\<lambda>x. x) (\<lambda>fs. fs) ''job-1'' no_faults 0 (Some demo_pb) empty_store = (Inr resp, s') \<and>
     0 < leases (pb_JobId resp) (w_trace (snd (run_state (Run (demo_worker []) 5) ((demo_world demo_row)\<lparr>w_store := s'\<rparr>))))"
proof -
  obtain resp s' where e: "EnqueueValidationWork (\<lambda>x. x) (\<lambda>fs. fs) ''job-1'' no_faults 0 (Some demo_pb) empty_store = (Inr resp, s')"
    using demo_enqueue by blast
  have "alone (demo_worker [])" using demo_env_ok by (simp add: alone_def demo_worker_def demo_reply_def)
  from accepted_request_is_worked_on [OF rtranclp.rtrancl_refl _ _ _ e this, of "(demo_world demo_row)\<lparr>w_store := s'\<rparr>" 5]
  show ?thesis using e by (auto simp: ts_ok_def demo_world_def empty_store_def maxAttempts_def)
qed

end
